(* ===== verification/Prelude.thy ===== *)
theory Prelude
  imports Main "HOL-Library.Sublist" "HOL-Library.Word"
begin

text \<open>
  Shared vocabulary of the development: Rust's \<open>Result\<close> as a sum type with its
  \<open>?\<close> operator, loops that stop at the first error, and the parts of the standard
  library's \<open>str\<close> and \<open>Path\<close> that the sources use.  A Rust string is the list of
  its UTF-8 bytes (\<^typ>\<open>string\<close>), so \<open>len\<close> is \<^const>\<open>length\<close>; \<open>chars\<close>
  groups the bytes into scalar values.
\<close>

named_theorems result_simps
  \<comment> \<open>inversion of \<open>rbind\<close> and of the error-stopping loops\<close>

named_theorems str_simps
  \<comment> \<open>evaluation of the string helpers\<close>

section \<open>Results\<close>

abbreviation Ok :: "'a \<Rightarrow> 'e + 'a" where
  "Ok \<equiv> Inr"

abbreviation Err :: "'e \<Rightarrow> 'e + 'a" where
  "Err \<equiv> Inl"

text \<open>The \<open>?\<close> operator: go on with the value, return the error.\<close>

definition rbind :: "'e + 'a \<Rightarrow> ('a \<Rightarrow> 'e + 'b) \<Rightarrow> 'e + 'b" where
  "rbind r f = (case r of Inl e \<Rightarrow> Inl e | Inr x \<Rightarrow> f x)"

text \<open>\<open>Result::map_err\<close>.\<close>

definition map_err :: "('e \<Rightarrow> 'd) \<Rightarrow> 'e + 'a \<Rightarrow> 'd + 'a" where
  "map_err g r = (case r of Inl e \<Rightarrow> Inl (g e) | Inr x \<Rightarrow> Inr x)"

text \<open>\<open>Option::ok_or\<close>.\<close>

definition ok_or :: "'e \<Rightarrow> 'a option \<Rightarrow> 'e + 'a" where
  "ok_or e opt = (case opt of None \<Rightarrow> Inl e | Some x \<Rightarrow> Inr x)"

text \<open>A \<open>for\<close> loop whose body may return an error early.\<close>

fun try_each :: "('a \<Rightarrow> 'e + unit) \<Rightarrow> 'a list \<Rightarrow> 'e + unit" where
  "try_each f [] = Inr ()"
| "try_each f (x # xs) = (case f x of Inl e \<Rightarrow> Inl e | Inr _ \<Rightarrow> try_each f xs)"

text \<open>The same with an accumulator the body replaces.\<close>

fun try_fold :: "('s \<Rightarrow> 'a \<Rightarrow> 'e + 's) \<Rightarrow> 's \<Rightarrow> 'a list \<Rightarrow> 'e + 's" where
  "try_fold f s [] = Inr s"
| "try_fold f s (x # xs) = (case f s x of Inl e \<Rightarrow> Inl e | Inr s' \<Rightarrow> try_fold f s' xs)"

lemma rbind_simps [simp]:
  "rbind (Inl e) f = Inl e"
  "rbind (Inr x) f = f x"
  by (simp_all add: rbind_def)

lemma rbind_eq_Inr [result_simps]:
  "rbind r f = Inr y \<longleftrightarrow> (\<exists>x. r = Inr x \<and> f x = Inr y)"
  by (cases r) auto

lemma rbind_eq_Inl [result_simps]:
  "rbind r f = Inl e \<longleftrightarrow> r = Inl e \<or> (\<exists>x. r = Inr x \<and> f x = Inl e)"
  by (cases r) auto

lemma map_err_simps [simp]:
  "map_err g (Inl e) = Inl (g e)"
  "map_err g (Inr x) = Inr x"
  by (simp_all add: map_err_def)

lemma map_err_eq_Inr [result_simps]: "map_err g r = Inr y \<longleftrightarrow> r = Inr y"
  by (cases r) auto

lemma map_err_eq_Inl [result_simps]: "map_err g r = Inl d \<longleftrightarrow> (\<exists>e. r = Inl e \<and> d = g e)"
  by (cases r) auto

lemma ok_or_simps [simp]:
  "ok_or e None = Inl e"
  "ok_or e (Some x) = Inr x"
  by (simp_all add: ok_or_def)

lemma ok_or_eq_Inr [result_simps]: "ok_or e opt = Inr x \<longleftrightarrow> opt = Some x"
  by (cases opt) auto

lemma ok_or_eq_Inl [result_simps]: "ok_or e opt = Inl d \<longleftrightarrow> opt = None \<and> d = e"
  by (cases opt) auto

lemma try_each_Ok_iff [result_simps]:
  "try_each f xs = Inr u \<longleftrightarrow> (\<forall>x \<in> set xs. f x = Inr ())"
  by (induction xs) (auto split: sum.splits)

text \<open>An error of the loop is the error of the first element that fails.\<close>

lemma try_each_ErrD:
  "try_each f xs = Inl e \<Longrightarrow>
     \<exists>ys x zs. xs = ys @ x # zs \<and> (\<forall>y \<in> set ys. f y = Inr ()) \<and> f x = Inl e"
proof (induction xs)
  case Nil
  then show ?case by simp
next
  case (Cons a xs)
  show ?case
  proof (cases "f a")
    case (Inl d)
    then show ?thesis
      using Cons.prems by (intro exI [of _ "[]"]) auto
  next
    case (Inr u)
    then obtain ys x zs where "xs = ys @ x # zs" "\<forall>y \<in> set ys. f y = Inr ()" "f x = Inl e"
      using Cons by auto
    then show ?thesis
      using Inr by (intro exI [of _ "a # ys"] exI [of _ x] exI [of _ zs]) auto
  qed
qed

lemma try_each_append:
  "try_each f (xs @ ys) = (case try_each f xs of Inl e \<Rightarrow> Inl e | Inr _ \<Rightarrow> try_each f ys)"
  by (induction xs) (auto split: sum.splits)

lemma try_fold_append:
  "try_fold f s (xs @ ys) = rbind (try_fold f s xs) (\<lambda>s'. try_fold f s' ys)"
  by (induction xs arbitrary: s) (auto split: sum.splits)

text \<open>Invariants and functional results of an error-stopping fold.\<close>

lemma try_fold_invariant:
  assumes "try_fold f s xs = Inr t" and "P s"
    and "\<And>s x s'. x \<in> set xs \<Longrightarrow> P s \<Longrightarrow> f s x = Inr s' \<Longrightarrow> P s'"
  shows "P t"
  using assms
proof (induction xs arbitrary: s)
  case Nil
  then show ?case by simp
next
  case (Cons x xs)
  from Cons.prems(1) obtain s' where s': "f s x = Inr s'" "try_fold f s' xs = Inr t"
    by (auto split: sum.splits)
  have "P s'" using Cons.prems(2,3) s'(1) by auto
  then show ?case using Cons.IH [OF s'(2)] Cons.prems(3) by auto
qed

lemma try_fold_each:
  "try_fold f s xs = Inr t \<Longrightarrow> x \<in> set xs \<Longrightarrow> \<exists>s' s''. f s' x = Inr s''"
  by (induction xs arbitrary: s) (auto split: sum.splits)

lemma try_fold_appends:
  assumes "\<And>s x s'. f s x = Inr s' \<Longrightarrow> s' = s @ g x" and "try_fold f s xs = Inr t"
  shows "t = s @ concat (map g xs)"
  using assms(2)
proof (induction xs arbitrary: s)
  case Nil
  then show ?case by simp
next
  case (Cons x xs)
  then obtain s' where "f s x = Inr s'" "try_fold f s' xs = Inr t"
    by (auto split: sum.splits)
  then show ?case using Cons.IH assms(1) by fastforce
qed

section \<open>Strings\<close>

text \<open>\<open>str::strip_prefix\<close>, \<open>starts_with\<close>, \<open>ends_with\<close> and \<open>contains\<close>.\<close>

fun strip_prefix :: "'a list \<Rightarrow> 'a list \<Rightarrow> 'a list option" where
  "strip_prefix [] s = Some s"
| "strip_prefix (p # ps) [] = None"
| "strip_prefix (p # ps) (c # cs) = (if p = c then strip_prefix ps cs else None)"

definition starts_with :: "'a list \<Rightarrow> 'a list \<Rightarrow> bool" where
  "starts_with p s = (take (length p) s = p)"

definition ends_with :: "'a list \<Rightarrow> 'a list \<Rightarrow> bool" where
  "ends_with p s = (length p \<le> length s \<and> drop (length s - length p) s = p)"

lemma strip_prefix_Some_iff [str_simps]:
  "strip_prefix p s = Some r \<longleftrightarrow> s = p @ r"
  by (induction p s rule: strip_prefix.induct) auto

lemma strip_prefix_None_iff:
  "strip_prefix p s = None \<longleftrightarrow> (\<forall>r. s \<noteq> p @ r)"
  by (metis not_None_eq strip_prefix_Some_iff)

lemma strip_prefix_append [simp]: "strip_prefix p (p @ r) = Some r"
  by (simp add: strip_prefix_Some_iff)

lemma starts_with_iff: "starts_with p s \<longleftrightarrow> prefix p s"
  by (auto simp: starts_with_def prefix_def) (metis append_take_drop_id)

text \<open>\<open>str::split(char)\<close>: one more piece than there are separators.\<close>

fun split_on :: "'a \<Rightarrow> 'a list \<Rightarrow> 'a list list" where
  "split_on d [] = [[]]"
| "split_on d (c # cs) =
     (if c = d then [] # split_on d cs
      else (case split_on d cs of [] \<Rightarrow> [[c]] | w # ws \<Rightarrow> (c # w) # ws))"

text \<open>\<open>[String]::join(sep)\<close>.\<close>

fun join :: "'a list \<Rightarrow> 'a list list \<Rightarrow> 'a list" where
  "join sep [] = []"
| "join sep [w] = w"
| "join sep (w # v # ws) = w @ sep @ join sep (v # ws)"

lemma split_on_nonempty [simp]: "split_on d s \<noteq> []"
  by (induction s) (auto split: list.splits)

lemma split_on_no_delim: "d \<notin> set s \<Longrightarrow> split_on d s = [s]"
  by (induction s) auto

lemma split_on_pieces: "w \<in> set (split_on d s) \<Longrightarrow> d \<notin> set w"
  by (induction s arbitrary: w) (auto split: if_splits list.splits)

lemma split_on_append_delim:
  "split_on d (s @ d # t) = split_on d s @ split_on d t"
proof (induction s)
  case Nil
  then show ?case by simp
next
  case (Cons c s)
  then show ?case
    by (cases "split_on d s") (auto simp: split_on_nonempty)
qed

lemma join_split_on: "join [d] (split_on d s) = s"
proof (induction s)
  case Nil
  then show ?case by simp
next
  case (Cons c s)
  obtain w ws where sp: "split_on d s = w # ws"
    using split_on_nonempty [of d s] by (cases "split_on d s") auto
  then show ?case using Cons by (cases ws) auto
qed

text \<open>ASCII classification (\<open>char::is_ascii_*\<close>) and case folding.\<close>

abbreviation byte :: "char \<Rightarrow> nat" where
  "byte c \<equiv> (of_char c :: nat)"

definition is_ascii_lowercase :: "char \<Rightarrow> bool" where
  "is_ascii_lowercase c = (97 \<le> byte c \<and> byte c \<le> 122)"

definition is_ascii_uppercase :: "char \<Rightarrow> bool" where
  "is_ascii_uppercase c = (65 \<le> byte c \<and> byte c \<le> 90)"

definition is_ascii_digit :: "char \<Rightarrow> bool" where
  "is_ascii_digit c = (48 \<le> byte c \<and> byte c \<le> 57)"

definition to_ascii_lowercase :: "char \<Rightarrow> char" where
  "to_ascii_lowercase c = (if is_ascii_uppercase c then char_of (byte c + 32) else c)"

definition eq_ignore_ascii_case :: "string \<Rightarrow> string \<Rightarrow> bool" where
  "eq_ignore_ascii_case a b = (map to_ascii_lowercase a = map to_ascii_lowercase b)"

text \<open>
  \<open>str::chars\<close>: a scalar value is its lead byte with the continuation bytes
  (\<open>0x80\<close> to \<open>0xBF\<close>) that follow; two scalar values are equal exactly when their
  encodings are.
\<close>

definition is_continuation :: "char \<Rightarrow> bool" where
  "is_continuation c = (128 \<le> byte c \<and> byte c < 192)"

function chars :: "string \<Rightarrow> string list" where
  "chars [] = []"
| "chars (c # cs) = (c # takeWhile is_continuation cs) # chars (dropWhile is_continuation cs)"
  by pat_completeness auto
termination
  by (relation "measure length") (auto simp: le_imp_less_Suc length_dropWhile_le)

lemma concat_chars: "concat (chars s) = s"
  by (induction s rule: chars.induct) simp_all

lemma chars_ascii:
  "\<forall>c \<in> set s. byte c < 128 \<Longrightarrow> chars s = map (\<lambda>c. [c]) s"
proof (induction s)
  case Nil
  then show ?case by simp
next
  case (Cons c s)
  have "takeWhile is_continuation s = [] \<and> dropWhile is_continuation s = s"
    using Cons.prems by (cases s) (auto simp: is_continuation_def)
  then show ?case using Cons by simp
qed

text \<open>\<open>str::split_whitespace\<close> and \<open>str::trim\<close> on ASCII white space.\<close>

definition is_space :: "char \<Rightarrow> bool" where
  "is_space c = (byte c = 32 \<or> (9 \<le> byte c \<and> byte c \<le> 13))"

definition split_whitespace :: "string \<Rightarrow> string list" where
  "split_whitespace s =
     filter (\<lambda>w. w \<noteq> []) (split_on CHR '' '' (map (\<lambda>c. if is_space c then CHR '' '' else c) s))"

definition trim :: "string \<Rightarrow> string" where
  "trim s = rev (dropWhile is_space (rev (dropWhile is_space s)))"

text \<open>Decimal rendering and parsing of unsigned integers.\<close>

function show_nat :: "nat \<Rightarrow> string" where
  "show_nat n =
     (if n < 10 then [char_of (48 + n)] else show_nat (n div 10) @ [char_of (48 + n mod 10)])"
  by pat_completeness auto
termination
  by (relation "measure id") auto

declare show_nat.simps [simp del]

fun parse_digits :: "nat \<Rightarrow> string \<Rightarrow> nat option" where
  "parse_digits acc [] = Some acc"
| "parse_digits acc (c # cs) =
     (if is_ascii_digit c then parse_digits (10 * acc + (byte c - 48)) cs else None)"

text \<open>
  \<open>str::parse\<close> at an unsigned type with the given maximum: an optional \<open>+\<close>, at least
  one digit, and no overflow.
\<close>

definition parse_unsigned :: "nat \<Rightarrow> string \<Rightarrow> nat option" where
  "parse_unsigned maxv s =
     (let ds = (case s of c # cs \<Rightarrow> if c = CHR ''+'' then cs else s | [] \<Rightarrow> [])
      in if ds = [] then None
         else case parse_digits 0 ds of
                None \<Rightarrow> None
              | Some n \<Rightarrow> if n \<le> maxv then Some n else None)"

lemma parse_digits_append:
  "parse_digits acc (s @ t) =
     (case parse_digits acc s of None \<Rightarrow> None | Some n \<Rightarrow> parse_digits n t)"
  by (induction s arbitrary: acc) auto

lemma digit_char [simp]:
  assumes "d < 10"
  shows "is_ascii_digit (char_of (48 + d))" and "byte (char_of (48 + d)) = 48 + d"
  using assms by (simp_all add: is_ascii_digit_def of_char_of take_bit_eq_mod)

lemma parse_show_nat: "parse_digits 0 (show_nat n) = Some n"
proof (induction n rule: show_nat.induct)
  case (1 n)
  show ?case
  proof (cases "n < 10")
    case True
    then show ?thesis by (simp add: show_nat.simps [of n])
  next
    case False
    then have "parse_digits 0 (show_nat (n div 10)) = Some (n div 10)"
      using "1.IH" by simp
    then show ?thesis
      using False by (simp add: show_nat.simps [of n] parse_digits_append)
  qed
qed

lemma show_nat_digits: "c \<in> set (show_nat n) \<Longrightarrow> is_ascii_digit c"
proof (induction n rule: show_nat.induct)
  case (1 n)
  then show ?case
    by (cases "n < 10") (auto simp: show_nat.simps [of n])
qed

lemma show_nat_nonempty [simp]: "show_nat n \<noteq> []"
  by (subst show_nat.simps) simp

lemma parse_unsigned_show_nat: "n \<le> maxv \<Longrightarrow> parse_unsigned maxv (show_nat n) = Some n"
proof -
  assume le: "n \<le> maxv"
  obtain c cs where s: "show_nat n = c # cs"
    using show_nat_nonempty [of n] by (cases "show_nat n") auto
  then have "is_ascii_digit c" using show_nat_digits [of c n] by simp
  then have "c \<noteq> CHR ''+''" by (auto simp: is_ascii_digit_def)
  then show ?thesis
    using le parse_show_nat [of n] s by (simp add: parse_unsigned_def)
qed

section \<open>Paths\<close>

text \<open>
  \<open>Path::join\<close> on Unix: an absolute argument replaces the base, otherwise exactly one
  separator is put between the two when the base is not empty.
\<close>

definition path_join :: "string \<Rightarrow> string \<Rightarrow> string" where
  "path_join base rest =
     (if starts_with ''/'' rest then rest
      else if base = [] \<or> last base = CHR ''/'' then base @ rest
      else base @ ''/'' @ rest)"

end
