(* ===== verification/Btmap.thy ===== *)
theory Btmap
  imports Prelude "HOL-Library.List_Lexorder" "HOL-Library.Char_ord"
begin

text \<open>
  \<open>BTreeMap\<close> as the association list its iterator yields: keys strictly increasing, in
  the byte order of Rust strings.  The interface the environment code relies on is the
  locale \<open>keyed_store\<close>; \<open>bt_insert\<close> interprets it.
\<close>

section \<open>Model\<close>

type_synonym ('k, 'v) btmap = "('k \<times> 'v) list"

fun bt_insert :: "'k::linorder \<Rightarrow> 'v \<Rightarrow> ('k, 'v) btmap \<Rightarrow> ('k, 'v) btmap" where
  "bt_insert k v [] = [(k, v)]"
| "bt_insert k v ((k', v') # m) =
     (if k < k' then (k, v) # (k', v') # m
      else if k = k' then (k, v) # m
      else (k', v') # bt_insert k v m)"

abbreviation bt_get :: "('k, 'v) btmap \<Rightarrow> 'k \<Rightarrow> 'v option" where
  "bt_get \<equiv> map_of"

definition bt_contains :: "('k, 'v) btmap \<Rightarrow> 'k \<Rightarrow> bool" where
  "bt_contains m k = (bt_get m k \<noteq> None)"

definition bt_wf :: "('k::linorder, 'v) btmap \<Rightarrow> bool" where
  "bt_wf m = sorted_wrt (<) (map fst m)"

definition bt_extend :: "('k::linorder, 'v) btmap \<Rightarrow> ('k \<times> 'v) list \<Rightarrow> ('k, 'v) btmap" where
  "bt_extend m kvs = foldl (\<lambda>m (k, v). bt_insert k v m) m kvs"

section \<open>The interface\<close>

locale keyed_store =
  fixes insert_key :: "'k \<Rightarrow> 'v \<Rightarrow> 'm \<Rightarrow> 'm"
    and get :: "'m \<Rightarrow> 'k \<Rightarrow> 'v option"
    and wf :: "'m \<Rightarrow> bool"
  assumes get_insert: "wf m \<Longrightarrow> get (insert_key k v m) = (get m)(k \<mapsto> v)"
    and wf_insert: "wf m \<Longrightarrow> wf (insert_key k v m)"
begin

definition extend :: "'m \<Rightarrow> ('k \<times> 'v) list \<Rightarrow> 'm" where
  "extend m kvs = foldl (\<lambda>m (k, v). insert_key k v m) m kvs"

lemma extend_simps [simp]:
  "extend m [] = m"
  "extend m ((k, v) # kvs) = extend (insert_key k v m) kvs"
  by (simp_all add: extend_def)

lemma wf_extend: "wf m \<Longrightarrow> wf (extend m kvs)"
  by (induction kvs arbitrary: m) (auto simp: wf_insert)

text \<open>Later insertions win over earlier ones and over the store they are put into.\<close>

lemma get_extend: "wf m \<Longrightarrow> get (extend m kvs) = get m ++ map_of (rev kvs)"
proof (induction kvs arbitrary: m)
  case Nil
  then show ?case by simp
next
  case (Cons kv kvs)
  then show ?case
    by (cases kv) (auto simp: wf_insert get_insert map_add_def fun_eq_iff split: option.splits)
qed

end

section \<open>Lemmas\<close>

lemma bt_insert_keys: "set (map fst (bt_insert k v m)) = insert k (set (map fst m))"
  by (induction k v m rule: bt_insert.induct) auto

lemma bt_insert_wf: "bt_wf m \<Longrightarrow> bt_wf (bt_insert k v m)"
proof (induction k v m rule: bt_insert.induct)
  case (1 k v)
  then show ?case by (simp add: bt_wf_def)
next
  case (2 k v k' v' m)
  show ?case
  proof (cases "k < k' \<or> k = k'")
    case True
    then show ?thesis using "2.prems" by (auto simp: bt_wf_def)
  next
    case False
    then have "bt_wf (bt_insert k v m)" using 2 by (auto simp: bt_wf_def)
    moreover have "\<forall>x \<in> set (map fst (bt_insert k v m)). k' < x"
      using False "2.prems" unfolding bt_insert_keys by (auto simp: bt_wf_def)
    ultimately show ?thesis
      using False by (simp add: bt_wf_def)
  qed
qed

lemma bt_get_insert: "bt_wf m \<Longrightarrow> bt_get (bt_insert k v m) = (bt_get m)(k \<mapsto> v)"
  by (induction k v m rule: bt_insert.induct) (auto simp: bt_wf_def fun_upd_twist fun_eq_iff)

interpretation btree: keyed_store bt_insert bt_get bt_wf
  by unfold_locales (simp_all add: bt_get_insert bt_insert_wf)

lemma bt_extend_eq: "bt_extend = btree.extend"
  by (simp add: fun_eq_iff bt_extend_def btree.extend_def)

lemma bt_wf_Nil [simp]: "bt_wf []"
  by (simp add: bt_wf_def)

lemma bt_wf_distinct: "bt_wf m \<Longrightarrow> distinct (map fst m)"
  unfolding bt_wf_def using strict_sorted_iff by blast

lemma bt_get_extend: "bt_wf m \<Longrightarrow> bt_get (bt_extend m kvs) = bt_get m ++ map_of (rev kvs)"
  by (simp add: bt_extend_eq btree.get_extend)

lemma bt_extend_wf: "bt_wf m \<Longrightarrow> bt_wf (bt_extend m kvs)"
  by (simp add: bt_extend_eq btree.wf_extend)

lemma bt_filter_wf: "bt_wf m \<Longrightarrow> bt_wf (filter P m)"
  by (auto simp: bt_wf_def sorted_wrt_map intro: sorted_wrt_filter)

lemma bt_contains_iff: "bt_contains m k \<longleftrightarrow> k \<in> fst ` set m"
  by (auto simp: bt_contains_def map_of_eq_None_iff)

lemma bt_get_filter:
  assumes "bt_wf m"
  shows "bt_get (filter P m) k = (case bt_get m k of None \<Rightarrow> None | Some v \<Rightarrow> if P (k, v) then Some v else None)"
proof -
  have d: "distinct (map fst m)" by (rule bt_wf_distinct [OF assms])
  have d': "distinct (map fst (filter P m))"
    using assms bt_filter_wf bt_wf_distinct by blast
  show ?thesis
  proof (cases "bt_get m k")
    case None
    then have "bt_get (filter P m) k = None" by (auto simp: map_of_eq_None_iff)
    then show ?thesis using None by simp
  next
    case (Some v)
    then have mem: "(k, v') \<in> set m \<longleftrightarrow> v' = v" for v'
      using d by (metis map_of_is_SomeI map_of_SomeD option.inject)
    show ?thesis
    proof (cases "P (k, v)")
      case True
      then show ?thesis using Some mem d' by (simp add: map_of_eq_Some_iff)
    next
      case False
      then have "k \<notin> fst ` set (filter P m)" using mem by auto
      then show ?thesis using Some False by (simp add: map_of_eq_None_iff)
    qed
  qed
qed

end
