(* ===== verification/Paths.thy ===== *)
theory Paths
  imports Prelude
begin

unbundle bit_operations_syntax

text \<open>
  Path containment (\<open>src/paths.rs\<close>), shared by manifest validation and by the policy
  compiler.  A manifest path is a root marker and its components; \<open>is_within\<close> is
  component-wise containment under one root.  The interface other components rely on is
  the locale \<open>containment\<close>: a preorder whose upper sets are chains, as every region
  that covers a path is an ancestor of it.
\<close>

section \<open>Model\<close>

definition SENSITIVE_PATHS :: "string list" where
  "SENSITIVE_PATHS = [''~/.ssh'', ''~/.aws'', ''~/.config/gcloud'', ''~/.kube'']"

datatype root = Home | Absolute | Project

definition components :: "string \<Rightarrow> root \<times> string list" where
  "components path =
     (let (root, rest) =
        (if path = ''~'' then (Home, [])
         else case strip_prefix ''~/'' path of
             Some rest \<Rightarrow> (Home, rest)
           | None \<Rightarrow>
               (case strip_prefix ''/'' path of
                  Some rest \<Rightarrow> (Absolute, rest)
                | None \<Rightarrow> (Project, path)))
      in (root, filter (\<lambda>c. c \<noteq> [] \<and> c \<noteq> ''.'') (split_on CHR ''/'' rest)))"

definition has_traversal :: "string \<Rightarrow> bool" where
  "has_traversal path = List.member (snd (components path)) ''..''"

definition is_within :: "string \<Rightarrow> string \<Rightarrow> bool" where
  "is_within candidate granted =
     (let (candidate_root, c) = components candidate;
          (granted_root, g) = components granted
      in candidate_root = granted_root \<and> length g \<le> length c \<and> take (length g) c = g)"

text \<open>Binary resolution on the ambient \<open>PATH\<close>; \<open>metadata\<close> is the host file system.\<close>

record file_metadata =
  is_file :: bool
  mode :: "32 word"

definition is_executable_file :: "(string \<Rightarrow> file_metadata option) \<Rightarrow> string \<Rightarrow> bool" where
  "is_executable_file metadata path =
     (case metadata path of
        None \<Rightarrow> False
      | Some m \<Rightarrow> is_file m \<and> mode m AND 73 \<noteq> 0)"  \<comment> \<open>\<open>0o111\<close>\<close>

definition resolve_on_path ::
  "string option \<Rightarrow> (string \<Rightarrow> file_metadata option) \<Rightarrow> string \<Rightarrow> string option" where
  "resolve_on_path env_path metadata name =
     (case env_path of
        None \<Rightarrow> None
      | Some p \<Rightarrow>
          find (is_executable_file metadata)
            (map (\<lambda>dir. path_join dir name) (split_on CHR '':'' p)))"

section \<open>Containment as an interface\<close>

locale containment =
  fixes within :: "'p \<Rightarrow> 'p \<Rightarrow> bool"
  assumes within_refl: "within p p"
    and within_trans: "within p q \<Longrightarrow> within q r \<Longrightarrow> within p r"
    and within_chain: "within p a \<Longrightarrow> within p b \<Longrightarrow> within a b \<or> within b a"
begin

definition covered :: "'p list \<Rightarrow> 'p \<Rightarrow> bool" where
  "covered rules p = list_ex (within p) rules"

lemma covered_iff: "covered rules p \<longleftrightarrow> (\<exists>r \<in> set rules. within p r)"
  by (simp add: covered_def list_ex_iff)

lemma covered_rule: "r \<in> set rules \<Longrightarrow> covered rules r"
  by (auto simp: covered_iff intro: within_refl)

lemma covered_downward: "within p q \<Longrightarrow> covered rules q \<Longrightarrow> covered rules p"
  by (auto simp: covered_iff intro: within_trans)

lemma covered_append [simp]: "covered (xs @ ys) p \<longleftrightarrow> covered xs p \<or> covered ys p"
  by (auto simp: covered_iff)

text \<open>
  When no denied region lies inside a granted one, a path that is both granted and denied
  is granted by a region nested inside the denied one, and by no other kind of grant.
\<close>

lemma conflict_is_nested_grant:
  assumes no_overlap: "\<forall>d \<in> set deny. \<not> covered allow d"
    and "within p d" "d \<in> set deny" and "within p a" "a \<in> set allow"
  shows "within a d \<and> \<not> within d a"
proof -
  have "\<not> within d a"
    using no_overlap assms(3,5) by (auto simp: covered_iff)
  moreover have "within a d \<or> within d a"
    using within_chain assms(2,4) by blast
  ultimately show ?thesis by blast
qed

lemma deny_region_ungranted:
  assumes "\<forall>d \<in> set deny. \<not> covered allow d"
    and "\<forall>a \<in> set allow. \<not> covered deny a"
    and "covered deny p"
  shows "\<not> covered allow p"
  using assms conflict_is_nested_grant by (meson covered_iff)

end

section \<open>Lemmas\<close>

abbreviation path_root :: "string \<Rightarrow> root" where
  "path_root p \<equiv> fst (components p)"

abbreviation path_comps :: "string \<Rightarrow> string list" where
  "path_comps p \<equiv> snd (components p)"

lemma is_within_prefix:
  "is_within c g \<longleftrightarrow> path_root c = path_root g \<and> prefix (path_comps g) (path_comps c)"
proof -
  have "prefix y x \<longleftrightarrow> length y \<le> length x \<and> take (length y) x = y" for x y :: "string list"
    by (metis append_eq_conv_conj prefix_def prefix_length_le)
  then show ?thesis
    unfolding is_within_def by (auto split: prod.splits)
qed

interpretation path_containment: containment is_within
proof
  show "is_within p p" for p
    by (simp add: is_within_prefix)
  show "is_within p q \<Longrightarrow> is_within q r \<Longrightarrow> is_within p r" for p q r
    by (auto simp: is_within_prefix intro: prefix_order.trans)
  show "is_within p a \<Longrightarrow> is_within p b \<Longrightarrow> is_within a b \<or> is_within b a" for p a b
    by (auto simp: is_within_prefix dest: prefix_same_cases)
qed

lemmas is_within_refl [simp] = path_containment.within_refl
lemmas is_within_trans = path_containment.within_trans
lemmas is_within_chain = path_containment.within_chain

lemma component_clean:
  assumes "c \<in> set (path_comps p)"
  shows "c \<noteq> []" and "c \<noteq> ''.''" and "CHR ''/'' \<notin> set c"
proof -
  obtain rest where "path_comps p = filter (\<lambda>c. c \<noteq> [] \<and> c \<noteq> ''.'') (split_on CHR ''/'' rest)"
    by (simp add: components_def split_beta Let_def)
  with assms have c: "c \<noteq> [] \<and> c \<noteq> ''.'' \<and> c \<in> set (split_on CHR ''/'' rest)"
    by (simp only: set_filter mem_Collect_eq) simp
  then show "c \<noteq> []" and "c \<noteq> ''.''" and "CHR ''/'' \<notin> set c"
    using split_on_pieces [of c "CHR ''/''" rest] by simp_all
qed

lemma is_within_no_traversal:
  "is_within c g \<Longrightarrow> \<not> has_traversal c \<Longrightarrow> \<not> has_traversal g"
  by (auto simp: is_within_prefix has_traversal_def dest: set_mono_prefix)

subsection \<open>Roots and components of the path forms\<close>

lemma components_home [simp]: "components ''~'' = (Home, [])"
  by (simp add: components_def)

lemma components_under_home:
  "components (''~/'' @ rest) =
     (Home, filter (\<lambda>c. c \<noteq> [] \<and> c \<noteq> ''.'') (split_on CHR ''/'' rest))"
  by (simp add: components_def)

lemma components_absolute:
  "components (''/'' @ rest) =
     (Absolute, filter (\<lambda>c. c \<noteq> [] \<and> c \<noteq> ''.'') (split_on CHR ''/'' rest))"
  by (simp add: components_def)

text \<open>Appending a component to a path goes strictly inside it.\<close>

lemma components_append:
  assumes "p \<noteq> []" and "p \<noteq> ''~''"
  shows "components (p @ ''/'' @ q) =
     (path_root p, path_comps p @ filter (\<lambda>c. c \<noteq> [] \<and> c \<noteq> ''.'') (split_on CHR ''/'' q))"
proof -
  consider (home) r where "p = ''~/'' @ r" | (abs) r where "p = ''/'' @ r"
    | (proj) "\<forall>r. p \<noteq> ''~/'' @ r" "\<forall>r. p \<noteq> ''/'' @ r"
    by blast
  then show ?thesis
  proof cases
    case home
    have "p @ ''/'' @ q = ''~/'' @ (r @ CHR ''/'' # q)" using home by simp
    then show ?thesis
      unfolding home by (simp only: components_under_home split_on_append_delim) simp
  next
    case abs
    have "p @ ''/'' @ q = ''/'' @ (r @ CHR ''/'' # q)" using abs by simp
    then show ?thesis
      unfolding abs by (simp only: components_absolute split_on_append_delim) simp
  next
    case proj
    have "strip_prefix ''~/'' p = None" "strip_prefix ''/'' p = None"
      using proj by (simp_all add: strip_prefix_None_iff)
    moreover have "strip_prefix ''~/'' (p @ CHR ''/'' # q) = None"
      using proj assms by (cases p; cases "tl p") (auto split: if_splits)
    moreover have "strip_prefix ''/'' (p @ CHR ''/'' # q) = None"
      using proj assms by (cases p) (auto split: if_splits)
    moreover have "p @ CHR ''/'' # q \<noteq> ''~''" using assms by (cases p) auto
    ultimately show ?thesis
      using assms by (simp add: components_def split_on_append_delim)
  qed
qed

lemma is_within_append:
  "p \<noteq> [] \<Longrightarrow> p \<noteq> ''~'' \<Longrightarrow> is_within (p @ ''/'' @ q) p"
  using components_append [of p q] by (simp add: is_within_prefix)

subsection \<open>What containment means for the file system\<close>

text \<open>
  The directory a component sequence leads to when walked from a base directory: a
  \<open>..\<close> goes to the parent, every other component descends.
\<close>

fun walk :: "string list \<Rightarrow> string list \<Rightarrow> string list" where
  "walk base [] = base"
| "walk base (c # cs) = walk (if c = ''..'' then butlast base else base @ [c]) cs"

definition location :: "(root \<Rightarrow> string list) \<Rightarrow> string \<Rightarrow> string list" where
  "location base p = walk (base (path_root p)) (path_comps p)"

lemma walk_append: "walk base (cs @ ds) = walk (walk base cs) ds"
  by (induction cs arbitrary: base) auto

lemma walk_descends: "''..'' \<notin> set cs \<Longrightarrow> walk base cs = base @ cs"
  by (induction cs arbitrary: base) auto

lemma location_no_traversal:
  "\<not> has_traversal p \<Longrightarrow> location base p = base (path_root p) @ path_comps p"
  by (simp add: location_def has_traversal_def walk_descends)

text \<open>
  For a path without a \<open>..\<close> component, being within a granted path means lying at or
  below it on the file system, wherever the home directory and the project root are; the
  rejection of traversal segments is what makes the lexical check sound.
\<close>

theorem is_within_sound:
  assumes "is_within c g" and "\<not> has_traversal c"
  shows "prefix (location base g) (location base c)"
  using assms is_within_no_traversal [OF assms]
  by (auto simp: location_no_traversal is_within_prefix prefix_def)

theorem is_within_sound_witness:
  "prefix (location (\<lambda>_. [''home'', ''u'']) ''~/.ssh'') (location (\<lambda>_. [''home'', ''u'']) ''~/.ssh/id'')
     \<and> \<not> prefix (location (\<lambda>_. [''home'', ''u'']) ''~/.ssh'')
           (location (\<lambda>_. [''home'', ''u'']) ''~/.ssh/../.aws'')"
proof
  have "is_within ''~/.ssh/id'' ''~/.ssh''" "\<not> has_traversal ''~/.ssh/id''"
    by code_simp+
  then show "prefix (location (\<lambda>_. [''home'', ''u'']) ''~/.ssh'')
      (location (\<lambda>_. [''home'', ''u'']) ''~/.ssh/id'')"
    by (rule is_within_sound)
  show "\<not> prefix (location (\<lambda>_. [''home'', ''u'']) ''~/.ssh'')
           (location (\<lambda>_. [''home'', ''u'']) ''~/.ssh/../.aws'')"
    by code_simp
qed

subsection \<open>Resolution on the ambient PATH\<close>

lemma resolve_on_path_Some:
  assumes "resolve_on_path env_path metadata name = Some path"
  shows "is_executable_file metadata path"
    and "\<exists>p dir. env_path = Some p \<and> dir \<in> set (split_on CHR '':'' p) \<and> path = path_join dir name"
  using assms
  by (auto simp: resolve_on_path_def find_Some_iff split: option.splits)
     (metis (no_types, lifting) length_map nth_map nth_mem)

end
