(* ===== verification/Utf8.thy ===== *)
theory Utf8
  imports Prelude
begin

text \<open>
  More of the standard library's \<open>str\<close>, on UTF-8 bytes: which byte strings are valid UTF-8, trimming
  of white space, and splitting at the first or the last occurrence of a character.
\<close>

section \<open>Valid UTF-8\<close>

text \<open>\<open>std::str::from_utf8\<close>: shortest forms only, no surrogates, nothing above \<open>U+10FFFF\<close>.\<close>

definition byte_in :: "nat \<Rightarrow> nat \<Rightarrow> char \<Rightarrow> bool" where
  "byte_in lo hi c \<longleftrightarrow> lo \<le> byte c \<and> byte c \<le> hi"

fun utf8_valid :: "string \<Rightarrow> bool" where
  "utf8_valid [] = True"
| "utf8_valid (c # cs) =
    (if byte c < 128 then utf8_valid cs
     else if byte_in 0xC2 0xDF c then
       (case cs of x # r \<Rightarrow> is_continuation x \<and> utf8_valid r | [] \<Rightarrow> False)
     else if byte_in 0xE0 0xEF c then
       (case cs of x # y # r \<Rightarrow>
          is_continuation x \<and> is_continuation y
          \<and> (byte c = 0xE0 \<longrightarrow> 0xA0 \<le> byte x) \<and> (byte c = 0xED \<longrightarrow> byte x < 0xA0) \<and> utf8_valid r
        | _ \<Rightarrow> False)
     else if byte_in 0xF0 0xF4 c then
       (case cs of x # y # z # r \<Rightarrow>
          is_continuation x \<and> is_continuation y \<and> is_continuation z
          \<and> (byte c = 0xF0 \<longrightarrow> 0x90 \<le> byte x) \<and> (byte c = 0xF4 \<longrightarrow> byte x < 0x90) \<and> utf8_valid r
        | _ \<Rightarrow> False)
     else False)"

lemma utf8_valid_ascii: "list_all (\<lambda>c. byte c < 128) s \<Longrightarrow> utf8_valid s"
  by (induction s) simp_all

text \<open>\<open>String::from_utf8_lossy\<close>: each longest piece that starts a character but does not complete it,
  and each byte that cannot start one, becomes \<open>U+FFFD\<close>.\<close>

definition em_dash :: string where
  "em_dash = [CHR 0xE2, CHR 0x80, CHR 0x94]"

definition replacement :: string where
  "replacement = [CHR 0xEF, CHR 0xBF, CHR 0xBD]"

definition second_byte :: "char \<Rightarrow> char \<Rightarrow> bool" where
  "second_byte c x \<longleftrightarrow> is_continuation x
     \<and> (byte c = 0xE0 \<longrightarrow> 0xA0 \<le> byte x) \<and> (byte c = 0xED \<longrightarrow> byte x < 0xA0)
     \<and> (byte c = 0xF0 \<longrightarrow> 0x90 \<le> byte x) \<and> (byte c = 0xF4 \<longrightarrow> byte x < 0x90)"

text \<open>The piece a text starts with: whether it is a whole character, and its length.\<close>

definition piece_tail :: "char \<Rightarrow> nat" where
  "piece_tail c = (if byte_in 0xC2 0xDF c then 1 else if byte_in 0xE0 0xEF c then 2
     else if byte_in 0xF0 0xF4 c then 3 else 0)"

definition piece :: "char \<Rightarrow> string \<Rightarrow> bool \<times> nat" where
  "piece c cs =
     (if byte c < 128 then (True, 1)
      else let n = (case cs of
             [] \<Rightarrow> 0
           | x # r \<Rightarrow> if 0 < piece_tail c \<and> second_byte c x
               then Suc (length (takeWhile is_continuation (take (piece_tail c - 1) r))) else 0)
        in (0 < n \<and> n = piece_tail c, Suc n))"

function from_utf8_lossy :: "string \<Rightarrow> string" where
  "from_utf8_lossy [] = []"
| "from_utf8_lossy (c # cs) =
     (case piece c cs of (whole, n) \<Rightarrow>
        (if whole then take n (c # cs) else replacement) @ from_utf8_lossy (drop n (c # cs)))"
  by pat_completeness auto
termination
  by (relation "measure length") (auto simp: piece_def Let_def split: if_splits)

lemma utf8_valid_piece:
  "utf8_valid (c # cs) \<longleftrightarrow> fst (piece c cs) \<and> utf8_valid (drop (snd (piece c cs)) (c # cs))"
proof -
  consider "byte c < 128" | "byte_in 0xC2 0xDF c" | "byte_in 0xE0 0xEF c" | "byte_in 0xF0 0xF4 c"
    | "128 \<le> byte c" "piece_tail c = 0"
    by (fastforce simp: piece_tail_def)
  then show ?thesis
  proof cases
    case 2
    then show ?thesis
      by (cases cs) (auto simp: piece_def piece_tail_def second_byte_def byte_in_def)
  next
    case 3
    then show ?thesis
      by (cases cs rule: utf8_valid.cases; cases "tl cs")
         (auto simp: piece_def piece_tail_def second_byte_def byte_in_def numeral_2_eq_2)
  next
    case 4
    then show ?thesis
      by (cases cs; cases "tl cs"; cases "tl (tl cs)")
         (auto simp: piece_def piece_tail_def second_byte_def byte_in_def numeral_3_eq_3)
  qed (auto simp: piece_def piece_tail_def Let_def split: if_splits)
qed

lemma from_utf8_lossy_id: "utf8_valid s \<Longrightarrow> from_utf8_lossy s = s"
proof (induction s rule: from_utf8_lossy.induct)
  case (2 c cs)
  obtain whole n where p: "piece c cs = (whole, n)" by (rule prod.exhaust)
  then have "whole" "utf8_valid (drop n (c # cs))" using 2(2) utf8_valid_piece [of c cs] by simp_all
  then show ?case using 2(1) [OF p [symmetric]] p append_take_drop_id [of n "c # cs"] by simp
qed simp

section \<open>White space\<close>

text \<open>The scalar values of \<open>char::is_whitespace\<close>, as their encodings.\<close>

definition is_white :: "string \<Rightarrow> bool" where
  "is_white c = (case map byte c of
      [b] \<Rightarrow> b = 32 \<or> (9 \<le> b \<and> b \<le> 13)
    | [a, b] \<Rightarrow> a = 0xC2 \<and> (b = 0x85 \<or> b = 0xA0)
    | [a, b, d] \<Rightarrow>
        (a = 0xE1 \<and> b = 0x9A \<and> d = 0x80)
        \<or> (a = 0xE2 \<and> b = 0x80 \<and> (d \<le> 0x8A \<or> d = 0xA8 \<or> d = 0xA9 \<or> d = 0xAF))
        \<or> (a = 0xE2 \<and> b = 0x81 \<and> d = 0x9F)
        \<or> (a = 0xE3 \<and> b = 0x80 \<and> d = 0x80)
    | _ \<Rightarrow> False)"

definition str_trim_start :: "string \<Rightarrow> string" where
  "str_trim_start s = concat (dropWhile is_white (chars s))"

definition str_trim_end :: "string \<Rightarrow> string" where
  "str_trim_end s = concat (rev (dropWhile is_white (rev (chars s))))"

definition str_trim :: "string \<Rightarrow> string" where
  "str_trim s = str_trim_end (str_trim_start s)"

lemma rev_dropWhile_prefix: "prefix (rev (dropWhile P (rev xs))) xs"
  by (metis prefix_def rev_append rev_rev_ident takeWhile_dropWhile_id)

lemma concat_prefix: "prefix xs ys \<Longrightarrow> prefix (concat xs) (concat ys)"
  by (auto simp: prefix_def)

lemma str_trim_end_prefix: "prefix (str_trim_end s) s"
  using concat_prefix [OF rev_dropWhile_prefix, of is_white "chars s"]
  by (simp add: str_trim_end_def concat_chars)

lemma str_trim_start_suffix: "suffix (str_trim_start s) s"
proof -
  have "s = concat (takeWhile is_white (chars s)) @ str_trim_start s"
    by (metis concat_append concat_chars str_trim_start_def takeWhile_dropWhile_id)
  then show ?thesis unfolding suffix_def by blast
qed

lemma str_trim_set: "set (str_trim s) \<subseteq> set s"
  using str_trim_end_prefix [of "str_trim_start s"] str_trim_start_suffix [of s]
  unfolding str_trim_def by (auto dest!: set_mono_prefix set_mono_suffix)

section \<open>Splitting once\<close>

definition split_once :: "char \<Rightarrow> string \<Rightarrow> (string \<times> string) option" where
  "split_once d s = (if d \<in> set s
     then Some (takeWhile (\<lambda>c. c \<noteq> d) s, tl (dropWhile (\<lambda>c. c \<noteq> d) s)) else None)"

definition rsplit_once :: "char \<Rightarrow> string \<Rightarrow> (string \<times> string) option" where
  "rsplit_once d s = map_option (\<lambda>(b, a). (rev a, rev b)) (split_once d (rev s))"

lemma takeWhile_first: "d \<notin> set a \<Longrightarrow> takeWhile (\<lambda>c. c \<noteq> d) (a @ d # b) = a"
  and dropWhile_first: "d \<notin> set a \<Longrightarrow> dropWhile (\<lambda>c. c \<noteq> d) (a @ d # b) = d # b"
  by (induction a) auto

lemma split_once_Some:
  "split_once d s = Some (a, b) \<longleftrightarrow> s = a @ d # b \<and> d \<notin> set a"
proof
  assume split: "split_once d s = Some (a, b)"
  then have "d \<in> set s" by (simp add: split_once_def split: if_splits)
  then obtain a' b' where s: "s = a' @ d # b'" "d \<notin> set a'" by (meson split_list_first)
  then have "takeWhile (\<lambda>c. c \<noteq> d) s = a'" "dropWhile (\<lambda>c. c \<noteq> d) s = d # b'"
    by (simp_all add: takeWhile_first dropWhile_first)
  then show "s = a @ d # b \<and> d \<notin> set a" using split s by (simp add: split_once_def split: if_splits)
next
  assume "s = a @ d # b \<and> d \<notin> set a"
  then show "split_once d s = Some (a, b)" by (auto simp: split_once_def takeWhile_first dropWhile_first)
qed

lemma split_once_None: "split_once d s = None \<longleftrightarrow> d \<notin> set s"
  by (simp add: split_once_def)

lemma rsplit_once_Some:
  "rsplit_once d s = Some (a, b) \<longleftrightarrow> s = a @ d # b \<and> d \<notin> set b"
proof -
  have "rsplit_once d s = Some (a, b) \<longleftrightarrow> split_once d (rev s) = Some (rev b, rev a)"
    by (auto simp: rsplit_once_def)
  also have "\<dots> \<longleftrightarrow> rev s = rev b @ d # rev a \<and> d \<notin> set b" by (simp add: split_once_Some)
  also have "rev s = rev b @ d # rev a \<longleftrightarrow> s = a @ d # b" by (metis append.assoc append_Cons append_Nil rev.simps(2) rev_append rev_rev_ident)
  finally show ?thesis .
qed

lemma rsplit_once_None: "rsplit_once d s = None \<longleftrightarrow> d \<notin> set s"
  by (simp add: rsplit_once_def split_once_None)

section \<open>Lines\<close>

definition newline :: char where
  "newline = CHR 0x0A"

text \<open>\<open>str::lines\<close>: a line ends with a newline, and a carriage return before it is dropped.\<close>

definition str_lines :: "string \<Rightarrow> string list" where
  "str_lines s = (let ps = split_on newline s in
     map (\<lambda>l. if ends_with [CHR 0x0D] l then butlast l else l) (butlast ps)
     @ (if last ps = [] then [] else [last ps]))"

lemma utf8_valid_append:
  assumes "utf8_valid t"
  shows "utf8_valid s \<Longrightarrow> utf8_valid (s @ t)"
proof (induction s rule: utf8_valid.induct)
  case (2 c cs)
  consider (one) "byte c < 128"
    | (two) x r where "\<not> byte c < 128" "byte_in 0xC2 0xDF c" "cs = x # r"
    | (three) x y r where "\<not> byte c < 128" "\<not> byte_in 0xC2 0xDF c" "byte_in 0xE0 0xEF c" "cs = x # y # r"
    | (four) x y z r where "\<not> byte c < 128" "\<not> byte_in 0xC2 0xDF c" "\<not> byte_in 0xE0 0xEF c" "byte_in 0xF0 0xF4 c"
        "cs = x # y # z # r"
    using "2.prems" by (simp split: if_splits list.splits)
  then show ?case
  proof cases
    case one
    then show ?thesis using "2.IH"(1) "2.prems" by simp
  next
    case two
    then show ?thesis using "2.IH"(2) [of x r] "2.prems" by simp
  next
    case three
    then show ?thesis using "2.IH"(3) [of x "y # r" y r] "2.prems" by simp
  next
    case four
    then show ?thesis using "2.IH"(4) [of x "y # z # r" y "z # r" z r] "2.prems" by simp
  qed
qed (simp add: assms)

lemma line_in_str_lines:
  assumes "newline \<notin> set l" and "\<not> ends_with [CHR 0x0D] l"
  shows "l \<in> set (str_lines (s @ [newline] @ l @ [newline]))"
proof -
  have "split_on newline (s @ newline # l @ newline # []) = split_on newline s @ [l, []]"
    using split_on_append_delim [of newline s "l @ newline # []"] split_on_append_delim [of newline l "[]"]
      split_on_no_delim [OF assms(1)] by simp
  then show ?thesis using assms(2) by (simp add: str_lines_def Let_def butlast_append)
qed

end
