(* ===== verification/Provider.thy ===== *)
theory Provider
  imports Btmap Paths Utf8
begin

unbundle bit_operations_syntax

text \<open>
  The environment providers (\<open>src/provider/mod.rs\<close>, \<open>validate.rs\<close>,
  \<open>capture.rs\<close>): validation and dispatch of the provider name, the environment diff an
  activation produced, the store grants read from its \<open>PATH\<close>, and the fingerprint that
  detects a changed environment definition.  Running a provider is a parameter.
\<close>

section \<open>Model: names and errors\<close>

datatype provider_error =
    OutOfScope string string
  | VersionManager string string
  | NotYetSupported string string
  | Unknown string
  | MissingBinary string string
  | NoEnvironment string string
  | MissingLock string string
  | ResolutionFailed string

definition OUT_OF_SCOPE_REASON :: string where
  "OUT_OF_SCOPE_REASON = ''devcroft has no non-reproducible mode; every sandbox is backed by a declarative environment. Run `flox init`, not a degraded mode.''"

definition OUT_OF_SCOPE :: "string list" where
  "OUT_OF_SCOPE = [''host'', ''none'']"

text \<open>The section sign of the message is its UTF-8 encoding, \<open>C2 A7\<close>.\<close>

definition VERSION_MANAGER_REASON :: string where
  "VERSION_MANAGER_REASON = ''version managers install imperatively and cannot guarantee a restorable lockfile, a complete build environment, and preconditions verifiable at `up`; see docs/decisions.md '' @ [CHR 0xC2, CHR 0xA7] @ ''1''"

definition VERSION_MANAGERS :: "string list" where
  "VERSION_MANAGERS =
     [''rustup'', ''nvm'', ''pyenv'', ''rbenv'', ''sdkman'', ''ghcup'', ''asdf'', ''proto'']"

definition SUPPORTED :: "string list" where
  "SUPPORTED = [''flox'', ''nix'', ''flake'', ''flakes'', ''devbox'']"

definition NOT_YET_SUPPORTED :: "(string \<times> string) list" where
  "NOT_YET_SUPPORTED =
     [(''mise'', ''mise is a qualified provider (artifact tier) but not yet scheduled''),
      (''devenv'', ''devenv is a qualified provider (closure tier) but not yet scheduled''),
      (''pixi'', ''pixi is a qualified provider (artifact tier) but not yet scheduled''),
      (''hermit'', ''hermit is a qualified provider (artifact tier) but not yet scheduled'')]"

definition validate_provider :: "string \<Rightarrow> provider_error + unit" where
  "validate_provider name =
     (if List.member SUPPORTED name then Inr ()
      else if List.member OUT_OF_SCOPE name then Inl (OutOfScope name OUT_OF_SCOPE_REASON)
      else if List.member VERSION_MANAGERS name
        then Inl (VersionManager name VERSION_MANAGER_REASON)
      else case find (\<lambda>(n, _). n = name) NOT_YET_SUPPORTED of
          Some (_, reason) \<Rightarrow> Inl (NotYetSupported name reason)
        | None \<Rightarrow> Inl (Unknown name))"

definition normalize_provider_name :: "string \<Rightarrow> string" where
  "normalize_provider_name name = (if name = ''flake'' \<or> name = ''flakes'' then ''nix'' else name)"

datatype provider_kind = Flox | Nix | Devbox

definition from_name :: "string \<Rightarrow> provider_error + provider_kind" where
  "from_name name =
     (if name = ''flox'' then Inr Flox
      else if name = ''nix'' then Inr Nix
      else if name = ''devbox'' then Inr Devbox
      else Inl (Unknown name))"

fun static_name :: "provider_kind \<Rightarrow> string" where
  "static_name Flox = ''flox''"
| "static_name Nix = ''nix''"
| "static_name Devbox = ''devbox''"

section \<open>Model: resolutions and services\<close>

record service_decl =
  sd_name :: string
  sd_command :: string
  sd_vars :: "(string, string) btmap"
  sd_is_daemon :: bool
  sd_shutdown_command :: "string option"

datatype service_support = Unsupported | Declared "service_decl list"

fun declared :: "service_support \<Rightarrow> service_decl list" where
  "declared Unsupported = []"
| "declared (Declared v) = v"

record resolution =
  res_env :: "(string, string) btmap"
  res_unset :: "string list"
  res_read_only_grants :: "string list"
  res_activation_script :: "string option"
  res_services :: service_support
  res_ran_activation_hook :: bool

section \<open>Model: capturing an activation\<close>

text \<open>A finished process: its status as text if it failed, its output, its standard error.\<close>

record process_output =
  po_failed :: "string option"
  po_stdout :: string
  po_stderr :: string

definition DEFAULT_STORE_ROOT :: string where
  "DEFAULT_STORE_ROOT = ''/nix/store''"

definition CANONICAL_PATH :: string where
  "CANONICAL_PATH = ''/usr/local/sbin:/usr/local/bin:/usr/sbin:/usr/bin:/sbin:/bin''"

definition canonical_base_env :: "string option \<Rightarrow> provider_error + (string, string) btmap" where
  "canonical_base_env env_home =
     rbind (ok_or (ResolutionFailed ''HOME is not set; provider activation needs it'') env_home)
       (\<lambda>home. Inr (bt_extend [] [(''HOME'', home), (''PATH'', CANONICAL_PATH)]))"

text \<open>\<open>lossy\<close> is \<open>String::from_utf8_lossy\<close>; collecting keeps the last value of a key.\<close>

definition parse_env_dump :: "(string \<Rightarrow> string) \<Rightarrow> string \<Rightarrow> (string, string) btmap" where
  "parse_env_dump lossy raw =
     bt_extend []
       (List.map_filter (split_once CHR ''='')
          (filter (\<lambda>entry. entry \<noteq> []) (split_on (CHR 0x00) (lossy raw))))"

definition changed_env ::
  "(string, string) btmap \<Rightarrow> (string, string) btmap \<Rightarrow> (string, string) btmap" where
  "changed_env baseline activated = filter (\<lambda>(k, v). bt_get baseline k \<noteq> Some v) activated"

definition unset_env :: "(string, string) btmap \<Rightarrow> (string, string) btmap \<Rightarrow> string list" where
  "unset_env baseline activated = filter (\<lambda>k. \<not> bt_contains activated k) (map fst baseline)"

text \<open>\<open>str::find(&str)\<close>: the first index at which the needle occurs.\<close>

fun find_sub :: "'a list \<Rightarrow> 'a list \<Rightarrow> nat option" where
  "find_sub needle [] = (if needle = [] then Some 0 else None)"
| "find_sub needle (c # cs) =
     (if starts_with needle (c # cs) then Some 0 else map_option Suc (find_sub needle cs))"

fun store_entry :: "string list \<Rightarrow> string list" where
  "store_entry [] = [DEFAULT_STORE_ROOT]"
| "store_entry (entry # entries) =
     (case find_sub DEFAULT_STORE_ROOT entry of
        Some idx \<Rightarrow> [take (idx + length DEFAULT_STORE_ROOT) entry]
      | None \<Rightarrow> store_entry entries)"

definition store_grants :: "(string, string) btmap \<Rightarrow> string list" where
  "store_grants activated =
     store_entry
       (split_on CHR '':'' (case bt_get activated ''PATH'' of None \<Rightarrow> [] | Some p \<Rightarrow> p))"

section \<open>Model: fingerprints\<close>

type_synonym bytes = "8 word list"

definition FNV_OFFSET :: "64 word" where
  "FNV_OFFSET = 0xcbf29ce484222325"

definition FNV_PRIME :: "64 word" where
  "FNV_PRIME = 0x100000001b3"

text \<open>One round of the loop body: \<open>hash ^= byte; hash = hash.wrapping_mul(FNV_PRIME)\<close>.\<close>

definition fnv_round :: "64 word \<Rightarrow> 8 word \<Rightarrow> 64 word" where
  "fnv_round hash b = (hash XOR ucast b) * FNV_PRIME"

definition fnv_part :: "64 word \<Rightarrow> bytes \<Rightarrow> 64 word" where
  "fnv_part hash part = fnv_round (foldl fnv_round hash part) 0xff"

definition fnv_hash :: "bytes list \<Rightarrow> 64 word" where
  "fnv_hash parts = foldl fnv_part FNV_OFFSET parts"

definition hex_digit :: "nat \<Rightarrow> char" where
  "hex_digit d = (if d < 10 then char_of (48 + d) else char_of (87 + d))"

text \<open>The \<open>{hash:016x}\<close> format: sixteen digits, most significant first.\<close>

fun hex_digits :: "nat \<Rightarrow> nat \<Rightarrow> string" where
  "hex_digits 0 n = []"
| "hex_digits (Suc w) n = hex_digits w (n div 16) @ [hex_digit (n mod 16)]"

definition fingerprint :: "bytes list \<Rightarrow> string" where
  "fingerprint parts = hex_digits 16 (unat (fnv_hash parts))"

text \<open>
  The host file system as these functions see it; a failed read carries the system's
  error text.
\<close>

record host_fs =
  hf_is_file :: "string \<Rightarrow> bool"
  hf_is_dir :: "string \<Rightarrow> bool"
  hf_read :: "string \<Rightarrow> string + bytes"

definition optional_file_part :: "host_fs \<Rightarrow> string \<Rightarrow> bytes" where
  "optional_file_part fs path =
     (case hf_read fs path of
        Inr bytes \<Rightarrow> 80 # bytes  \<comment> \<open>\<open>b'P'\<close>\<close>
      | Inl _ \<Rightarrow> [65])"  \<comment> \<open>\<open>b'A'\<close>\<close>

definition ensure_environment_present :: "host_fs \<Rightarrow> string \<Rightarrow> provider_error + unit" where
  "ensure_environment_present fs project_root =
     (if hf_is_dir fs (path_join project_root ''.flox'') then Inr ()
      else Inl (NoEnvironment ''flox'' ''flox init''))"

definition ensure_flake_present :: "host_fs \<Rightarrow> string \<Rightarrow> provider_error + unit" where
  "ensure_flake_present fs project_root =
     (if hf_is_file fs (path_join project_root ''flake.nix'') then Inr ()
      else Inl (NoEnvironment ''nix'' ''nix flake init''))"

definition ensure_lock_present :: "host_fs \<Rightarrow> string \<Rightarrow> provider_error + unit" where
  "ensure_lock_present fs project_root =
     (if hf_is_file fs (path_join project_root ''flake.lock'') then Inr ()
      else Inl (MissingLock ''nix'' ''nix flake lock''))"

definition ensure_project_present :: "host_fs \<Rightarrow> string \<Rightarrow> provider_error + unit" where
  "ensure_project_present fs project_root =
     (if hf_is_file fs (path_join project_root ''devbox.json'') then Inr ()
      else Inl (NoEnvironment ''devbox'' ''devbox init''))"

definition read_definition :: "host_fs \<Rightarrow> string \<Rightarrow> provider_error + bytes" where
  "read_definition fs path =
     map_err (\<lambda>e. ResolutionFailed (''reading '' @ path @ '': '' @ e)) (hf_read fs path)"

definition flox_manifest_fingerprint :: "host_fs \<Rightarrow> string \<Rightarrow> provider_error + string" where
  "flox_manifest_fingerprint fs project_root =
     rbind (ensure_environment_present fs project_root) (\<lambda>_.
     rbind (read_definition fs (path_join project_root ''.flox/env/manifest.toml'')) (\<lambda>manifest.
     let lock = optional_file_part fs (path_join project_root ''.flox/env/manifest.lock'')
     in Inr (fingerprint [manifest, lock])))"

definition flake_fingerprint :: "host_fs \<Rightarrow> string \<Rightarrow> provider_error + string" where
  "flake_fingerprint fs project_root =
     rbind (ensure_flake_present fs project_root) (\<lambda>_.
     rbind (read_definition fs (path_join project_root ''flake.nix'')) (\<lambda>flake.
     let lock = optional_file_part fs (path_join project_root ''flake.lock'')
     in Inr (fingerprint [flake, lock])))"

definition devbox_fingerprint :: "host_fs \<Rightarrow> string \<Rightarrow> provider_error + string" where
  "devbox_fingerprint fs project_root =
     rbind (ensure_project_present fs project_root) (\<lambda>_.
     rbind (read_definition fs (path_join project_root ''devbox.json'')) (\<lambda>json.
     let lock = optional_file_part fs (path_join project_root ''devbox.lock'')
     in Inr (fingerprint [json, lock])))"

definition manifest_fingerprint :: "host_fs \<Rightarrow> string \<Rightarrow> string \<Rightarrow> provider_error + string" where
  "manifest_fingerprint fs provider project_root =
     rbind (from_name provider) (\<lambda>kind.
       case kind of
         Flox \<Rightarrow> flox_manifest_fingerprint fs project_root
       | Nix \<Rightarrow> flake_fingerprint fs project_root
       | Devbox \<Rightarrow> devbox_fingerprint fs project_root)"

definition is_stale :: "host_fs \<Rightarrow> string \<Rightarrow> string \<Rightarrow> string \<Rightarrow> provider_error + bool" where
  "is_stale fs provider project_root recorded =
     rbind (manifest_fingerprint fs provider project_root) (\<lambda>current. Inr (current \<noteq> recorded))"

section \<open>Lemmas: names\<close>

lemma SUPPORTED_set: "List.member SUPPORTED name \<longleftrightarrow> name \<in> {''flox'', ''nix'', ''flake'', ''flakes'', ''devbox''}"
  by (simp add: SUPPORTED_def)

lemma validate_provider_Ok_iff:
  "validate_provider name = Inr () \<longleftrightarrow> List.member SUPPORTED name"
  unfolding validate_provider_def by (auto split: option.splits if_splits)

text \<open>A validated and normalised name always dispatches, and its tag is the name itself.\<close>

lemma validated_name_dispatches:
  assumes "validate_provider name = Inr ()"
  shows "\<exists>kind. from_name (normalize_provider_name name) = Inr kind \<and>
    static_name kind = normalize_provider_name name"
proof -
  have "name \<in> {''flox'', ''nix'', ''flake'', ''flakes'', ''devbox''}"
    using assms by (simp only: validate_provider_Ok_iff SUPPORTED_set)
  then show ?thesis
    by (auto simp: normalize_provider_name_def from_name_def)
qed

lemma from_name_static_name [simp]: "from_name (static_name kind) = Inr kind"
  by (cases kind) (simp_all add: from_name_def)

section \<open>Lemmas: the environment diff\<close>

lemma changed_env_wf: "bt_wf activated \<Longrightarrow> bt_wf (changed_env baseline activated)"
  by (simp add: changed_env_def bt_filter_wf)

lemma bt_get_changed_env:
  "bt_wf activated \<Longrightarrow> bt_get (changed_env baseline activated) k =
     (case bt_get activated k of
        None \<Rightarrow> None
      | Some v \<Rightarrow> if bt_get baseline k \<noteq> Some v then Some v else None)"
  by (simp add: changed_env_def bt_get_filter split: option.splits)

lemma set_unset_env: "set (unset_env baseline activated) = fst ` set baseline - fst ` set activated"
  by (auto simp: unset_env_def bt_contains_iff)

lemma map_of_rev_distinct: "distinct (map fst m) \<Longrightarrow> map_of (rev m) = map_of m"
  by (rule map_of_inject_set [THEN iffD2]) (simp_all add: rev_map [symmetric])

text \<open>
  C38: overlaying the captured changes on the baseline and removing the captured unset keys
  yields exactly the environment the provider activated: nothing of the activation is lost
  and nothing of the baseline leaks through.
\<close>

theorem env_diff_reconstructs:
  assumes "bt_wf baseline" and "bt_wf activated"
  shows "bt_get (bt_extend baseline (changed_env baseline activated))
           |` (- set (unset_env baseline activated)) = bt_get activated"
proof
  fix k
  have "map_of (rev (changed_env baseline activated)) = bt_get (changed_env baseline activated)"
    using assms(2) by (intro map_of_rev_distinct bt_wf_distinct changed_env_wf)
  then have ext: "bt_get (bt_extend baseline (changed_env baseline activated)) =
      bt_get baseline ++ bt_get (changed_env baseline activated)"
    using assms(1) by (simp add: bt_get_extend)
  show "(bt_get (bt_extend baseline (changed_env baseline activated))
           |` (- set (unset_env baseline activated))) k = bt_get activated k"
  proof (cases "bt_get activated k")
    case None
    then have "k \<notin> fst ` set activated" by (simp add: map_of_eq_None_iff)
    moreover have "bt_get baseline k = None" if "k \<notin> set (unset_env baseline activated)"
      using that calculation by (simp add: set_unset_env map_of_eq_None_iff)
    ultimately show ?thesis
      using None assms(2) ext
      by (auto simp: restrict_map_def bt_get_changed_env map_add_def simp del: map_of_eq_None_iff)
  next
    case (Some v)
    then have "k \<in> fst ` set activated"
      by (metis image_eqI fst_conv map_of_SomeD)
    then have "k \<notin> set (unset_env baseline activated)" by (simp add: set_unset_env)
    then show ?thesis
      using Some assms(2) ext by (simp add: restrict_map_def bt_get_changed_env map_add_def)
  qed
qed

theorem env_diff_reconstructs_witness:
  "bt_get (bt_extend [(''HOME'', ''/h''), (''PATH'', ''/bin'')]
       (changed_env [(''HOME'', ''/h''), (''PATH'', ''/bin'')] [(''PATH'', ''/nix/store/x/bin'')]))
     |` (- set (unset_env [(''HOME'', ''/h''), (''PATH'', ''/bin'')] [(''PATH'', ''/nix/store/x/bin'')])) =
   bt_get [(''PATH'', ''/nix/store/x/bin'')]"
proof (rule env_diff_reconstructs)
  show "bt_wf [(''HOME'', ''/h''), (''PATH'', ''/bin'')]" by code_simp
  show "bt_wf [(''PATH'', ''/nix/store/x/bin'')]" by code_simp
qed

section \<open>Lemmas: fingerprints\<close>

text \<open>
  Multiplication by the odd FNV prime is invertible modulo \<open>2^64\<close>, so a round is injective
  in the state and in the byte.
\<close>

lemma FNV_PRIME_inverse: "FNV_PRIME * 0xce965057aff6957b = 1"
  by (simp add: FNV_PRIME_def)

lemma fnv_mult_inj: "x * FNV_PRIME = y * FNV_PRIME \<longleftrightarrow> x = y"
proof
  assume "x * FNV_PRIME = y * FNV_PRIME"
  then have "x * FNV_PRIME * 0xce965057aff6957b = y * FNV_PRIME * 0xce965057aff6957b"
    by (rule arg_cong)
  then show "x = y" by (simp only: mult.assoc FNV_PRIME_inverse mult.right_neutral)
qed simp

lemma xor_cancel_right: "a XOR c = b XOR c \<longleftrightarrow> a = b" for a b c :: "64 word"
proof
  assume "a XOR c = b XOR c"
  then have "(a XOR c) XOR c = (b XOR c) XOR c" by (rule arg_cong)
  then show "a = b" by (simp only: xor.assoc xor_self_eq xor.right_neutral)
qed simp

lemma xor_cancel_left: "c XOR a = c XOR b \<longleftrightarrow> a = b" for a b c :: "64 word"
  by (simp only: xor.commute [of c] xor_cancel_right)

lemma ucast_byte_inj: "(ucast b :: 64 word) = ucast b' \<longleftrightarrow> b = b'" for b b' :: "8 word"
proof
  assume "(ucast b :: 64 word) = ucast b'"
  then have "unat (ucast b :: 64 word) = unat (ucast b' :: 64 word)" by simp
  moreover have "unat (ucast w :: 64 word) = unat w" for w :: "8 word"
    using unsigned_less [of w, where 'a = nat]
    by (simp add: unsigned_ucast_eq take_bit_nat_eq_self_iff)
  ultimately show "b = b'" by (simp add: word_unat_eq_iff)
qed simp

lemma fnv_round_state_inj: "fnv_round h b = fnv_round h' b \<longleftrightarrow> h = h'"
  by (simp add: fnv_round_def fnv_mult_inj xor_cancel_right)

lemma fnv_round_byte_inj: "fnv_round h b = fnv_round h b' \<longleftrightarrow> b = b'"
  by (simp add: fnv_round_def fnv_mult_inj xor_cancel_left ucast_byte_inj)

lemma foldl_fnv_round_state_inj: "foldl fnv_round h bs = foldl fnv_round h' bs \<longleftrightarrow> h = h'"
  by (induction bs arbitrary: h h') (simp_all add: fnv_round_state_inj)

text \<open>The bytes hashed for a list of parts: each part closed by a \<open>0xff\<close> separator.\<close>

definition part_stream :: "bytes list \<Rightarrow> bytes" where
  "part_stream parts = concat (map (\<lambda>p. p @ [0xff]) parts)"

lemma fnv_hash_stream: "fnv_hash parts = foldl fnv_round FNV_OFFSET (part_stream parts)"
proof -
  have "foldl fnv_part h parts = foldl fnv_round h (part_stream parts)" for h
    by (induction parts arbitrary: h) (simp_all add: fnv_part_def part_stream_def)
  then show ?thesis by (simp add: fnv_hash_def)
qed

lemma single_byte_change_differs:
  "b \<noteq> b' \<Longrightarrow> foldl fnv_round h (pre @ b # post) \<noteq> foldl fnv_round h (pre @ b' # post)"
  by (simp add: foldl_fnv_round_state_inj fnv_round_byte_inj)

lemma byte_hex_digit: "n < 16 \<Longrightarrow> byte (hex_digit n) = (if n < 10 then 48 + n else 87 + n)"
  unfolding hex_digit_def by (cases "n < 10") (simp_all add: of_char_of take_bit_eq_mod)

lemma hex_digit_inj:
  assumes "d < 16" and "e < 16" and "hex_digit d = hex_digit e"
  shows "d = e"
proof -
  have "(if d < 10 then 48 + d else 87 + d) = (if e < 10 then 48 + e else 87 + e)"
    using assms byte_hex_digit by metis
  then show ?thesis by (auto split: if_splits)
qed

lemma hex_digits_inj:
  "m < 16 ^ w \<Longrightarrow> n < 16 ^ w \<Longrightarrow> hex_digits w m = hex_digits w n \<Longrightarrow> m = n"
proof (induction w arbitrary: m n)
  case 0
  then show ?case by simp
next
  case (Suc w)
  then have "m div 16 = n div 16"
    by (intro Suc.IH) (simp_all add: less_mult_imp_div_less mult.commute)
  moreover have "m mod 16 = n mod 16"
    using Suc.prems by (intro hex_digit_inj) simp_all
  ultimately show ?case by (metis div_mult_mod_eq)
qed

lemma fingerprint_eq_iff: "fingerprint ps = fingerprint qs \<longleftrightarrow> fnv_hash ps = fnv_hash qs"
proof
  assume "fingerprint ps = fingerprint qs"
  then have "unat (fnv_hash ps) = unat (fnv_hash qs)"
    unfolding fingerprint_def
    using unsigned_less [of "fnv_hash ps", where 'a = nat]
      unsigned_less [of "fnv_hash qs", where 'a = nat]
    by (intro hex_digits_inj [where w = 16]) simp_all
  then show "fnv_hash ps = fnv_hash qs" by (simp add: word_unat_eq_iff)
qed (simp add: fingerprint_def)

text \<open>
  The fingerprint of an environment definition changes whenever exactly one byte of one
  of the hashed files changes, whatever its position and whatever the other files hold.
\<close>

theorem fingerprint_detects_byte_change:
  assumes "b \<noteq> b'"
  shows "fingerprint (ps @ (pre @ b # post) # qs) \<noteq> fingerprint (ps @ (pre @ b' # post) # qs)"
proof -
  have "part_stream (ps @ (pre @ c # post) # qs) =
      (part_stream ps @ pre) @ c # (post @ 0xff # part_stream qs)" for c
    by (simp add: part_stream_def)
  then show ?thesis
    unfolding fingerprint_eq_iff fnv_hash_stream
    using single_byte_change_differs [OF assms] by metis
qed

theorem fingerprint_detects_byte_change_witness:
  "fingerprint ([] @ ([118] @ 1 # [10]) # [[65]]) \<noteq> fingerprint ([] @ ([118] @ 2 # [10]) # [[65]])"
  by (rule fingerprint_detects_byte_change) simp

lemma single_byte_change_fails_separator: "part_stream [[0xff], []] = part_stream [[], [0xff]]"
  by (simp add: part_stream_def)

lemma part_stream_inj:
  assumes "length ps = length qs"
    and "\<forall>p \<in> set ps. 0xff \<notin> set p" and "\<forall>q \<in> set qs. 0xff \<notin> set q"
    and "part_stream ps = part_stream qs"
  shows "ps = qs"
  using assms
proof (induction ps qs rule: list_induct2)
  case Nil
  then show ?case by simp
next
  case (Cons p ps q qs)
  have eq: "p @ 0xff # part_stream ps = q @ 0xff # part_stream qs"
    using Cons.prems by (simp add: part_stream_def)
  have "p = takeWhile (\<lambda>b. b \<noteq> 0xff) (p @ 0xff # part_stream ps)"
    using Cons.prems by (subst takeWhile_append2) auto
  also have "\<dots> = takeWhile (\<lambda>b. b \<noteq> 0xff) (q @ 0xff # part_stream qs)"
    by (simp only: eq)
  also have "\<dots> = q"
    using Cons.prems by (subst takeWhile_append2) auto
  finally have "p = q" .
  then show ?case using eq Cons by simp
qed

text \<open>
  The separator of the fingerprint keeps the hashed byte streams of different part lists
  apart as long as no part contains the byte \<open>0xff\<close> (so on every UTF-8 text), and only
  then: two binary part lists have the same fingerprint.
\<close>

theorem fingerprint_separator:
  "(length ps = length qs \<longrightarrow> (\<forall>p \<in> set ps \<union> set qs. 0xff \<notin> set p) \<longrightarrow>
      part_stream ps = part_stream qs \<longrightarrow> ps = qs)
   \<and> fingerprint [[0xff], []] = fingerprint [[], [0xff]]"
  using part_stream_inj [of ps qs] single_byte_change_fails_separator
  by (auto simp: fingerprint_eq_iff fnv_hash_stream)

theorem fingerprint_separator_witness:
  "[[97, 98], [99 :: 8 word]] \<noteq> [[97], [98, 99]] \<and> part_stream [[97, 98], [99]] \<noteq> part_stream [[97], [98, 99]]"
  using fingerprint_separator [of "[[97, 98], [99]]" "[[97], [98, 99]]"] by auto

section \<open>Lemmas: staleness\<close>

lemma is_stale_iff:
  "is_stale fs provider root recorded = Inr stale \<longleftrightarrow>
     (\<exists>current. manifest_fingerprint fs provider root = Inr current \<and> stale = (current \<noteq> recorded))"
  by (auto simp: is_stale_def result_simps)

end
