(* ===== verification/HttpRequest.thy ===== *)
theory HttpRequest
  imports Utf8
begin

text \<open>
  How the egress proxy reads one request (\<open>src/proxy/server.rs\<close>): lines of a bounded total length from
  a buffered socket, the request line, the two headers it looks at, and the host and port it is
  asked to connect to. A socket is the list of what its successive reads return; a text is the
  message of an \<open>io::Error\<close>.
\<close>

section \<open>The buffered reader\<close>

text \<open>The bytes already buffered, and what the following reads of the socket return.\<close>

type_synonym reader = "string \<times> string list"

definition stream :: "reader \<Rightarrow> string" where
  "stream rd = fst rd @ concat (snd rd)"

text \<open>\<open>BufRead::read_line\<close> on \<open>Take\<close>: up to and with the next newline, or the limit, or the end.\<close>

function read_until :: "nat \<Rightarrow> reader \<Rightarrow> string \<times> reader" where
  "read_until limit (buf, chunks) =
     (if limit = 0 then ([], (buf, chunks))
      else if buf = [] then (case chunks of [] \<Rightarrow> ([], ([], [])) | c # cs \<Rightarrow> read_until limit (c, cs))
      else let avail = take limit buf in (case split_once newline avail of
          Some (line, _) \<Rightarrow> (line @ [newline], (drop (Suc (length line)) buf, chunks))
        | None \<Rightarrow> (case read_until (limit - length avail) (drop (length avail) buf, chunks) of
            (rest, rd) \<Rightarrow> (avail @ rest, rd))))"
  by pat_completeness auto
termination
  by (relation "measure (\<lambda>(limit, buf, chunks). length buf + sum_list (map (Suc \<circ> length) chunks))") auto

declare read_until.simps [simp del]

definition read_capped_line :: "nat \<Rightarrow> reader \<Rightarrow> string + (string \<times> reader \<times> nat)" where
  "read_capped_line budget rd =
     (if budget = 0 then Inl ''request headers exceed the size limit''
      else case read_until budget rd of (line, rd) \<Rightarrow>
        if \<not> utf8_valid line then Inl ''reading request: stream did not contain valid UTF-8''
        else if length line = budget \<and> \<not> ends_with [newline] line
          then Inl ''request line exceeds the header size limit''
        else Inr (line, rd, budget - length line))"

section \<open>The request\<close>

definition MAX_HEADER_BYTES :: nat where
  "MAX_HEADER_BYTES = 64 * 1024"

record target =
  t_connect :: bool
  t_host :: string
  t_port :: "16 word"
  t_header_bytes :: string
  t_proxy_auth :: "string option"

definition parse_u16 :: "string \<Rightarrow> 16 word option" where
  "parse_u16 s = map_option word_of_nat (parse_unsigned 65535 s)"

definition split_host_port :: "string \<Rightarrow> 16 word \<Rightarrow> string + (string \<times> 16 word)" where
  "split_host_port authority default_port =
     (let bad = ''invalid host:port'' in
      case strip_prefix ''['' authority of
        Some rest \<Rightarrow> (case split_once CHR '']'' rest of
            None \<Rightarrow> Inl bad
          | Some (host, rest) \<Rightarrow> (case strip_prefix '':'' rest of
              Some p \<Rightarrow> rbind (ok_or bad (parse_u16 p)) (\<lambda>port. Inr (host, port))
            | None \<Rightarrow> Inr (host, default_port)))
      | None \<Rightarrow> (case rsplit_once CHR '':'' authority of
            Some (host, port) \<Rightarrow>
              if host \<noteq> [] then rbind (ok_or bad (parse_u16 port)) (\<lambda>port. Inr (host, port))
              else Inr (authority, default_port)
          | None \<Rightarrow> Inr (authority, default_port)))"

text \<open>What a header line does to the two headers of interest; the last occurrence counts.\<close>

definition note_header :: "string \<Rightarrow> string option \<times> string option \<Rightarrow> string option \<times> string option" where
  "note_header line hs = (case (split_once CHR '':'' line, hs) of
      (None, _) \<Rightarrow> hs
    | (Some (name, val), (host_header, proxy_auth)) \<Rightarrow>
        if eq_ignore_ascii_case (str_trim name) ''host'' then (Some (str_trim val), proxy_auth)
        else if eq_ignore_ascii_case (str_trim name) ''proxy-authorization''
          then (host_header, Some (str_trim val))
        else hs)"

text \<open>The header loop; it ends at an empty line or at the end of the stream.\<close>

function read_headers ::
  "nat \<Rightarrow> reader \<Rightarrow> string \<Rightarrow> string option \<times> string option \<Rightarrow>
     string + (string \<times> (string option \<times> string option) \<times> reader)" where
  "read_headers budget rd header_bytes hs = (case read_capped_line budget rd of
      Inl e \<Rightarrow> Inl e
    | Inr (line, rd, budget') \<Rightarrow>
        if line = [] \<or> str_trim_end line = [] then Inr (header_bytes @ line, hs, rd)
        else read_headers budget' rd (header_bytes @ line) (note_header line hs))"
  by pat_completeness auto
termination
  by (relation "measure fst") (auto simp: read_capped_line_def split: if_splits prod.splits)

declare read_headers.simps [simp del]

definition authority_of :: "string \<Rightarrow> string option \<Rightarrow> string + string" where
  "authority_of target_str host_header =
     (let uri = (case strip_prefix ''http://'' target_str of
            Some rest \<Rightarrow> Some rest | None \<Rightarrow> strip_prefix ''https://'' target_str)
      in case uri of
        Some rest \<Rightarrow> Inr (takeWhile (\<lambda>c. c \<noteq> CHR ''/'' \<and> c \<noteq> CHR ''?'') rest)
      | None \<Rightarrow> ok_or ''origin-form request with no Host header'' host_header)"

definition target_of ::
  "string \<Rightarrow> string \<Rightarrow> string \<Rightarrow> string option \<times> string option \<Rightarrow> string + target" where
  "target_of verb target_str header_bytes hs =
     (if eq_ignore_ascii_case verb ''CONNECT'' then
        rbind (split_host_port target_str 443) (\<lambda>(host, port).
        Inr \<lparr>t_connect = True, t_host = host, t_port = port, t_header_bytes = header_bytes,
             t_proxy_auth = snd hs\<rparr>)
      else
        rbind (authority_of target_str (fst hs)) (\<lambda>authority.
        rbind (split_host_port authority 80) (\<lambda>(host, port).
        Inr \<lparr>t_connect = False, t_host = host, t_port = port, t_header_bytes = header_bytes,
             t_proxy_auth = snd hs\<rparr>)))"

definition read_target :: "string list \<Rightarrow> string + (target option \<times> reader)" where
  "read_target chunks =
     rbind (read_capped_line MAX_HEADER_BYTES ([], chunks)) (\<lambda>(request_line, rd, budget).
       if request_line = [] then Inr (None, rd)
       else (case split_on CHR '' '' (str_trim_end request_line) of
           verb # target_str # _ \<Rightarrow>
             rbind (read_headers budget rd request_line (None, None)) (\<lambda>(header_bytes, hs, rd).
             rbind (target_of verb target_str header_bytes hs) (\<lambda>t. Inr (Some t, rd)))
         | _ \<Rightarrow> Inl ''missing request target''))"

section \<open>Lemmas: lines\<close>

definition line_of :: "string \<Rightarrow> string" where
  "line_of s = (case split_once newline s of Some (line, _) \<Rightarrow> line @ [newline] | None \<Rightarrow> s)"

lemma line_of_prefix: "prefix (line_of s) s"
  by (auto simp: line_of_def split_once_Some prefix_def split: option.splits)

lemma line_of_Nil_iff [simp]: "line_of s = [] \<longleftrightarrow> s = []"
  by (auto simp: line_of_def split_once_def split: option.splits)

lemma line_of_newline: "newline \<notin> set a \<Longrightarrow> line_of (a @ newline # b) = a @ [newline]"
  by (simp add: line_of_def split_once_def takeWhile_first dropWhile_first)

lemma line_of_append: "newline \<notin> set a \<Longrightarrow> line_of (a @ s) = a @ line_of s"
  by (induction a) (auto simp: line_of_def split_once_def)

lemma read_until_line:
  "fst (read_until limit rd) = line_of (take limit (stream rd))
   \<and> stream rd = fst (read_until limit rd) @ stream (snd (read_until limit rd))"
proof (induction limit rd rule: read_until.induct)
  case (1 limit buf chunks)
  show ?case
  proof (cases "limit = 0 \<or> buf = []")
    case True
    then show ?thesis
      using 1(1) by (cases chunks) (auto simp: read_until.simps [of limit buf] stream_def line_of_def split_once_def)
  next
    case False
    let ?avail = "take limit buf"
    show ?thesis
    proof (cases "split_once newline ?avail")
      case (Some p)
      then obtain line rest where p: "?avail = line @ newline # rest" "newline \<notin> set line"
        and eq: "split_once newline ?avail = Some (line, rest)"
        by (cases p) (auto simp: split_once_Some)
      have "buf = line @ newline # rest @ drop limit buf"
        by (metis append_Cons append_assoc append_take_drop_id p(1))
      then have buf: "buf = (line @ [newline]) @ drop (Suc (length line)) buf"
        by (metis append.assoc append_Cons append_Nil append_eq_conv_conj length_append_singleton)
      have "take limit (stream (buf, chunks)) = line @ newline # (rest @ take (limit - length buf) (concat chunks))"
        by (simp add: stream_def p(1))
      then have "line_of (take limit (stream (buf, chunks))) = line @ [newline]"
        using line_of_newline [OF p(2)] by simp
      then show ?thesis
        using False eq buf by (simp add: read_until.simps [of limit buf] stream_def Let_def)
    next
      case None
      then have nl: "newline \<notin> set ?avail" by (simp add: split_once_None)
      obtain rest rd where rest: "read_until (limit - length ?avail) (drop (length ?avail) buf, chunks) = (rest, rd)"
        by (rule prod.exhaust)
      have IH: "rest = line_of (take (limit - length ?avail) (drop (length ?avail) buf @ concat chunks))"
        "drop (length ?avail) buf @ concat chunks = rest @ stream rd"
        using 1(2) [OF _ _ refl None] False unfolding rest stream_def fst_conv snd_conv by (metis (no_types))+
      have whole: "take limit (buf @ concat chunks) =
          ?avail @ take (limit - length ?avail) (drop (length ?avail) buf @ concat chunks)"
        by (cases "limit \<le> length buf") (simp_all add: min_def)
      note line = line_of_append [OF nl]
      have "line_of (take limit (stream (buf, chunks))) = ?avail @ rest"
        unfolding stream_def fst_conv snd_conv whole line IH(1) [symmetric] ..
      moreover have "stream (buf, chunks) = (?avail @ rest) @ stream rd"
      proof -
        have "buf = ?avail @ drop (length ?avail) buf" by (cases "limit \<le> length buf") (simp_all add: min_def)
        then have "stream (buf, chunks) = ?avail @ (drop (length ?avail) buf @ concat chunks)"
          unfolding stream_def fst_conv snd_conv by (metis append_assoc)
        then show ?thesis unfolding IH(2) by simp
      qed
      moreover have "read_until limit (buf, chunks) = (?avail @ rest, rd)"
        using False None rest by (simp add: read_until.simps [of limit buf] Let_def del: length_take)
      ultimately show ?thesis by simp
    qed
  qed
qed


text \<open>A line read within the budget is a line of the stream, and depends on nothing else.\<close>

lemma read_capped_line_stream:
  assumes "read_capped_line budget rd = Inr (line, rd', budget')"
  shows "stream rd = line @ stream rd'" and "budget' + length line = budget"
    and "line = line_of (take budget (stream rd))" and "utf8_valid line"
proof -
  have eq: "read_until budget rd = (line, rd')" and b: "budget' = budget - length line" and "utf8_valid line"
    using assms by (auto simp: read_capped_line_def split: if_splits prod.splits)
  note spec = read_until_line [of budget rd, unfolded eq fst_conv snd_conv]
  show "stream rd = line @ stream rd'" "line = line_of (take budget (stream rd))"
    using spec by blast+
  have "length line \<le> length (take budget (stream rd))"
    using spec line_of_prefix prefix_length_le by metis
  then show "budget' + length line = budget" using b by simp
  show "utf8_valid line" by fact
qed

lemma read_capped_line_cong:
  assumes "stream rd1 = stream rd2"
  shows "map_sum id (\<lambda>(line, rd, b). (line, stream rd, b)) (read_capped_line budget rd1)
       = map_sum id (\<lambda>(line, rd, b). (line, stream rd, b)) (read_capped_line budget rd2)"
proof -
  obtain l1 r1 where r1: "read_until budget rd1 = (l1, r1)" by (rule prod.exhaust)
  obtain l2 r2 where r2: "read_until budget rd2 = (l2, r2)" by (rule prod.exhaust)
  note r = r1 r2
  note specs = read_until_line [of budget rd1, unfolded r fst_conv snd_conv assms]
    read_until_line [of budget rd2, unfolded r fst_conv snd_conv]
  then have "l1 = l2" by metis
  moreover from this specs have "stream r1 = stream r2" by (metis same_append_eq)
  ultimately show ?thesis by (simp add: read_capped_line_def r)
qed

lemma read_capped_line_case:
  assumes "stream rd1 = stream rd2"
  obtains (fails) e where "read_capped_line budget rd1 = Inl e" "read_capped_line budget rd2 = Inl e"
  | (reads) line r1 r2 b where "read_capped_line budget rd1 = Inr (line, r1, b)"
      "read_capped_line budget rd2 = Inr (line, r2, b)" "stream r1 = stream r2"
  using read_capped_line_cong [OF assms, of budget] that
  by (cases "read_capped_line budget rd1"; cases "read_capped_line budget rd2") auto

section \<open>Lemmas: the request\<close>

lemma read_headers_stream:
  assumes "read_headers budget rd header_bytes hs = Inr (hb, hs', rd')"
  shows "\<exists>block. hb = header_bytes @ block \<and> stream rd = block @ stream rd' \<and> length block \<le> budget"
  using assms
proof (induction budget rd header_bytes hs rule: read_headers.induct)
  case (1 budget rd header_bytes hs)
  obtain line r b where line: "read_capped_line budget rd = Inr (line, r, b)"
    using 1(2) by (subst (asm) read_headers.simps) (auto split: sum.splits prod.splits)
  note l = read_capped_line_stream [OF line]
  show ?case
  proof (cases "line = [] \<or> str_trim_end line = []")
    case True
    then show ?thesis using 1(2) l(1,2) by (subst (asm) read_headers.simps) (auto simp: line)
  next
    case False
    then have "read_headers b r (header_bytes @ line) (note_header line hs) = Inr (hb, hs', rd')"
      using 1(2) by (subst (asm) read_headers.simps) (auto simp: line)
    from 1(1) [OF line refl refl False this] obtain block where
      "hb = (header_bytes @ line) @ block" "stream r = block @ stream rd'" "length block \<le> b" by blast
    then show ?thesis using l(1,2) by (intro exI [of _ "line @ block"]) auto
  qed
qed

lemma read_headers_cong:
  assumes "stream rd1 = stream rd2"
  shows "map_sum id (\<lambda>(hb, hs, rd). (hb, hs, stream rd)) (read_headers budget rd1 header_bytes hs)
       = map_sum id (\<lambda>(hb, hs, rd). (hb, hs, stream rd)) (read_headers budget rd2 header_bytes hs)"
  using assms
proof (induction budget rd1 header_bytes hs arbitrary: rd2 rule: read_headers.induct)
  case (1 budget rd1 header_bytes hs)
  from 1(2) show ?case
  proof (cases rule: read_capped_line_case [of rd1 rd2 budget])
    case (fails e)
    then show ?thesis by (simp add: read_headers.simps [of budget])
  next
    case (reads line r1 r2 b)
    then show ?thesis
      using 1(1) [OF reads(1) refl refl _ reads(3)]
      by (simp add: read_headers.simps [of budget])
  qed
qed

lemma target_of_fields:
  "target_of verb target_str header_bytes hs = Inr t \<Longrightarrow>
     t_header_bytes t = header_bytes \<and> t_proxy_auth t = snd hs"
  by (auto simp: target_of_def result_simps split: if_splits prod.splits)

lemma read_target_SomeE:
  assumes "read_target chunks = Inr (Some t, rd)"
  obtains line r b hs verb target_str where
    "read_capped_line MAX_HEADER_BYTES ([], chunks) = Inr (line, r, b)"
    and "read_headers b r line (None, None) = Inr (t_header_bytes t, hs, rd)"
    and "target_of verb target_str (t_header_bytes t) hs = Inr t"
proof -
  obtain line r b where line: "read_capped_line MAX_HEADER_BYTES ([], chunks) = Inr (line, r, b)"
    and "line \<noteq> []"
    using assms by (auto simp: read_target_def result_simps split: if_splits)
  moreover obtain verb target_str more where
    parts: "split_on CHR '' '' (str_trim_end line) = verb # target_str # more"
    using assms line \<open>line \<noteq> []\<close> by (auto simp: read_target_def split: list.splits)
  moreover obtain hb hs rd' where hs: "read_headers b r line (None, None) = Inr (hb, hs, rd')"
    using assms line \<open>line \<noteq> []\<close> parts by (cases "read_headers b r line (None, None)") (auto simp: read_target_def)
  moreover have "target_of verb target_str hb hs = Inr t" "rd' = rd"
    using assms line \<open>line \<noteq> []\<close> parts hs by (auto simp: read_target_def result_simps)
  moreover from target_of_fields [OF this(1)] have "hb = t_header_bytes t" by simp
  ultimately show ?thesis using that by blast
qed

lemma read_target_stream:
  assumes "read_target chunks = Inr (Some t, rd)"
  shows "concat chunks = t_header_bytes t @ stream rd" and "length (t_header_bytes t) \<le> MAX_HEADER_BYTES"
proof -
  from assms obtain line r b hs where
    line: "read_capped_line MAX_HEADER_BYTES ([], chunks) = Inr (line, r, b)"
    and hs: "read_headers b r line (None, None) = Inr (t_header_bytes t, hs, rd)"
    by (rule read_target_SomeE)
  from read_headers_stream [OF hs] obtain block where
    "t_header_bytes t = line @ block" "stream r = block @ stream rd" "length block \<le> b" by blast
  then show "concat chunks = t_header_bytes t @ stream rd" "length (t_header_bytes t) \<le> MAX_HEADER_BYTES"
    using read_capped_line_stream(1,2) [OF line] by (simp_all add: stream_def)
qed

text \<open>
  What the proxy takes for the request is exactly what it consumes from the socket, and never
  more than 64 KiB: the bytes the client sent are the header bytes that go upstream followed by
  what is left in the buffer and in the socket.
\<close>

theorem read_target_consumes:
  assumes "read_target chunks = Inr (Some t, rd)"
  shows "concat chunks = t_header_bytes t @ stream rd \<and> length (t_header_bytes t) \<le> MAX_HEADER_BYTES"
  using read_target_stream [OF assms] ..

definition crlf :: string where
  "crlf = [CHR 0x0D, newline]"

definition sample_http_request :: "string list" where
  "sample_http_request = [''GET http://a.b:8080/x HTTP/1.1'' @ crlf @ ''Proxy-Auth'',
     ''orization: Basic czo='' @ crlf @ crlf @ ''body'']"

definition sample_target :: target where
  "sample_target = \<lparr>t_connect = False, t_host = ''a.b'', t_port = 8080,
     t_header_bytes = ''GET http://a.b:8080/x HTTP/1.1'' @ crlf @ ''Proxy-Authorization: Basic czo='' @ crlf @ crlf,
     t_proxy_auth = Some ''Basic czo=''\<rparr>"

lemma sample_lines:
  "read_capped_line MAX_HEADER_BYTES ([], sample_http_request) =
     Inr (''GET http://a.b:8080/x HTTP/1.1'' @ crlf, (''Proxy-Auth'', tl sample_http_request), 65504)"
  "read_capped_line 65504 (''Proxy-Auth'', tl sample_http_request) =
     Inr (''Proxy-Authorization: Basic czo='' @ crlf, (crlf @ ''body'', []), 65471)"
  "read_capped_line 65471 (crlf @ ''body'', []) = Inr (crlf, (''body'', []), 65469)"
  by (simp_all add: read_capped_line_def read_until.simps MAX_HEADER_BYTES_def sample_http_request_def crlf_def
      newline_def split_once_def ends_with_def starts_with_def)

lemma sample_target: "read_target sample_http_request = Inr (Some sample_target, (''body'', []))"
proof -
  have "str_trim_end (''GET http://a.b:8080/x HTTP/1.1'' @ crlf) = ''GET http://a.b:8080/x HTTP/1.1''"
    "str_trim_end crlf = []" "str_trim_end (''Proxy-Authorization: Basic czo='' @ crlf) \<noteq> []"
    "note_header (''Proxy-Authorization: Basic czo='' @ crlf) (None, None) = (None, Some ''Basic czo='')"
    "split_on CHR '' '' ''GET http://a.b:8080/x HTTP/1.1'' = [''GET'', ''http://a.b:8080/x'', ''HTTP/1.1'']"
    by code_simp+
  moreover have "target_of ''GET'' ''http://a.b:8080/x'' (t_header_bytes sample_target) (None, Some ''Basic czo='') =
      Inr sample_target"
    by (simp add: target_of_def authority_of_def split_host_port_def parse_u16_def parse_unsigned_def
        rsplit_once_def split_once_def eq_ignore_ascii_case_def to_ascii_lowercase_def is_ascii_uppercase_def
        is_ascii_digit_def sample_target_def)
  ultimately show ?thesis
    by (simp add: read_target_def sample_lines read_headers.simps sample_target_def)
qed

theorem read_target_consumes_witness:
  "concat sample_http_request = t_header_bytes sample_target @ ''body''"
  using read_target_consumes [OF sample_target] by (simp add: stream_def)

text \<open>
  How the bytes of a request arrive does not matter: two sockets that deliver the same bytes in
  different pieces are read as the same request, or refused for the same reason.
\<close>

theorem read_target_chunking:
  assumes "concat chunks1 = concat chunks2"
  shows "map_sum id (\<lambda>(t, rd). (t, stream rd)) (read_target chunks1)
       = map_sum id (\<lambda>(t, rd). (t, stream rd)) (read_target chunks2)"
proof -
  have "stream ([], chunks1) = stream ([], chunks2)" using assms by (simp add: stream_def)
  then show ?thesis
  proof (cases rule: read_capped_line_case [of "([], chunks1)" "([], chunks2)" MAX_HEADER_BYTES])
    case (fails e)
    then show ?thesis by (simp add: read_target_def)
  next
    case (reads line r1 r2 b)
    show ?thesis
    proof (cases "split_on CHR '' '' (str_trim_end line)")
      case (Cons verb more)
      then show ?thesis
        using reads read_headers_cong [OF reads(3), of b line "(None, None)"]
        by (cases more; cases "read_headers b r1 line (None, None)"; cases "read_headers b r2 line (None, None)")
           (auto simp: read_target_def rbind_def split: sum.splits)
    qed (use reads in \<open>simp add: read_target_def\<close>)
  qed
qed


end
