(* ===== verification/Proxy.thy ===== *)
theory Proxy
  imports Provider HttpRequest
begin

unbundle bit_operations_syntax

text \<open>
  The decision of the egress proxy on one connection (\<open>src/proxy/server.rs\<close>): the credential, the
  host filter, the dialling, the refusals, and what is relayed. A connection is the list of its
  effects in order. The base64 decoder, the name resolution, the host filter of the sandboxing
  library and the network are parameters; once the streams are spliced the proxy only copies
  bytes.
\<close>

section \<open>The credential\<close>

definition byte_word :: "char \<Rightarrow> 8 word" where
  "byte_word c = word_of_nat (byte c)"

definition constant_time_eq :: "string \<Rightarrow> string \<Rightarrow> bool" where
  "constant_time_eq a b =
     (if length a \<noteq> length b then False
      else foldl (\<lambda>acc (x, y). acc OR (byte_word x XOR byte_word y)) 0 (zip a b) = 0)"

definition authorized :: "(string \<Rightarrow> string option) \<Rightarrow> string option \<Rightarrow> string \<Rightarrow> bool" where
  "authorized decode header token = (case header of
      None \<Rightarrow> False
    | Some header \<Rightarrow> (case strip_prefix ''Basic '' header of
        None \<Rightarrow> False
      | Some encoded \<Rightarrow> (case decode (str_trim encoded) of
          None \<Rightarrow> False
        | Some decoded \<Rightarrow>
            if \<not> utf8_valid decoded then False
            else constant_time_eq (takeWhile (\<lambda>c. c \<noteq> CHR '':'') decoded) token)))"

text \<open>The token of a session, from its random bytes (\<open>generate_token\<close> of \<open>src/proxy/mod.rs\<close>).\<close>

definition TOKEN_BYTES :: nat where
  "TOKEN_BYTES = 16"

definition hex_byte :: "8 word \<Rightarrow> string" where
  "hex_byte b = hex_digits 2 (unat b)"

definition generate_token :: "8 word list \<Rightarrow> string" where
  "generate_token bytes = concat (map hex_byte bytes)"

section \<open>Replies\<close>

definition crlfs :: "string list \<Rightarrow> string" where
  "crlfs ls = concat (map (\<lambda>l. l @ crlf) ls)"

definition auth_required :: "bool \<Rightarrow> string" where
  "auth_required connect =
     (let detail = ''devcroft: proxy authentication required'';
          head = [''HTTP/1.1 407 Proxy Authentication Required'',
            ''Proxy-Authenticate: Basic realm='' @ [CHR 0x22] @ ''devcroft'' @ [CHR 0x22]]
      in if connect then crlfs (head @ [''Connection: close'', [], detail])
         else crlfs (head @ [''Content-Type: text/plain'', ''Connection: close'',
           ''Content-Length: '' @ show_nat (length detail), []]) @ detail)"

definition refusal :: "bool \<Rightarrow> string \<Rightarrow> string" where
  "refusal connect detail =
     (if connect then crlfs [''HTTP/1.1 502 Bad Gateway'', ''Connection: close'', [], detail]
      else crlfs [''HTTP/1.1 502 Bad Gateway'', ''Content-Type: text/plain'', ''Connection: close'',
        ''Content-Length: '' @ show_nat (length detail), []] @ detail)"

definition established :: string where
  "established = crlfs [''HTTP/1.1 200 Connection Established'', []]"

section \<open>One connection\<close>

datatype 'ip proxy_event =
    ProxyLog string
  | Resolve string "16 word"
  | Dial 'ip "16 word"
  | ToClient string
  | ToUpstream string
  | Splice "string list"

text \<open>\<open>ph_check\<close> is \<open>HostFilter::check_host\<close> for this allowlist: nothing, or the reason of the refusal.
  \<open>ph_resolve\<close> gives no address when the lookup fails.\<close>

record 'ip proxy_host =
  ph_peer :: string
  ph_token :: string
  ph_decode :: "string \<Rightarrow> string option"
  ph_resolve :: "string \<Rightarrow> 16 word \<Rightarrow> 'ip list"
  ph_check :: "string \<Rightarrow> 'ip list \<Rightarrow> string option"
  ph_connect :: "'ip \<Rightarrow> 16 word \<Rightarrow> bool"
  ph_written :: bool

text \<open>The addresses tried, and the first that answers.\<close>

fun dial :: "('ip \<Rightarrow> bool) \<Rightarrow> 'ip list \<Rightarrow> 'ip list \<times> 'ip option" where
  "dial connects [] = ([], None)"
| "dial connects (ip # ips) =
     (if connects ip then ([ip], Some ip)
      else (case dial connects ips of (tried, r) \<Rightarrow> (ip # tried, r)))"

text \<open>After the addresses have been checked. The reader is dropped: only what is still in the socket
  is spliced.\<close>

definition relay :: "'ip proxy_host \<Rightarrow> target \<Rightarrow> reader \<Rightarrow> 'ip list \<Rightarrow> 'ip proxy_event list" where
  "relay H t rd resolved =
     (let where_to = ''peer='' @ ph_peer H @ '' host='' @ t_host t @ '' port='' @ show_nat (unat (t_port t))
      in case dial (\<lambda>ip. ph_connect H ip (t_port t)) resolved of
        (tried, None) \<Rightarrow> map (\<lambda>ip. Dial ip (t_port t)) tried
          @ [ProxyLog (''refuse '' @ where_to @ '' reason=connect-failed''),
             ToClient (refusal (t_connect t) (''could not connect to '' @ t_host t))]
      | (tried, Some _) \<Rightarrow> map (\<lambda>ip. Dial ip (t_port t)) tried
          @ [ProxyLog (''allow '' @ where_to),
             if t_connect t then ToClient established else ToUpstream (t_header_bytes t)]
          @ (if ph_written H then [Splice (snd rd)] else []))"

definition handle_connection :: "'ip proxy_host \<Rightarrow> string list \<Rightarrow> 'ip proxy_event list" where
  "handle_connection H chunks = (case read_target chunks of
      Inl e \<Rightarrow> [ProxyLog (''refuse peer='' @ ph_peer H @ '' reason=malformed-request detail='' @ e),
               ToClient (refusal True ''malformed request'')]
    | Inr (None, _) \<Rightarrow> []
    | Inr (Some t, rd) \<Rightarrow>
        if \<not> authorized (ph_decode H) (t_proxy_auth t) (ph_token H) then
          [ProxyLog (''refuse peer='' @ ph_peer H @ '' reason=unauthenticated''),
           ToClient (auth_required (t_connect t))]
        else let resolved = ph_resolve H (t_host t) (t_port t) in
          Resolve (t_host t) (t_port t)
          # (case ph_check H (t_host t) resolved of
              Some reason' \<Rightarrow>
                [ProxyLog (''refuse peer='' @ ph_peer H @ '' host='' @ t_host t @ '' port=''
                   @ show_nat (unat (t_port t)) @ '' reason='' @ reason'),
                 ToClient (refusal (t_connect t)
                   (''devcroft: egress denied for '' @ t_host t @ '': '' @ reason'))]
            | None \<Rightarrow> relay H t rd resolved))"

section \<open>Lemmas: the credential\<close>

lemma or_eq_0: "a OR b = 0 \<longleftrightarrow> a = 0 \<and> b = 0" for a b :: "'a::len word"
  by (auto simp: bit_eq_iff bit_or_iff)

lemma xor_eq_0: "a XOR b = 0 \<longleftrightarrow> a = b" for a b :: "'a::len word"
  by (auto simp: bit_eq_iff bit_xor_iff)

lemma constant_time_fold:
  "foldl (\<lambda>acc (x, y). acc OR (byte_word x XOR byte_word y)) acc ps = 0 \<longleftrightarrow>
     acc = 0 \<and> list_all (\<lambda>(x, y). byte_word x = byte_word y) ps"
proof (induction ps arbitrary: acc)
  case (Cons p ps)
  then show ?case by (cases p) (simp add: or_eq_0 xor_eq_0)
qed simp

lemma byte_word_inj [simp]: "byte_word x = byte_word y \<longleftrightarrow> x = y"
proof
  assume "byte_word x = byte_word y"
  then have "unat (byte_word x) = unat (byte_word y)" by simp
  moreover have "unat (byte_word c) = byte c" for c
    by (simp add: byte_word_def unat_of_nat)
  ultimately show "x = y" by simp
qed simp

lemma constant_time_eq_iff: "constant_time_eq a b \<longleftrightarrow> a = b"
proof (cases "length a = length b")
  case True
  then have "list_all (\<lambda>(x, y). x = y) (zip a b) \<longleftrightarrow> a = b" by (induction a b rule: list_induct2) auto
  then show ?thesis using True by (simp add: constant_time_eq_def constant_time_fold)
qed (auto simp: constant_time_eq_def)

lemma authorized_credential:
  "authorized decode header token \<longleftrightarrow>
     (\<exists>encoded decoded rest. header = Some (''Basic '' @ encoded) \<and> decode (str_trim encoded) = Some decoded
        \<and> utf8_valid decoded \<and> CHR '':'' \<notin> set token
        \<and> (decoded = token \<or> decoded = token @ CHR '':'' # rest))"
proof -
  have name: "takeWhile (\<lambda>c. c \<noteq> CHR '':'') d = token \<longleftrightarrow>
      CHR '':'' \<notin> set token \<and> (d = token \<or> (\<exists>rest. d = token @ CHR '':'' # rest))" for d
  proof
    assume tok: "takeWhile (\<lambda>c. c \<noteq> CHR '':'') d = token"
    then have "CHR '':'' \<notin> set token" using set_takeWhileD by fastforce
    moreover have "d = token \<or> (\<exists>rest. d = token @ CHR '':'' # rest)"
    proof (cases "split_once CHR '':'' d")
      case None
      then have "takeWhile (\<lambda>c. c \<noteq> CHR '':'') d = d" by (auto simp: split_once_None takeWhile_eq_all_conv)
      then show ?thesis using tok by simp
    next
      case (Some p)
      then obtain a b where "d = a @ CHR '':'' # b" "CHR '':'' \<notin> set a" by (cases p) (auto simp: split_once_Some)
      then show ?thesis using tok takeWhile_first [of "CHR '':''" a b] by auto
    qed
    ultimately show "CHR '':'' \<notin> set token \<and> (d = token \<or> (\<exists>rest. d = token @ CHR '':'' # rest))" ..
  qed (auto simp: takeWhile_first takeWhile_eq_all_conv)
  show ?thesis
    by (auto simp: authorized_def constant_time_eq_iff name str_simps split: option.splits)
qed

text \<open>
  A request is authorized exactly when it carries a \<open>Basic\<close> credential that decodes to a valid text
  whose part before the first colon, or the whole if there is none, is the session's token.
\<close>

theorem authorized_iff:
  "authorized decode header token \<longleftrightarrow>
     (\<exists>encoded decoded rest. header = Some (''Basic '' @ encoded) \<and> decode (str_trim encoded) = Some decoded
        \<and> utf8_valid decoded \<and> CHR '':'' \<notin> set token
        \<and> (decoded = token \<or> decoded = token @ CHR '':'' # rest))"
  by (rule authorized_credential)

lemma hex_byte_chars: "list_all (\<lambda>c. byte c < 128 \<and> c \<noteq> CHR '':'') (hex_byte b)"
proof -
  have "byte (hex_digit d) < 128 \<and> hex_digit d \<noteq> CHR '':''" if "d < 16" for d
    using byte_hex_digit [OF that] that by (cases "hex_digit d = CHR '':''") (simp_all split: if_split_asm)
  then show ?thesis by (simp add: hex_byte_def numeral_2_eq_2)
qed

lemma generate_token_inj:
  assumes "length a = length b" "generate_token a = generate_token b"
  shows "a = b"
  using assms
proof (induction a b rule: list_induct2)
  case (Cons x xs y ys)
  have len: "length (hex_byte x) = length (hex_byte y)" by (simp add: hex_byte_def numeral_2_eq_2)
  then have "hex_byte x = hex_byte y" "generate_token xs = generate_token ys"
    using Cons.prems by (simp_all add: generate_token_def)
  moreover have "x = y" if "hex_byte x = hex_byte y"
  proof -
    have "unat x < 16 ^ 2" "unat y < 16 ^ 2"
      using unsigned_less [of x, where 'a = nat] unsigned_less [of y, where 'a = nat] by simp_all
    from hex_digits_inj [OF this] show ?thesis using that by (simp add: hex_byte_def word_unat_eq_iff)
  qed
  ultimately show ?case using Cons.IH by simp
qed simp

text \<open>
  The credential of one session never opens the proxy of another: a client that presents the
  token made from the random bytes \<open>a\<close>, with or without a password, is authorized by the proxy
  whose token was made from \<open>b\<close> exactly when the random bytes are the same.
\<close>

theorem tokens_separate_sessions:
  assumes "length a = TOKEN_BYTES" "length b = TOKEN_BYTES"
    and "decode (str_trim encoded) = Some (generate_token a @ password)"
    and "password = [] \<or> hd password = CHR '':'' \<and> utf8_valid (generate_token a @ password)"
  shows "authorized decode (Some (''Basic '' @ encoded)) (generate_token b) \<longleftrightarrow> a = b"
proof -
  have chars: "list_all (\<lambda>c. byte c < 128 \<and> c \<noteq> CHR '':'') (generate_token bs)" for bs
    using hex_byte_chars by (induction bs) (simp_all add: generate_token_def)
  have plain: "CHR '':'' \<notin> set (generate_token bs)" for bs
    using chars [of bs] by (auto simp: list_all_iff)
  have "utf8_valid (generate_token a)"
    using chars [of a] by (intro utf8_valid_ascii) (simp add: list_all_iff)
  then have valid: "utf8_valid (generate_token a @ password)" using assms(4) by auto
  have "takeWhile (\<lambda>c. c \<noteq> CHR '':'') (generate_token a @ password) = generate_token a"
  proof (cases password)
    case Nil
    then show ?thesis using plain [of a] by (auto simp: takeWhile_eq_all_conv)
  next
    case (Cons c cs)
    then show ?thesis using assms(4) takeWhile_first [OF plain] by simp
  qed
  then have "authorized decode (Some (''Basic '' @ encoded)) (generate_token b) \<longleftrightarrow> generate_token a = generate_token b"
    by (simp add: authorized_def assms(3) valid constant_time_eq_iff)
  then show ?thesis using generate_token_inj [of a b] assms(1,2) by auto
qed

theorem tokens_separate_sessions_witness:
  "authorized (\<lambda>_. Some (generate_token (replicate 16 7) @ '':x'')) (Some ''Basic QUJD'') (generate_token (replicate 16 7))
   \<and> \<not> authorized (\<lambda>_. Some (generate_token (replicate 16 7) @ '':x'')) (Some ''Basic QUJD'')
        (generate_token (replicate 15 7 @ [8]))"
proof -
  have valid: "utf8_valid (generate_token (replicate 16 7) @ '':x'')" by code_simp
  have "authorized (\<lambda>_. Some (generate_token (replicate 16 7) @ '':x'')) (Some (''Basic '' @ ''QUJD'')) (generate_token b)
      \<longleftrightarrow> replicate 16 7 = b" if "length b = TOKEN_BYTES" for b
    using tokens_separate_sessions [of "replicate 16 7" b "\<lambda>_. Some (generate_token (replicate 16 7) @ '':x'')"
        "''QUJD''" "'':x''"] that valid by (simp add: TOKEN_BYTES_def)
  from this [of "replicate 16 7"] this [of "replicate 15 7 @ [8]"] show ?thesis
    by (simp add: TOKEN_BYTES_def numeral_eq_Suc)
qed

section \<open>Lemmas: what is reached\<close>

text \<open>The request on this connection passed the credential check and the host filter.\<close>

definition passes :: "'ip proxy_host \<Rightarrow> string list \<Rightarrow> target \<Rightarrow> bool" where
  "passes H chunks t \<longleftrightarrow>
     map_sum id fst (read_target chunks) = Inr (Some t)
     \<and> authorized (ph_decode H) (t_proxy_auth t) (ph_token H)
     \<and> ph_check H (t_host t) (ph_resolve H (t_host t) (t_port t)) = None"

definition reaches :: "'ip proxy_host \<Rightarrow> target \<Rightarrow> bool" where
  "reaches H t \<longleftrightarrow> list_ex (\<lambda>ip. ph_connect H ip (t_port t)) (ph_resolve H (t_host t) (t_port t))"

lemma dial_tried: "set (fst (dial connects ips)) \<subseteq> set ips"
  by (induction ips) (auto split: prod.splits)

lemma dial_Some_iff: "snd (dial connects ips) = None \<longleftrightarrow> \<not> list_ex connects ips"
  by (induction ips) (auto split: prod.splits)

text \<open>
  C9: the proxy never looks up a name for a client that has not presented the token, only ever
  dials addresses the host filter has just approved for the requested host, and relays nothing
  unless one of them answered.
\<close>

theorem proxy_reaches_only_approved:
  "list_all (\<lambda>e. case e of
       Resolve host port \<Rightarrow> (\<exists>t. map_sum id fst (read_target chunks) = Inr (Some t)
         \<and> authorized (ph_decode H) (t_proxy_auth t) (ph_token H) \<and> host = t_host t \<and> port = t_port t)
     | Dial ip port \<Rightarrow> (\<exists>t. passes H chunks t \<and> port = t_port t
         \<and> ip \<in> set (ph_resolve H (t_host t) (t_port t)))
     | ToUpstream bytes \<Rightarrow> (\<exists>t. passes H chunks t \<and> reaches H t \<and> bytes = t_header_bytes t)
     | Splice _ \<Rightarrow> (\<exists>t. passes H chunks t \<and> reaches H t)
     | _ \<Rightarrow> True) (handle_connection H chunks)"
proof (cases "read_target chunks")
  case (Inr r)
  obtain t' rd where r: "r = (t', rd)" by (rule prod.exhaust)
  show ?thesis
  proof (cases t')
    case (Some t)
    let ?ips = "ph_resolve H (t_host t) (t_port t)"
    obtain tried won where dialled: "dial (\<lambda>ip. ph_connect H ip (t_port t)) ?ips = (tried, won)" by (rule prod.exhaust)
    have "set tried \<subseteq> set ?ips" "won = None \<longleftrightarrow> \<not> reaches H t"
      using dial_tried [of _ ?ips] dial_Some_iff [of _ ?ips] unfolding reaches_def
      by (metis dialled fst_conv, metis dialled snd_conv)
    then show ?thesis
      by (auto simp: handle_connection_def relay_def passes_def Inr r Some dialled Let_def list_all_iff split: option.splits)
  qed (simp add: handle_connection_def Inr r)
qed (simp add: handle_connection_def)

definition replies :: "'ip proxy_event list \<Rightarrow> string list" where
  "replies es = concat (map (\<lambda>e. case e of ToClient m \<Rightarrow> [m] | _ \<Rightarrow> []) es)"

definition upstream_bytes :: "'ip proxy_event list \<Rightarrow> string" where
  "upstream_bytes es = concat (map (\<lambda>e. case e of ToUpstream m \<Rightarrow> m | Splice cs \<Rightarrow> concat cs | _ \<Rightarrow> []) es)"

lemma replies_dialled [simp]: "replies (map (\<lambda>ip. Dial ip p) ips @ es) = replies es"
  by (induction ips) (simp_all add: replies_def)

lemma upstream_bytes_dialled [simp]: "upstream_bytes (map (\<lambda>ip. Dial ip p) ips @ es) = upstream_bytes es"
  by (induction ips) (simp_all add: upstream_bytes_def)

text \<open>
  What the client is told, on every path: nothing if it went away, one 502 for a malformed
  request, one 407 for a missing or wrong credential, one 502 naming the reason when the filter
  refuses or no address answers, one 200 for an accepted tunnel, and for an accepted plain
  request nothing of the proxy's own.
\<close>

theorem proxy_replies:
  "replies (handle_connection H chunks) = (case map_sum id fst (read_target chunks) of
      Inl _ \<Rightarrow> [refusal True ''malformed request'']
    | Inr None \<Rightarrow> []
    | Inr (Some t) \<Rightarrow>
        if \<not> authorized (ph_decode H) (t_proxy_auth t) (ph_token H) then [auth_required (t_connect t)]
        else (case ph_check H (t_host t) (ph_resolve H (t_host t) (t_port t)) of
          Some reason' \<Rightarrow> [refusal (t_connect t) (''devcroft: egress denied for '' @ t_host t @ '': '' @ reason')]
        | None \<Rightarrow> if \<not> reaches H t then [refusal (t_connect t) (''could not connect to '' @ t_host t)]
            else if t_connect t then [established] else []))"
proof (cases "read_target chunks")
  case (Inr r)
  obtain t' rd where r: "r = (t', rd)" by (rule prod.exhaust)
  show ?thesis
  proof (cases t')
    case (Some t)
    let ?ips = "ph_resolve H (t_host t) (t_port t)"
    obtain tried won where dialled: "dial (\<lambda>ip. ph_connect H ip (t_port t)) ?ips = (tried, won)" by (rule prod.exhaust)
    have "won = None \<longleftrightarrow> \<not> reaches H t"
      using dial_Some_iff [of _ ?ips] unfolding reaches_def by (metis dialled snd_conv)
    then show ?thesis
      by (auto simp: handle_connection_def relay_def Inr r Some dialled Let_def split: option.splits)
         (auto simp: replies_def)
  qed (simp add: handle_connection_def Inr r replies_def)
qed (simp add: handle_connection_def replies_def)

lemma note_header_credential:
  assumes "snd (note_header line hs) = Some v" and "snd hs \<noteq> Some v"
  shows "sublist v line"
proof -
  obtain name val where line: "line = name @ CHR '':'' # val" and v: "v = str_trim val"
    using assms by (cases hs) (auto simp: note_header_def split_once_Some split: option.splits if_splits)
  have "prefix v (str_trim_start val)" "suffix (str_trim_start val) val"
    by (simp_all add: v str_trim_def str_trim_end_prefix str_trim_start_suffix)
  then have "sublist v val"
    using prefix_imp_sublist suffix_imp_sublist sublist_order.order.trans by blast
  then show ?thesis by (simp add: line sublist_append sublist_Cons_right)
qed

lemma read_headers_credential:
  assumes "read_headers budget rd header_bytes hs = Inr (hb, hs', rd')" and "snd hs' = Some v"
    and "snd hs = Some v \<Longrightarrow> sublist v header_bytes"
  shows "sublist v hb"
  using assms
proof (induction budget rd header_bytes hs rule: read_headers.induct)
  case (1 budget rd header_bytes hs)
  obtain line r b where line: "read_capped_line budget rd = Inr (line, r, b)"
    using 1(2) by (subst (asm) read_headers.simps) (auto split: sum.splits prod.splits)
  show ?case
  proof (cases "line = [] \<or> str_trim_end line = []")
    case True
    then show ?thesis using 1(2-4) by (subst (asm) read_headers.simps) (auto simp: line sublist_append)
  next
    case False
    then have more: "read_headers b r (header_bytes @ line) (note_header line hs) = Inr (hb, hs', rd')"
      using 1(2) by (subst (asm) read_headers.simps) (auto simp: line)
    show ?thesis
      using 1(1) [OF line refl refl False more 1(3)] 1(4) note_header_credential [of line hs v]
      by (meson sublist_append)
  qed
qed

lemma read_target_credential:
  assumes "read_target chunks = Inr (Some t, rd)" and "t_proxy_auth t = Some v"
  shows "sublist v (t_header_bytes t)"
proof -
  from assms(1) obtain line r b hs verb target_str where
    hs: "read_headers b r line (None, None) = Inr (t_header_bytes t, hs, rd)"
    and t: "target_of verb target_str (t_header_bytes t) hs = Inr t"
    by (rule read_target_SomeE)
  have "snd hs = Some v" using target_of_fields [OF t] assms(2) by simp
  then show ?thesis using read_headers_credential [OF hs] by simp
qed

text \<open>
  What an accepted plain request sends to the origin server. The header bytes go verbatim, so
  the session's credential is disclosed to every host contacted over plain HTTP; and of the bytes
  after the headers only those still in the socket follow: a body that arrived together with
  the headers is lost.
\<close>

theorem plain_request_upstream:
  assumes "read_target chunks = Inr (Some t, rd)" and "\<not> t_connect t" and "passes H chunks t"
    and "reaches H t" and "ph_written H"
  shows "concat chunks = t_header_bytes t @ fst rd @ concat (snd rd)
    \<and> upstream_bytes (handle_connection H chunks) = t_header_bytes t @ concat (snd rd)
    \<and> (\<exists>credential. t_proxy_auth t = Some (''Basic '' @ credential)
         \<and> sublist credential (upstream_bytes (handle_connection H chunks)))"
proof -
  let ?ips = "ph_resolve H (t_host t) (t_port t)"
  obtain tried won where dialled: "dial (\<lambda>ip. ph_connect H ip (t_port t)) ?ips = (tried, won)" by (rule prod.exhaust)
  have "won \<noteq> None" using dial_Some_iff [of _ ?ips] assms(4) unfolding reaches_def by (metis dialled snd_conv)
  then have up: "upstream_bytes (handle_connection H chunks) = t_header_bytes t @ concat (snd rd)"
    using assms by (auto simp: handle_connection_def relay_def passes_def dialled Let_def)
       (auto simp: upstream_bytes_def)
  obtain credential where cred: "t_proxy_auth t = Some (''Basic '' @ credential)"
    using assms(3) by (auto simp: passes_def authorized_def str_simps split: option.splits)
  have "sublist (''Basic '' @ credential) (t_header_bytes t)"
    by (rule read_target_credential [OF assms(1) cred])
  then have "sublist credential (upstream_bytes (handle_connection H chunks))"
    unfolding up by (meson sublist_append sublist_order.order.trans sublist_append_leftI)
  then show ?thesis using up cred read_target_stream [OF assms(1)] by (auto simp: stream_def)
qed

definition sample_proxy :: "nat proxy_host" where
  "sample_proxy = \<lparr>ph_peer = ''127.0.0.1:5000'', ph_token = ''s'',
     ph_decode = (\<lambda>s. if s = ''czo='' then Some ''s:'' else None), ph_resolve = (\<lambda>_ _. [7]),
     ph_check = (\<lambda>host _. if host = ''a.b'' then None else Some ''not in network.allow''),
     ph_connect = (\<lambda>_ _. True), ph_written = True\<rparr>"

theorem plain_request_upstream_witness:
  "upstream_bytes (handle_connection sample_proxy sample_http_request) = t_header_bytes sample_target
   \<and> concat sample_http_request = t_header_bytes sample_target @ ''body''"
proof -
  have "authorized (ph_decode sample_proxy) (t_proxy_auth sample_target) (ph_token sample_proxy)"
    by code_simp
  then have "passes sample_proxy sample_http_request sample_target"
    by (simp add: passes_def sample_target) (simp add: sample_proxy_def sample_target_def)
  moreover have "reaches sample_proxy sample_target" "ph_written sample_proxy"
    by (simp_all add: reaches_def sample_proxy_def)
  moreover have "\<not> t_connect sample_target" by (simp add: sample_target_def)
  ultimately show ?thesis
    using plain_request_upstream [OF sample_target, of sample_proxy] by simp
qed

end
