(* ===== verification/Shell.thy ===== *)
theory Shell
  imports Btmap Paths Utf8
begin

text \<open>
  The POSIX shell devcroft needs for itself, found in the closure of the resolved environment
  (\<open>src/shell.rs\<close>). The metadata and the canonical form of a path, and what
  \<open>nix-store --query --requisites\<close> prints, are parameters.
\<close>

section \<open>Paths of the host\<close>

text \<open>\<open>std::path::Path\<close>: whether it is absolute, and its components; a leading \<open>.\<close> of a relative path
  is one.\<close>

definition std_components :: "string \<Rightarrow> bool \<times> string list" where
  "std_components p =
     (let parts = split_on CHR ''/'' p;
          plain = filter (\<lambda>c. c \<noteq> [] \<and> c \<noteq> ''.'') parts
      in if starts_with ''/'' p then (True, plain)
         else (False, if hd parts = ''.'' then ''.'' # plain else plain))"

definition path_parent :: "string \<Rightarrow> string option" where
  "path_parent p = (case std_components p of
      (_, []) \<Rightarrow> None
    | (absolute, cs) \<Rightarrow> Some ((if absolute then ''/'' else []) @ join ''/'' (butlast cs)))"

definition STORE_PREFIX :: string where
  "STORE_PREFIX = ''/nix/store''"

definition SHELL_NAME :: string where
  "SHELL_NAME = ''sh''"

definition store_root :: "string \<Rightarrow> string option" where
  "store_root p = (case std_components p of
      (absolute, cs) \<Rightarrow> (case strip_prefix (snd (std_components STORE_PREFIX)) cs of
          Some (first # _) \<Rightarrow> if absolute then Some (path_join STORE_PREFIX first) else None
        | _ \<Rightarrow> None))"

section \<open>Resolution\<close>

record resolved_shell =
  rs_path :: string
  rs_grant :: "string option"

record shell_host =
  xh_metadata :: "string \<Rightarrow> file_metadata option"
  xh_canonicalize :: "string \<Rightarrow> string option"
  xh_requisites :: "string \<Rightarrow> string option"

definition find_map :: "('a \<Rightarrow> 'b option) \<Rightarrow> 'a list \<Rightarrow> 'b option" where
  "find_map f xs = (case List.map_filter f xs of [] \<Rightarrow> None | y # _ \<Rightarrow> Some y)"

definition path_dirs :: "(string, string) btmap \<Rightarrow> string list" where
  "path_dirs e = (case bt_get e ''PATH'' of None \<Rightarrow> []
     | Some path \<Rightarrow> filter (\<lambda>d. d \<noteq> []) (split_on CHR '':'' path))"

definition shell_in_dir :: "shell_host \<Rightarrow> string \<Rightarrow> resolved_shell option" where
  "shell_in_dir X dir =
     (let candidate = path_join dir SHELL_NAME in
      if \<not> is_executable_file (xh_metadata X) candidate then None
      else let real = (case xh_canonicalize X candidate of Some r \<Rightarrow> r | None \<Rightarrow> candidate) in
        map_option (\<lambda>root. \<lparr>rs_path = real, rs_grant = Some root\<rparr>) (store_root real))"

definition shell_on_path :: "shell_host \<Rightarrow> (string, string) btmap \<Rightarrow> resolved_shell option" where
  "shell_on_path X e = find_map (shell_in_dir X) (path_dirs e)"

definition add_root :: "shell_host \<Rightarrow> string list \<Rightarrow> string \<Rightarrow> string list" where
  "add_root X roots candidate = (case Option.bind (xh_canonicalize X candidate) store_root of
      None \<Rightarrow> roots
    | Some root \<Rightarrow> if root \<in> set roots then roots else roots @ [root])"

definition closure_roots :: "shell_host \<Rightarrow> (string, string) btmap \<Rightarrow> string list" where
  "closure_roots X e = foldl (\<lambda>roots dir. foldl (add_root X) roots
      (dir # (case path_parent dir of None \<Rightarrow> [] | Some p \<Rightarrow> [p]))) [] (path_dirs e)"

definition requisites :: "shell_host \<Rightarrow> string \<Rightarrow> string list" where
  "requisites X root = (case xh_requisites X root of None \<Rightarrow> []
     | Some out \<Rightarrow> filter (\<lambda>l. l \<noteq> []) (map str_trim (str_lines out)))"

definition shell_in_store_path :: "shell_host \<Rightarrow> string \<Rightarrow> resolved_shell option" where
  "shell_in_store_path X store_path =
     (let candidate = path_join (path_join store_path ''bin'') SHELL_NAME in
      if is_executable_file (xh_metadata X) candidate
      then Some \<lparr>rs_path = candidate, rs_grant = Some store_path\<rparr> else None)"

text \<open>Paths are ordered by their components, the root before \<open>.\<close>, that before \<open>..\<close>, and that before
  every name; \<open>dedup\<close> drops neighbours that are equal as paths.\<close>

fun dedup_by :: "('a \<Rightarrow> 'b) \<Rightarrow> 'a list \<Rightarrow> 'a list" where
  "dedup_by f (x # y # ys) = (if f x = f y then dedup_by f (x # ys) else x # dedup_by f (y # ys))"
| "dedup_by f xs = xs"

definition component_key :: "string \<Rightarrow> string" where
  "component_key c = (if c = ''.'' then [CHR 0x01] else if c = ''..'' then [CHR 0x02] else CHR 0x03 # c)"

definition path_key :: "string \<Rightarrow> string list" where
  "path_key p = (case std_components p of (absolute, cs) \<Rightarrow>
     (if absolute then [] # map component_key cs else map component_key cs))"

definition shell_in_closure :: "shell_host \<Rightarrow> (string, string) btmap \<Rightarrow> resolved_shell option" where
  "shell_in_closure X e =
     find_map (shell_in_store_path X)
       (dedup_by std_components (sort_key path_key (concat (map (requisites X) (closure_roots X e)))))"

definition resolve_shell :: "shell_host \<Rightarrow> (string, string) btmap \<Rightarrow> resolved_shell option" where
  "resolve_shell X e = (case shell_on_path X e of Some s \<Rightarrow> Some s | None \<Rightarrow> shell_in_closure X e)"

section \<open>Lemmas\<close>

lemma find_map_SomeD: "find_map f xs = Some y \<Longrightarrow> \<exists>before x after. xs = before @ x # after \<and> f x = Some y
    \<and> list_all (\<lambda>z. f z = None) before"
proof (induction xs)
  case (Cons x xs)
  show ?case
  proof (cases "f x")
    case None
    then obtain before z after where "xs = before @ z # after" "f z = Some y" "list_all (\<lambda>z. f z = None) before"
      using Cons by (auto simp: find_map_def List.map_filter_def)
    then show ?thesis using None by (intro exI [of _ "x # before"]) auto
  next
    case (Some z)
    then show ?thesis using Cons.prems by (intro exI [of _ "[]"]) (auto simp: find_map_def List.map_filter_def)
  qed
qed (simp add: find_map_def List.map_filter_def)

lemma dedup_by_set: "set (dedup_by f xs) \<subseteq> set xs"
  by (induction f xs rule: dedup_by.induct) auto

lemma dedup_by_keys: "f ` set (dedup_by f xs) = f ` set xs"
  by (induction f xs rule: dedup_by.induct) auto

lemma dedup_by_hd: "xs \<noteq> [] \<Longrightarrow> \<exists>ys. dedup_by f xs = hd xs # ys"
  by (induction f xs rule: dedup_by.induct) auto

lemma dedup_by_sorted: "sorted (map g xs) \<Longrightarrow> sorted (map g (dedup_by f xs))"
proof (induction f xs rule: dedup_by.induct)
  case (1 f x y ys)
  then show ?case using dedup_by_set [of f "y # ys"] by (auto simp: subset_iff)
qed auto

lemma std_components_absolute:
  "std_components (CHR ''/'' # p) = (True, filter (\<lambda>c. c \<noteq> [] \<and> c \<noteq> ''.'') (split_on CHR ''/'' p))"
  by (simp add: std_components_def starts_with_def)

lemma std_components_absoluteD:
  assumes "std_components p = (True, cs)"
  shows "starts_with ''/'' p" "filter (\<lambda>c. c \<noteq> [] \<and> c \<noteq> ''.'') (split_on CHR ''/'' p) = cs"
  using assms unfolding std_components_def Let_def by (simp_all split: if_split_asm)

lemma store_root_cases:
  assumes "store_root p = Some root"
  obtains first rest where "std_components p = (True, ''nix'' # ''store'' # first # rest)"
    "root = path_join STORE_PREFIX first"
proof -
  obtain a cs where p: "std_components p = (a, cs)" by (rule prod.exhaust)
  have prefix: "snd (std_components STORE_PREFIX) = [''nix'', ''store'']" by code_simp
  obtain first rest where "strip_prefix [''nix'', ''store''] cs = Some (first # rest)" "a"
    "root = path_join STORE_PREFIX first"
    using assms unfolding store_root_def p prod.case prefix by (auto split: option.splits list.splits if_splits)
  moreover from this(1) have "cs = ''nix'' # ''store'' # first # rest"
    by (simp only: strip_prefix_Some_iff) simp
  ultimately show ?thesis using that p by simp
qed

lemma store_root_Some:
  assumes "store_root p = Some root"
  shows "\<exists>first rest. std_components p = (True, ''nix'' # ''store'' # first # rest) \<and> root = ''/nix/store/'' @ first
    \<and> CHR ''/'' \<notin> set first \<and> first \<noteq> []"
proof -
  obtain first rest where p: "std_components p = (True, ''nix'' # ''store'' # first # rest)"
    and root: "root = path_join STORE_PREFIX first"
    by (rule store_root_cases [OF assms])
  have "first \<in> set (filter (\<lambda>c. c \<noteq> [] \<and> c \<noteq> ''.'') (split_on CHR ''/'' p))"
    unfolding std_components_absoluteD(2) [OF p] by (simp only: list.set insert_iff simp_thms)
  then have "CHR ''/'' \<notin> set first" "first \<noteq> []" using split_on_pieces [of first "CHR ''/''" p] by simp_all
  moreover have "path_join STORE_PREFIX first = ''/nix/store/'' @ first"
    using calculation by (cases first) (auto simp add: path_join_def STORE_PREFIX_def starts_with_def)
  ultimately show ?thesis using p root by blast
qed

text \<open>A path with a plain name appended lies within the path.\<close>

lemma is_within_join:
  assumes "list_all (\<lambda>c. c \<noteq> CHR ''/'' \<and> c \<noteq> CHR ''~'') n"
  shows "is_within (path_join p n) p"
proof -
  have slash: "is_within (q @ ''/'' @ n) (q @ ''/'' @ r)" if "r = []" for q r
  proof (cases "q = [] \<or> q = ''~''")
    case True
    then show ?thesis
      using that components_absolute [of n] components_absolute [of "[]"] components_under_home [of n]
        components_under_home [of "[]"]
      by (auto simp: is_within_prefix)
  next
    case False
    then show ?thesis
      using that components_append [of q n] components_append [of q "[]"] by (simp add: is_within_prefix)
  qed
  consider (empty) "p = []" | (slashed) q where "p = q @ ''/''" | (plain) "p \<noteq> []" "last p \<noteq> CHR ''/''"
    by (metis append_butlast_last_id)
  then show ?thesis
  proof cases
    case empty
    have "components n = (Project, filter (\<lambda>c. c \<noteq> [] \<and> c \<noteq> ''.'') (split_on CHR ''/'' n))"
      using assms by (cases n) (auto simp: components_def)
    moreover have "path_join p n = n" using assms empty by (cases n) (auto simp: path_join_def starts_with_def)
    ultimately show ?thesis by (simp add: is_within_prefix empty) (simp add: components_def)
  next
    case slashed
    have "path_join p n = q @ ''/'' @ n"
      using assms slashed by (cases n) (auto simp: path_join_def starts_with_def)
    then show ?thesis using slash [of "[]" q] slashed by simp
  next
    case plain
    then have join: "path_join p n = p @ ''/'' @ n"
      using assms by (cases n) (auto simp: path_join_def starts_with_def)
    show ?thesis
    proof (cases "p = ''~''")
      case True
      then show ?thesis unfolding join using components_under_home [of n] by (simp add: is_within_prefix)
    next
      case False
      then show ?thesis unfolding join using components_append [of p n] plain by (simp add: is_within_prefix)
    qed
  qed
qed

lemma store_root_within:
  assumes "store_root p = Some root"
  shows "is_within p root"
proof -
  obtain first rest where p: "std_components p = (True, ''nix'' # ''store'' # first # rest)"
    and root: "root = ''/nix/store/'' @ first" "CHR ''/'' \<notin> set first" "first \<noteq> []"
    using store_root_Some [OF assms] by blast
  then obtain q where q: "p = ''/'' @ q"
    using std_components_absoluteD(1) [OF p(1)] by (cases p) (simp_all add: starts_with_def)
  then have comps: "components p = (Absolute, ''nix'' # ''store'' # first # rest)"
    using p std_components_absolute [of q] components_absolute [of q] by simp
  have "first \<in> set (filter (\<lambda>c. c \<noteq> [] \<and> c \<noteq> ''.'') (split_on CHR ''/'' q))"
    using p q std_components_absolute [of q] by simp
  then have "first \<noteq> ''.''" by simp
  then have "components root = (Absolute, [''nix'', ''store'', first])"
    using components_absolute [of "''nix/store/'' @ first"] root split_on_no_delim [OF root(2)] by simp
  then show ?thesis by (simp add: is_within_prefix comps)
qed

text \<open>Appending a plain name to a path appends it to the components.\<close>

lemma starts_with_append: "p \<noteq> [] \<Longrightarrow> starts_with ''/'' (p @ q) = starts_with ''/'' p"
  by (cases p) (simp_all add: starts_with_def)

lemma std_components_join:
  assumes "n \<noteq> []" "n \<noteq> ''.''" "CHR ''/'' \<notin> set n"
  shows "std_components (path_join p n) = (fst (std_components p), snd (std_components p) @ [n])"
proof -
  have n: "split_on CHR ''/'' n = [n]" using assms(3) by (rule split_on_no_delim)
  have rel: "\<not> starts_with ''/'' n" using assms(1,3) by (cases n) (auto simp: starts_with_def)
  consider (empty) "p = []" | (slashed) q where "p = q @ ''/''" | (plain) "p \<noteq> []" "last p \<noteq> CHR ''/''"
    by (metis append_butlast_last_id)
  then show ?thesis
  proof cases
    case empty
    then show ?thesis using assms n rel by (simp add: path_join_def std_components_def starts_with_def [of _ "[]"])
  next
    case slashed
    have "path_join p n = q @ CHR ''/'' # n" using rel slashed by (simp add: path_join_def)
    then show ?thesis
      using assms n split_on_append_delim [of "CHR ''/''" q n] split_on_append_delim [of "CHR ''/''" q "[]"]
      by (cases q) (simp_all add: slashed std_components_def Let_def starts_with_def hd_append)
  next
    case plain
    have "path_join p n = p @ CHR ''/'' # n" using rel plain by (simp add: path_join_def)
    then show ?thesis
      using assms n split_on_append_delim [of "CHR ''/''" p n] plain hd_append2 [of "split_on CHR ''/'' p" "[n]"]
      by (simp add: std_components_def Let_def starts_with_append del: split_on.simps)
  qed
qed

lemma shell_in_store_path_spelling:
  assumes "\<And>p q. std_components p = std_components q \<Longrightarrow> xh_metadata X p = xh_metadata X q"
    "std_components p = std_components q"
  shows "(shell_in_store_path X p = None) = (shell_in_store_path X q = None)"
proof -
  have "std_components (path_join (path_join p ''bin'') SHELL_NAME)
      = std_components (path_join (path_join q ''bin'') SHELL_NAME)"
    using assms(2) by (simp add: std_components_join SHELL_NAME_def)
  then have "xh_metadata X (path_join (path_join p ''bin'') SHELL_NAME)
      = xh_metadata X (path_join (path_join q ''bin'') SHELL_NAME)"
    by (rule assms(1))
  then show ?thesis by (simp add: shell_in_store_path_def Let_def is_executable_file_def)
qed

text \<open>
  The shell \<open>up\<close> settles on is an executable the closure provides, and the directory granted
  for it contains it: a shell found on \<open>PATH\<close> is granted its own entry of the store, and nothing
  outside the store is ever chosen there; a shell of the closure is the first, in the order of
  paths, of the requisites that have one, so the choice does not depend on the order in which
  they were listed.
\<close>

theorem resolved_shell_is_granted:
  assumes spelling: "\<And>p q. std_components p = std_components q \<Longrightarrow> xh_metadata X p = xh_metadata X q"
    and resolved: "resolve_shell X e = Some s"
  shows "\<exists>grant. rs_grant s = Some grant \<and> is_within (rs_path s) grant \<and>
    (if shell_on_path X e = Some s
     then (\<exists>dir first. dir \<in> set (path_dirs e) \<and> is_executable_file (xh_metadata X) (path_join dir SHELL_NAME)
        \<and> grant = ''/nix/store/'' @ first \<and> CHR ''/'' \<notin> set first)
     else shell_on_path X e = None
        \<and> grant \<in> set (concat (map (requisites X) (closure_roots X e)))
        \<and> is_executable_file (xh_metadata X) (rs_path s)
        \<and> list_all (\<lambda>p. path_key grant \<le> path_key p)
            (filter (\<lambda>p. shell_in_store_path X p \<noteq> None) (concat (map (requisites X) (closure_roots X e)))))"
proof (cases "shell_on_path X e")
  case (Some s')
  then have s': "s' = s" using resolved by (simp add: resolve_shell_def)
  obtain before dir after where "path_dirs e = before @ dir # after" "shell_in_dir X dir = Some s"
    using find_map_SomeD [OF Some [unfolded shell_on_path_def]] s' by blast
  then have dir: "dir \<in> set (path_dirs e)" "shell_in_dir X dir = Some s" by simp_all
  then obtain root where "is_executable_file (xh_metadata X) (path_join dir SHELL_NAME)"
    "rs_grant s = Some root" "store_root (rs_path s) = Some root"
    by (auto simp: shell_in_dir_def Let_def split: if_splits)
  then show ?thesis
    using dir(1) Some s' store_root_within [of "rs_path s" root] store_root_Some [of "rs_path s" root] by auto
next
  case None
  let ?all = "concat (map (requisites X) (closure_roots X e))"
  let ?cands = "dedup_by std_components (sort_key path_key ?all)"
  have "find_map (shell_in_store_path X) ?cands = Some s"
    using resolved None by (simp add: resolve_shell_def shell_in_closure_def)
  then obtain before g after where cands: "?cands = before @ g # after" "shell_in_store_path X g = Some s"
    "list_all (\<lambda>z. shell_in_store_path X z = None) before"
    using find_map_SomeD by metis
  have s: "s = \<lparr>rs_path = path_join (path_join g ''bin'') SHELL_NAME, rs_grant = Some g\<rparr>"
    "is_executable_file (xh_metadata X) (rs_path s)"
    using cands(2) by (auto simp: shell_in_store_path_def Let_def split: if_splits)
  have "is_within (path_join (path_join g ''bin'') SHELL_NAME) (path_join g ''bin'')"
    "is_within (path_join g ''bin'') g"
    by (rule is_within_join, simp add: SHELL_NAME_def)+
  then have within: "is_within (rs_path s) g"
    unfolding s(1) resolved_shell.select_convs by (rule path_containment.within_trans)
  have "g \<in> set ?all" using cands(1) dedup_by_set [of std_components "sort_key path_key ?all"] by auto
  moreover have "path_key g \<le> path_key p" if "p \<in> set ?all" "shell_in_store_path X p \<noteq> None" for p
  proof -
    have "std_components p \<in> std_components ` set ?cands"
      unfolding dedup_by_keys set_sort using that(1) by (rule imageI)
    then obtain q where q: "std_components p = std_components q" "q \<in> set ?cands"
      by (rule imageE)
    then have key: "path_key p = path_key q" by (simp add: path_key_def)
    have "shell_in_store_path X q \<noteq> None"
      using shell_in_store_path_spelling [OF spelling q(1)] that(2) by simp
    then have "q \<in> set (g # after)" using q(2) cands(1,3) by (auto simp: list_all_iff)
    moreover have "sorted (map path_key (g # after))"
      using dedup_by_sorted [of path_key "sort_key path_key ?all" std_components] cands(1)
      by (simp add: sorted_append)
    ultimately show ?thesis using key by auto
  qed
  ultimately show ?thesis
    using None s within by (auto simp: list_all_iff)
qed

text \<open>An environment whose \<open>bin\<close> is a link straight into coreutils: no shell on \<open>PATH\<close>, two in the
  requisites of the environment.\<close>

definition sample_shell_host :: shell_host where
  "sample_shell_host = \<lparr>
     xh_metadata = (\<lambda>p. if std_components p \<in> {(True, [''nix'', ''store'', ''b-bash'', ''bin'', ''sh'']),
                                              (True, [''nix'', ''store'', ''a-bash'', ''bin'', ''sh''])}
        then Some \<lparr>is_file = True, mode = 493\<rparr> else None),
     xh_canonicalize = (\<lambda>p. if p = ''/run/dev/bin'' then Some ''/nix/store/c-core/bin''
        else if p = ''/run/dev'' then Some ''/nix/store/e-env'' else None),
     xh_requisites = (\<lambda>p. if p = ''/nix/store/e-env''
        then Some (''/nix/store/b-bash'' @ newline # ''/nix/store/c-core'' @ newline # ''/nix/store/a-bash'')
        else Some ''/nix/store/c-core'')\<rparr>"

theorem resolved_shell_is_granted_witness:
  "closure_roots sample_shell_host [(''PATH'', ''/run/dev/bin'')] = [''/nix/store/c-core'', ''/nix/store/e-env'']
    \<and> resolve_shell sample_shell_host [(''PATH'', ''/run/dev/bin'')]
        = Some \<lparr>rs_path = ''/nix/store/a-bash/bin/sh'', rs_grant = Some ''/nix/store/a-bash''\<rparr>
    \<and> is_within ''/nix/store/a-bash/bin/sh'' ''/nix/store/a-bash''"
proof -
  have roots: "closure_roots sample_shell_host [(''PATH'', ''/run/dev/bin'')]
      = [''/nix/store/c-core'', ''/nix/store/e-env'']"
    by code_simp
  have found: "resolve_shell sample_shell_host [(''PATH'', ''/run/dev/bin'')]
      = Some \<lparr>rs_path = ''/nix/store/a-bash/bin/sh'', rs_grant = Some ''/nix/store/a-bash''\<rparr>"
    by code_simp
  have "\<And>p q. std_components p = std_components q
      \<Longrightarrow> xh_metadata sample_shell_host p = xh_metadata sample_shell_host q"
    by (simp add: sample_shell_host_def)
  from resolved_shell_is_granted [OF this found] show ?thesis
    using roots found by simp
qed

end
