(* ===== verification/Protocol.thy ===== *)
theory Protocol
  imports Provider
begin

text \<open>
  The wire protocol of the keeper's control socket (\<open>src/keeper/protocol.rs\<close>): frames are
  \<open>[1-byte tag][4-byte big-endian length][payload]\<close>. A reader is the list of bytes still to be
  read and \<open>read_frame\<close> returns the frame with what is left; a writer is the list of bytes
  handed to it. The JSON encoding of structured payloads is \<open>serde_json\<close>'s, a parameter
  (\<open>serde_lib\<close>) of which only the round trip is ever assumed.
\<close>

section \<open>Wire types\<close>

type_synonym u8 = "8 word"
type_synonym u16 = "16 word"
type_synonym u32 = "32 word"
type_synonym i32 = "32 word"
type_synonym u64 = "64 word"

record pty_size =
  rows :: u16
  cols :: u16

record spawn_request =
  req_cmd :: string
  req_args :: "string list"
  req_cwd :: string
  req_env :: "(string, string) btmap"
  req_pty :: "pty_size option"

datatype session_signal = SigInt | SigTerm | SigHup

fun as_libc :: "session_signal \<Rightarrow> nat" where
  "as_libc SigInt = 2"
| "as_libc SigTerm = 15"
| "as_libc SigHup = 1"

record exit_status =
  exit_code :: "i32 option"
  exit_signal :: "i32 option"

record session_summary =
  sum_id :: u64
  sum_command :: string
  sum_started_unix :: u64

record query_result =
  uptime_secs :: u64
  sessions :: "session_summary list"

datatype frame =
    Spawn spawn_request
  | SpawnOk u64
  | SpawnErr string
  | Stdin bytes
  | StdinClosed
  | Stdout bytes
  | Stderr bytes
  | Resize pty_size
  | Signal session_signal
  | Exit exit_status
  | Query
  | QueryResult query_result

datatype io_error = UnexpectedEof | InvalidData string

section \<open>Framing\<close>

definition MAX_FRAME_LEN :: u32 where
  "MAX_FRAME_LEN = 16 * 1024 * 1024"

definition TAG_SPAWN :: u8 where "TAG_SPAWN = 1"
definition TAG_SPAWN_OK :: u8 where "TAG_SPAWN_OK = 2"
definition TAG_SPAWN_ERR :: u8 where "TAG_SPAWN_ERR = 3"
definition TAG_STDIN :: u8 where "TAG_STDIN = 4"
definition TAG_STDIN_CLOSED :: u8 where "TAG_STDIN_CLOSED = 5"
definition TAG_STDOUT :: u8 where "TAG_STDOUT = 6"
definition TAG_STDERR :: u8 where "TAG_STDERR = 7"
definition TAG_RESIZE :: u8 where "TAG_RESIZE = 8"
definition TAG_SIGNAL :: u8 where "TAG_SIGNAL = 9"
definition TAG_EXIT :: u8 where "TAG_EXIT = 10"
definition TAG_QUERY :: u8 where "TAG_QUERY = 11"
definition TAG_QUERY_RESULT :: u8 where "TAG_QUERY_RESULT = 12"

text \<open>\<open>u32::to_be_bytes\<close> and \<open>u32::from_be_bytes\<close>.\<close>

definition to_be_bytes :: "u32 \<Rightarrow> bytes" where
  "to_be_bytes w = [ucast (drop_bit 24 w), ucast (drop_bit 16 w), ucast (drop_bit 8 w), ucast w]"

fun from_be_bytes :: "bytes \<Rightarrow> u32" where
  "from_be_bytes [a, b, c, d] =
     or (push_bit 24 (ucast a)) (or (push_bit 16 (ucast b)) (or (push_bit 8 (ucast c)) (ucast d)))"
| "from_be_bytes _ = 0"

text \<open>\<open>Read::read_exact\<close>: all the bytes asked for, or \<open>UnexpectedEof\<close>.\<close>

definition read_exact :: "nat \<Rightarrow> bytes \<Rightarrow> io_error + (bytes \<times> bytes)" where
  "read_exact n r = (if length r < n then Inl UnexpectedEof else Inr (take n r, drop n r))"

definition frame_too_long :: "nat \<Rightarrow> io_error" where
  "frame_too_long n = InvalidData (''frame of '' @ show_nat n @ '' bytes exceeds max '' @ show_nat (unat MAX_FRAME_LEN))"

text \<open>The part of \<open>read_frame\<close> before the dispatch on the tag.\<close>

definition read_raw :: "bytes \<Rightarrow> io_error + ((u8 \<times> bytes) \<times> bytes)" where
  "read_raw r =
     rbind (read_exact 1 r) (\<lambda>(tag_buf, r).
     rbind (read_exact 4 r) (\<lambda>(len_buf, r).
     let len = from_be_bytes len_buf in
     if len > MAX_FRAME_LEN then Inl (frame_too_long (unat len))
     else rbind (read_exact (unat len) r) (\<lambda>(payload, r). Inr ((hd tag_buf, payload), r))))"

definition write_raw :: "u8 \<Rightarrow> bytes \<Rightarrow> io_error + bytes" where
  "write_raw tag payload =
     (if length payload > unat MAX_FRAME_LEN then Inl (frame_too_long (length payload))
      else Inr ([tag] @ to_be_bytes (word_of_nat (length payload)) @ payload))"

section \<open>Frames\<close>

text \<open>What the protocol uses of \<open>serde_json\<close>: \<open>to_vec\<close> and \<open>from_slice\<close> at each payload type.\<close>

record 'a serde =
  to_vec :: "'a \<Rightarrow> string + bytes"
  from_slice :: "bytes \<Rightarrow> string + 'a"

record serde_lib =
  serde_spawn :: "spawn_request serde"
  serde_spawn_ok :: "u64 serde"
  serde_spawn_err :: "string serde"
  serde_resize :: "pty_size serde"
  serde_signal :: "session_signal serde"
  serde_exit :: "exit_status serde"
  serde_query_result :: "query_result serde"

definition from_json :: "'a serde \<Rightarrow> bytes \<Rightarrow> io_error + 'a" where
  "from_json s payload = map_err InvalidData (from_slice s payload)"

definition write_json :: "'a serde \<Rightarrow> u8 \<Rightarrow> 'a \<Rightarrow> io_error + bytes" where
  "write_json s tag v = rbind (map_err InvalidData (to_vec s v)) (write_raw tag)"

definition parse_frame :: "serde_lib \<Rightarrow> u8 \<Rightarrow> bytes \<Rightarrow> io_error + frame" where
  "parse_frame L tag payload =
     (if tag = TAG_SPAWN then rbind (from_json (serde_spawn L) payload) (\<lambda>v. Inr (Spawn v))
      else if tag = TAG_SPAWN_OK then rbind (from_json (serde_spawn_ok L) payload) (\<lambda>v. Inr (SpawnOk v))
      else if tag = TAG_SPAWN_ERR then rbind (from_json (serde_spawn_err L) payload) (\<lambda>v. Inr (SpawnErr v))
      else if tag = TAG_STDIN then Inr (Stdin payload)
      else if tag = TAG_STDIN_CLOSED then Inr StdinClosed
      else if tag = TAG_STDOUT then Inr (Stdout payload)
      else if tag = TAG_STDERR then Inr (Stderr payload)
      else if tag = TAG_RESIZE then rbind (from_json (serde_resize L) payload) (\<lambda>v. Inr (Resize v))
      else if tag = TAG_SIGNAL then rbind (from_json (serde_signal L) payload) (\<lambda>v. Inr (Signal v))
      else if tag = TAG_EXIT then rbind (from_json (serde_exit L) payload) (\<lambda>v. Inr (Exit v))
      else if tag = TAG_QUERY then Inr Query
      else if tag = TAG_QUERY_RESULT then
        rbind (from_json (serde_query_result L) payload) (\<lambda>v. Inr (QueryResult v))
      else Inl (InvalidData (''unknown frame tag '' @ show_nat (unat tag))))"

definition read_frame :: "serde_lib \<Rightarrow> bytes \<Rightarrow> io_error + (frame \<times> bytes)" where
  "read_frame L r = rbind (read_raw r) (\<lambda>((tag, payload), r).
     rbind (parse_frame L tag payload) (\<lambda>f. Inr (f, r)))"

fun write_frame :: "serde_lib \<Rightarrow> frame \<Rightarrow> io_error + bytes" where
  "write_frame L (Spawn req) = write_json (serde_spawn L) TAG_SPAWN req"
| "write_frame L (SpawnOk session_id) = write_json (serde_spawn_ok L) TAG_SPAWN_OK session_id"
| "write_frame L (SpawnErr message) = write_json (serde_spawn_err L) TAG_SPAWN_ERR message"
| "write_frame L (Stdin bs) = write_raw TAG_STDIN bs"
| "write_frame L StdinClosed = write_raw TAG_STDIN_CLOSED []"
| "write_frame L (Stdout bs) = write_raw TAG_STDOUT bs"
| "write_frame L (Stderr bs) = write_raw TAG_STDERR bs"
| "write_frame L (Resize sz) = write_json (serde_resize L) TAG_RESIZE sz"
| "write_frame L (Signal sig) = write_json (serde_signal L) TAG_SIGNAL sig"
| "write_frame L (Exit status) = write_json (serde_exit L) TAG_EXIT status"
| "write_frame L Query = write_raw TAG_QUERY []"
| "write_frame L (QueryResult result) = write_json (serde_query_result L) TAG_QUERY_RESULT result"

definition write_frames :: "serde_lib \<Rightarrow> frame list \<Rightarrow> io_error + bytes" where
  "write_frames L fs = try_fold (\<lambda>out f. rbind (write_frame L f) (\<lambda>bs. Inr (out @ bs))) [] fs"

section \<open>Lemmas: framing\<close>

lemma from_be_to_be [simp]: "from_be_bytes (to_be_bytes w) = w"
proof (rule bit_eqI)
  fix n assume "possible_bit TYPE(32 word) n"
  then have n: "n < 32" by simp
  consider "n < 8" | "8 \<le> n \<and> n < 16" | "16 \<le> n \<and> n < 24" | "24 \<le> n" by linarith
  then show "bit (from_be_bytes (to_be_bytes w)) n = bit w n"
    using n by cases (auto simp: to_be_bytes_def bit_simps not_le)
qed

lemma length_to_be_bytes [simp]: "length (to_be_bytes w) = 4"
  by (simp add: to_be_bytes_def)

lemma read_exact_append [simp]:
  "length xs = n \<Longrightarrow> read_exact n (xs @ r) = Inr (xs, r)"
  by (simp add: read_exact_def)

lemma read_exact_short [simp]: "length r < n \<Longrightarrow> read_exact n r = Inl UnexpectedEof"
  by (simp add: read_exact_def)

lemma read_exact_Inr:
  "read_exact n r = Inr (xs, r') \<longleftrightarrow> r = xs @ r' \<and> length xs = n"
  by (auto simp: read_exact_def split: if_splits)

lemma unat_MAX_FRAME_LEN [simp]: "unat MAX_FRAME_LEN = 16777216"
  by (simp add: MAX_FRAME_LEN_def)

lemma payload_length_fits:
  assumes "length (payload :: bytes) \<le> 16777216"
  shows "unat (word_of_nat (length payload) :: u32) = length payload"
    and "\<not> MAX_FRAME_LEN < (word_of_nat (length payload) :: u32)"
  using assms by (simp_all add: word_less_nat_alt unat_of_nat take_bit_nat_eq_self)

lemma read_write_raw:
  assumes "write_raw tag payload = Inr bs"
  shows "read_raw (bs @ r) = Inr ((tag, payload), r)"
proof -
  have "length payload \<le> 16777216"
    and bs: "bs = [tag] @ to_be_bytes (word_of_nat (length payload)) @ payload"
    using assms by (auto simp: write_raw_def split: if_splits)
  note fits = payload_length_fits [OF this(1)]
  have "read_exact 1 (bs @ r) = Inr ([tag], to_be_bytes (word_of_nat (length payload)) @ payload @ r)"
    unfolding bs by (simp add: read_exact_def)
  then show ?thesis
    using fits by (simp add: read_raw_def result_simps)
qed

lemma read_raw_truncated:
  assumes w: "write_raw tag payload = Inr bs" and p: "strict_prefix p bs"
  shows "read_raw p = Inl UnexpectedEof"
proof -
  have "length payload \<le> 16777216"
    and bs: "bs = [tag] @ to_be_bytes (word_of_nat (length payload)) @ payload"
    using w by (auto simp: write_raw_def split: if_splits)
  note fits = payload_length_fits [OF this(1)]
  have len: "length p < 5 + length payload"
    using prefix_length_less [OF p] by (simp add: bs)
  obtain q where q: "bs = p @ q" using p by (auto simp: strict_prefix_def prefix_def)
  consider "p = []" | p1 where "p = tag # p1" "length p1 < 4"
    | p2 where "p = tag # to_be_bytes (word_of_nat (length payload)) @ p2" "length p2 < length payload"
  proof (cases p)
    case (Cons t p1)
    then have t: "t = tag" and r: "to_be_bytes (word_of_nat (length payload)) @ payload = p1 @ q"
      using q bs by simp_all
    show ?thesis
    proof (cases "length p1 < 4")
      case False
      have "take 4 (to_be_bytes (word_of_nat (length payload)) @ payload) = take 4 (p1 @ q)"
        by (simp only: r)
      then have "take 4 p1 = to_be_bytes (word_of_nat (length payload))" using False by simp
      then have "p1 = to_be_bytes (word_of_nat (length payload)) @ drop 4 p1"
        using append_take_drop_id [of 4 p1] by simp
      moreover have "length (drop 4 p1) < length payload" using len Cons False by simp
      ultimately show ?thesis using that(3) Cons t by metis
    qed (use that(2) Cons t in blast)
  qed (use that in blast)
  then show ?thesis
    using fits by cases (simp_all add: read_raw_def result_simps read_exact_def)
qed

lemma read_raw_consumes:
  assumes "read_raw r = Inr ((tag, payload), r')"
  obtains len where "r = tag # len @ payload @ r'" "length len = 4" "length payload \<le> unat MAX_FRAME_LEN"
proof -
  obtain tag_buf len r1 r2 where "read_exact 1 r = Inr (tag_buf, r1)" "read_exact 4 r1 = Inr (len, r2)"
    "\<not> MAX_FRAME_LEN < from_be_bytes len" "tag = hd tag_buf"
    "read_exact (unat (from_be_bytes len)) r2 = Inr (payload, r')"
    using assms by (auto simp: read_raw_def result_simps Let_def split: if_splits)
  then show ?thesis
    using that [of len] by (cases tag_buf) (auto simp: read_exact_Inr word_less_nat_alt)
qed

section \<open>The codec interface\<close>

text \<open>
  What a reading loop delivers from a byte stream: the decoded items until the first error.
\<close>

inductive delivers :: "(bytes \<Rightarrow> 'e + ('x \<times> bytes)) \<Rightarrow> bytes \<Rightarrow> 'x list \<Rightarrow> 'e \<Rightarrow> bool"
  for dec where
  stop: "dec r = Inl e \<Longrightarrow> delivers dec r [] e"
| item: "dec r = Inr (x, r') \<Longrightarrow> delivers dec r' xs e \<Longrightarrow> delivers dec r (x # xs) e"

inductive_cases delivers_stopE: "delivers dec r [] e"
inductive_cases delivers_itemE: "delivers dec r (x # xs) e"

lemma delivers_fun:
  "delivers dec r xs e \<Longrightarrow> delivers dec r ys e' \<Longrightarrow> ys = xs \<and> e' = e"
proof (induction arbitrary: ys rule: delivers.induct)
  case (stop r e)
  then show ?case by (auto elim: delivers.cases)
next
  case (item r x r' xs e)
  from item.prems item.hyps(1) obtain zs where "ys = x # zs" "delivers dec r' zs e'"
    by (auto elim: delivers.cases)
  then show ?case using item.IH by simp
qed

locale codec =
  fixes enc :: "'x \<Rightarrow> 'e + bytes"
    and dec :: "bytes \<Rightarrow> 'e + ('x \<times> bytes)"
    and eof :: 'e
  assumes dec_enc: "enc x = Inr bs \<Longrightarrow> dec (bs @ r) = Inr (x, r)"
    and dec_truncated: "enc x = Inr bs \<Longrightarrow> strict_prefix p bs \<Longrightarrow> dec p = Inl eof"
    and dec_empty: "dec [] = Inl eof"
begin

fun encodes :: "'x list \<Rightarrow> bytes \<Rightarrow> bool" where
  "encodes [] bs = (bs = [])"
| "encodes (x # xs) bs = (\<exists>b bs'. enc x = Inr b \<and> bs = b @ bs' \<and> encodes xs bs')"

lemma cut_stream:
  assumes "encodes xs bs" and "prefix p bs"
  shows "\<exists>ys. prefix ys xs \<and> delivers dec p ys eof \<and> (p = bs \<longleftrightarrow> ys = xs)"
  using assms
proof (induction xs arbitrary: bs p)
  case Nil
  then show ?case by (auto intro: delivers.stop dec_empty)
next
  case (Cons x xs)
  then obtain b bs' where b: "enc x = Inr b" and bs: "bs = b @ bs'" and rest: "encodes xs bs'"
    by auto
  consider "strict_prefix p b" | p' where "p = b @ p'" "prefix p' bs'"
  proof (cases "strict_prefix p b")
    case False
    then have "p = b @ [] \<or> (\<exists>p'. p = b @ p' \<and> prefix p' bs')"
      using Cons.prems(2) bs by (auto simp: prefix_append strict_prefix_def)
    then show ?thesis using that(2) by auto
  qed (rule that(1))
  then show ?case
  proof cases
    case 1
    then have "delivers dec p [] eof" using b by (intro delivers.stop) (rule dec_truncated)
    moreover have "p \<noteq> bs" using 1 bs by (auto simp: strict_prefix_def prefix_def)
    ultimately show ?thesis by (intro exI [of _ "[]"]) simp
  next
    case 2
    then obtain ys where "prefix ys xs" "delivers dec p' ys eof" "p' = bs' \<longleftrightarrow> ys = xs"
      using Cons.IH [OF rest] by blast
    then have "delivers dec p (x # ys) eof"
      unfolding 2(1) using dec_enc [OF b] by (intro delivers.item)
    then show ?thesis using 2 bs \<open>prefix ys xs\<close> \<open>p' = bs' \<longleftrightarrow> ys = xs\<close>
      by (intro exI [of _ "x # ys"]) auto
  qed
qed

end

interpretation raw: codec "\<lambda>(tag, payload). write_raw tag payload" read_raw UnexpectedEof
  by unfold_locales
     (auto intro: read_write_raw read_raw_truncated simp: read_raw_def [of "[]"] result_simps)

section \<open>Lemmas: frames\<close>

definition serde_ok :: "'a serde \<Rightarrow> bool" where
  "serde_ok s \<longleftrightarrow> (\<forall>v bs. to_vec s v = Inr bs \<longrightarrow> from_slice s bs = Inr v)"

text \<open>The documented behaviour of \<open>serde_json\<close> the protocol relies on: what it serialises, it
  reads back.\<close>

definition serde_lib_ok :: "serde_lib \<Rightarrow> bool" where
  "serde_lib_ok L \<longleftrightarrow> serde_ok (serde_spawn L) \<and> serde_ok (serde_spawn_ok L)
     \<and> serde_ok (serde_spawn_err L) \<and> serde_ok (serde_resize L) \<and> serde_ok (serde_signal L)
     \<and> serde_ok (serde_exit L) \<and> serde_ok (serde_query_result L)"

lemmas tag_defs = TAG_SPAWN_def TAG_SPAWN_OK_def TAG_SPAWN_ERR_def TAG_STDIN_def
  TAG_STDIN_CLOSED_def TAG_STDOUT_def TAG_STDERR_def TAG_RESIZE_def TAG_SIGNAL_def TAG_EXIT_def
  TAG_QUERY_def TAG_QUERY_RESULT_def

lemma write_json_Inr:
  "write_json s tag v = Inr bs \<longleftrightarrow> (\<exists>payload. to_vec s v = Inr payload \<and> write_raw tag payload = Inr bs)"
  by (auto simp: write_json_def result_simps)

lemma write_frame_raw:
  assumes "serde_lib_ok L" and "write_frame L f = Inr bs"
  obtains tag payload where "write_raw tag payload = Inr bs" "parse_frame L tag payload = Inr f"
  using assms
  by (cases f)
     (auto simp: write_json_Inr serde_lib_ok_def serde_ok_def parse_frame_def from_json_def
       result_simps tag_defs)

lemma read_frame_progress:
  "read_frame L r = Inr (f, r') \<Longrightarrow> length r' < length r"
  by (auto simp: read_frame_def result_simps elim!: read_raw_consumes)

text \<open>The reading loop of both ends of a connection: frames until the first error.\<close>

function read_frames :: "serde_lib \<Rightarrow> bytes \<Rightarrow> frame list \<times> io_error" where
  "read_frames L r = (case read_frame L r of
      Inl e \<Rightarrow> ([], e)
    | Inr (f, r') \<Rightarrow> (case read_frames L r' of (fs, e) \<Rightarrow> (f # fs, e)))"
  by pat_completeness auto
termination
  by (relation "measure (\<lambda>(L, r). length r)") (auto dest: read_frame_progress)

declare read_frames.simps [simp del]

lemma delivers_read_frames:
  "delivers (read_frame L) r (fst (read_frames L r)) (snd (read_frames L r))"
proof (induction L r rule: read_frames.induct)
  case (1 L r)
  show ?case
  proof (cases "read_frame L r")
    case (Inl e)
    then show ?thesis by (simp add: read_frames.simps [of L r] delivers.stop)
  next
    case (Inr fr)
    then obtain f r' where fr: "read_frame L r = Inr (f, r')" by (cases fr) auto
    then have "delivers (read_frame L) r' (fst (read_frames L r')) (snd (read_frames L r'))"
      using 1 by auto
    then show ?thesis using fr
      by (auto simp: read_frames.simps [of L r] split: prod.splits intro: delivers.item)
  qed
qed

lemma read_frames_eqI: "delivers (read_frame L) r fs e \<Longrightarrow> read_frames L r = (fs, e)"
  using delivers_fun [OF _ delivers_read_frames] by (metis prod.collapse)

lemma frame_codec: "serde_lib_ok L \<Longrightarrow> codec (write_frame L) (read_frame L) UnexpectedEof"
proof
  fix f bs r
  assume "serde_lib_ok L" "write_frame L f = Inr bs"
  then obtain tag payload where w: "write_raw tag payload = Inr bs"
    and p: "parse_frame L tag payload = Inr f"
    by (rule write_frame_raw)
  show "read_frame L (bs @ r) = Inr (f, r)"
    using read_write_raw [OF w, of r] p by (simp add: read_frame_def result_simps)
  show "read_frame L p = Inl UnexpectedEof" if "strict_prefix p bs" for p
    using read_raw_truncated [OF w that] by (simp add: read_frame_def result_simps)
next
  show "read_frame L [] = Inl UnexpectedEof"
    by (simp add: read_frame_def read_raw_def result_simps)
qed

lemma write_frames_fold:
  assumes "serde_lib_ok L"
  shows "try_fold (\<lambda>out f. rbind (write_frame L f) (\<lambda>bs. Inr (out @ bs))) out fs = Inr bs \<longleftrightarrow>
    (\<exists>bs'. bs = out @ bs' \<and> codec.encodes (write_frame L) fs bs')"
proof (induction fs arbitrary: out)
  case Nil
  then show ?case by (auto simp: codec.encodes.simps [OF frame_codec [OF assms]])
next
  case (Cons f fs)
  then show ?case
    by (cases "write_frame L f") (auto simp: codec.encodes.simps [OF frame_codec [OF assms]] result_simps)
qed

text \<open>Reading back a prefix of what was written.\<close>

lemma read_frames_prefix:
  assumes "serde_lib_ok L" and "write_frames L fs = Inr bs" and "prefix p bs"
  shows "\<exists>got. prefix got fs \<and> read_frames L p = (got, UnexpectedEof) \<and> (p = bs \<longleftrightarrow> got = fs)"
proof -
  have "codec.encodes (write_frame L) fs bs"
    using assms(2) write_frames_fold [OF assms(1)] by (simp add: write_frames_def)
  from codec.cut_stream [OF frame_codec [OF assms(1)] this assms(3)]
  show ?thesis using read_frames_eqI by blast
qed

text \<open>
  C8: a connection may be cut at any byte: the reading loop then delivers a prefix of the frames
  the peer wrote, each of them intact and in order, and stops with \<open>UnexpectedEof\<close>; it never
  delivers a truncated or misparsed frame, and delivers all of them exactly when the whole stream
  arrived.
\<close>

theorem read_frames_of_cut_stream:
  assumes "serde_lib_ok L" and "write_frames L fs = Inr bs" and "prefix p bs"
  shows "\<exists>got. prefix got fs \<and> read_frames L p = (got, UnexpectedEof) \<and> (p = bs \<longleftrightarrow> got = fs)"
  by (rule read_frames_prefix [OF assms])

definition const_serde :: "'a \<Rightarrow> string \<Rightarrow> 'a serde" where
  "const_serde v text = \<lparr>
     to_vec = (\<lambda>w. if w = v then Inr (map (\<lambda>c. word_of_nat (byte c)) text) else Inl ''unsupported''),
     from_slice = (\<lambda>bs. if bs = map (\<lambda>c. word_of_nat (byte c)) text then Inr v else Inl ''expected value'')\<rparr>"

lemma const_serde_ok [simp]: "serde_ok (const_serde v text)"
  by (auto simp: serde_ok_def const_serde_def)

text \<open>A JSON library that knows one value of each payload type, in \<open>serde_json\<close>'s format.\<close>

definition sample_serde :: serde_lib where
  "sample_serde = \<lparr>
     serde_spawn = const_serde \<lparr>req_cmd = ''ls'', req_args = [], req_cwd = ''/'', req_env = [], req_pty = None\<rparr>
        (''{'' @ [CHR 0x22] @ ''cmd'' @ [CHR 0x22] @ '':ls}''),
     serde_spawn_ok = const_serde 7 (''{'' @ [CHR 0x22] @ ''session_id'' @ [CHR 0x22] @ '':7}''),
     serde_spawn_err = const_serde ''no'' ([CHR 0x22] @ ''no'' @ [CHR 0x22]),
     serde_resize = const_serde \<lparr>rows = 24, cols = 80\<rparr> ''[24,80]'',
     serde_signal = const_serde SigInt ([CHR 0x22] @ ''Int'' @ [CHR 0x22]),
     serde_exit = const_serde \<lparr>exit_code = Some 0, exit_signal = None\<rparr> ''[0,null]'',
     serde_query_result = const_serde \<lparr>uptime_secs = 1, sessions = []\<rparr> ''[1,[]]''\<rparr>"

lemma sample_serde_ok: "serde_lib_ok sample_serde"
  by (simp add: serde_lib_ok_def sample_serde_def)

theorem read_frames_of_cut_stream_witness:
  "\<exists>got. prefix got [SpawnOk 7, Stdout [104, 105]] \<and>
     read_frames sample_serde (take 24 (projr (write_frames sample_serde [SpawnOk 7, Stdout [104, 105]]))) =
       (got, UnexpectedEof)"
proof -
  have "isl (write_frames sample_serde [SpawnOk 7, Stdout [104, 105]]) = False"
    by (simp add: write_frames_def write_json_def write_raw_def sample_serde_def const_serde_def result_simps)
  then have "write_frames sample_serde [SpawnOk 7, Stdout [104, 105]] =
      Inr (projr (write_frames sample_serde [SpawnOk 7, Stdout [104, 105]]))"
    by (simp add: sum.collapse(2))
  from read_frames_of_cut_stream [OF sample_serde_ok this take_is_prefix [of 24]]
  show ?thesis by blast
qed

text \<open>
  C33: a peer cannot make the reader allocate more than the frame limit: a header announcing more
  than 16 MiB is refused before any payload is read, a frame that is accepted consumed between
  5 bytes and 5 bytes plus 16 MiB, and no frame that was written is longer than that.
\<close>

theorem frame_length_bounds:
  "(MAX_FRAME_LEN < len \<longrightarrow> read_frame L (tag # to_be_bytes len @ r) = Inl (frame_too_long (unat len)))
   \<and> (read_frame L r = Inr (f, r') \<longrightarrow>
        (\<exists>c. r = c @ r' \<and> 5 \<le> length c \<and> length c \<le> 5 + 16 * 1024 * 1024))
   \<and> (write_frame L f = Inr bs \<longrightarrow> 5 \<le> length bs \<and> length bs \<le> 5 + 16 * 1024 * 1024)"
proof (intro conjI impI)
  assume "MAX_FRAME_LEN < len"
  moreover have "read_exact 1 (tag # to_be_bytes len @ r) = Inr ([tag], to_be_bytes len @ r)"
    by (simp add: read_exact_def)
  ultimately show "read_frame L (tag # to_be_bytes len @ r) = Inl (frame_too_long (unat len))"
    by (simp add: read_frame_def read_raw_def result_simps)
next
  assume "read_frame L r = Inr (f, r')"
  then obtain tag payload where "read_raw r = Inr ((tag, payload), r')"
    by (auto simp: read_frame_def result_simps)
  then obtain ln where "r = tag # ln @ payload @ r'" "length ln = 4" "length payload \<le> unat MAX_FRAME_LEN"
    by (rule read_raw_consumes)
  then show "\<exists>c. r = c @ r' \<and> 5 \<le> length c \<and> length c \<le> 5 + 16 * 1024 * 1024"
    by (intro exI [of _ "tag # ln @ payload"]) simp
next
  have raw: "5 \<le> length bs \<and> length bs \<le> 5 + 16 * 1024 * 1024" if "write_raw t pl = Inr bs" for t pl
    using that by (auto simp: write_raw_def split: if_splits)
  assume "write_frame L f = Inr bs"
  then obtain t pl where "write_raw t pl = Inr bs"
    by (cases f) (auto simp: write_json_Inr)
  then have "5 \<le> length bs \<and> length bs \<le> 5 + 16 * 1024 * 1024" by (rule raw)
  then show "5 \<le> length bs" and "length bs \<le> 5 + 16 * 1024 * 1024" by simp_all
qed

theorem frame_length_bounds_witness:
  "read_frame sample_serde (6 # to_be_bytes 0x7fffffff @ []) = Inl (frame_too_long 0x7fffffff)"
  using frame_length_bounds [of "0x7fffffff" sample_serde 6 "[]" Query "[]" "[]"]
  by (simp add: MAX_FRAME_LEN_def)

end
