(* ===== verification/Registry.thy ===== *)
theory Registry
  imports Protocol "HOL-Library.AList"
begin

text \<open>
  The keeper's session registry (\<open>src/keeper/registry.rs\<close>): a hash map from session ids to what
  is known of the session, and the counter ids are drawn from. The association list stands for
  the hash map in whatever order it iterates; nothing below depends on that order. The contract
  the connection handlers rely on is the locale \<open>session_registry\<close>.
\<close>

section \<open>Model\<close>

record session_info =
  si_pgid :: nat
  si_command :: string
  si_started :: int

record registry =
  reg_sessions :: "(u64 \<times> session_info) list"
  next_id :: u64

definition registry_new :: registry where
  "registry_new = \<lparr>reg_sessions = [], next_id = 0\<rparr>"

definition registry_insert :: "nat \<Rightarrow> string \<Rightarrow> int \<Rightarrow> registry \<Rightarrow> u64 \<times> registry" where
  "registry_insert pgid command now r =
     (let sid = next_id r + 1 in
      (sid, r\<lparr>next_id := next_id r + 1,
             reg_sessions := AList.update sid \<lparr>si_pgid = pgid, si_command = command, si_started = now\<rparr>
               (reg_sessions r)\<rparr>))"

definition registry_remove :: "u64 \<Rightarrow> registry \<Rightarrow> session_info option \<times> registry" where
  "registry_remove sid r = (map_of (reg_sessions r) sid, r\<lparr>reg_sessions := AList.delete sid (reg_sessions r)\<rparr>)"

definition registry_contains :: "registry \<Rightarrow> u64 \<Rightarrow> bool" where
  "registry_contains r sid = (map_of (reg_sessions r) sid \<noteq> None)"

definition registry_len :: "registry \<Rightarrow> nat" where
  "registry_len r = length (reg_sessions r)"

definition registry_is_empty :: "registry \<Rightarrow> bool" where
  "registry_is_empty r = (registry_len r = 0)"

definition snapshot :: "registry \<Rightarrow> (u64 \<times> session_info) list" where
  "snapshot r = map (\<lambda>(sid, info). (sid, info)) (reg_sessions r)"

section \<open>The registry interface\<close>

text \<open>The operations other handlers may perform on the shared registry.\<close>

datatype ('i, 'a) reg_op = RegInsert 'a | RegRemove 'i

locale session_registry =
  fixes ins :: "'a \<Rightarrow> 'r \<Rightarrow> 'i \<times> 'r"
    and rem :: "'i \<Rightarrow> 'r \<Rightarrow> 'r"
    and mem :: "'r \<Rightarrow> 'i \<Rightarrow> bool"
    and issued :: "'r \<Rightarrow> 'i set"
    and room :: "'r \<Rightarrow> bool"
  assumes ins_fresh: "room r \<Longrightarrow> ins a r = (i, r') \<Longrightarrow> i \<notin> issued r"
    and ins_issued: "room r \<Longrightarrow> ins a r = (i, r') \<Longrightarrow> issued r' = insert i (issued r)"
    and ins_mem: "ins a r = (i, r') \<Longrightarrow> mem r' j \<longleftrightarrow> j = i \<or> mem r j"
    and rem_issued: "issued (rem i r) = issued r"
    and rem_mem: "mem (rem i r) j \<longleftrightarrow> j \<noteq> i \<and> mem r j"
begin

fun apply_op :: "('i, 'a) reg_op \<Rightarrow> 'r \<Rightarrow> 'r" where
  "apply_op (RegInsert a) r = snd (ins a r)"
| "apply_op (RegRemove i) r = rem i r"

text \<open>
  What the other handlers do leaves an issued id alone: it stays a member until someone removes
  it, and once removed it never comes back.
\<close>

lemma foreign_op:
  assumes "i \<in> issued r" and "room r" and "op \<noteq> RegRemove i"
  shows "mem (apply_op op r) i \<longleftrightarrow> mem r i" and "i \<in> issued (apply_op op r)"
proof -
  have "(mem (apply_op op r) i \<longleftrightarrow> mem r i) \<and> i \<in> issued (apply_op op r)"
  proof (cases op)
    case (RegInsert a)
    obtain j r' where j: "ins a r = (j, r')" by fastforce
    then have "j \<noteq> i" using ins_fresh [OF assms(2) j] assms(1) by auto
    then show ?thesis using RegInsert j ins_mem [OF j] ins_issued [OF assms(2) j] assms(1) by simp
  next
    case (RegRemove j)
    then show ?thesis using assms rem_mem rem_issued by simp
  qed
  then show "mem (apply_op op r) i \<longleftrightarrow> mem r i" and "i \<in> issued (apply_op op r)" by simp_all
qed

end

definition issued_ids :: "registry \<Rightarrow> u64 set" where
  "issued_ids r = {i. 0 < i \<and> i \<le> next_id r}"

definition has_room :: "registry \<Rightarrow> bool" where
  "has_room r = (next_id r \<noteq> - 1)"

lemma unat_max_id: "unat (- 1 :: u64) = 2 ^ 64 - 1"
  by (simp add: unsigned_minus_1_eq_mask mask_eq_exp_minus_1)

lemma unat_next_id: "has_room r \<Longrightarrow> unat (next_id r + 1) = Suc (unat (next_id r))"
proof -
  assume "has_room r"
  then have "1 + next_id r \<noteq> 0" by (simp add: has_room_def add_eq_0_iff)
  from unatSuc [OF this] show ?thesis by (simp add: add.commute)
qed

lemma next_id_less: "has_room r \<Longrightarrow> next_id r < next_id r + 1"
  by (simp add: word_less_nat_alt unat_next_id)

lemma registry_insert_issued:
  assumes "has_room r" and "registry_insert pgid command now r = (i, r')"
  shows "i \<notin> issued_ids r" and "issued_ids r' = insert i (issued_ids r)"
proof -
  have i: "i = next_id r + 1" "next_id r' = next_id r + 1"
    using assms(2) by (auto simp: registry_insert_def Let_def)
  have less: "next_id r < next_id r + 1"
    using assms(1) by (rule next_id_less)
  then show "i \<notin> issued_ids r" using i by (auto simp: issued_ids_def)
  have "j \<le> next_id r + 1 \<longleftrightarrow> j = next_id r + 1 \<or> j \<le> next_id r" for j
    using less unat_next_id [OF assms(1)] by (auto simp: word_le_nat_alt word_less_nat_alt word_unat_eq_iff)
  then show "issued_ids r' = insert i (issued_ids r)"
    using i word_gt_0 [of "next_id r + 1"] less by (auto simp: issued_ids_def)
qed

interpretation sessions: session_registry
  "\<lambda>(pgid, command, now). registry_insert pgid command now" "\<lambda>i r. snd (registry_remove i r)"
  registry_contains issued_ids has_room
proof unfold_locales
  fix r a i r'
  assume ins: "(case a of (pgid, command, now) \<Rightarrow> registry_insert pgid command now) r = (i, r')"
  show "registry_contains r' j \<longleftrightarrow> j = i \<or> registry_contains r j" for j
    using ins by (cases a) (auto simp: registry_insert_def registry_contains_def Let_def update_conv')
  assume "has_room r"
  then show "i \<notin> issued_ids r" and "issued_ids r' = insert i (issued_ids r)"
    using ins registry_insert_issued by (cases a, auto)+
next
  show "issued_ids (snd (registry_remove i r)) = issued_ids r" for i r
    by (simp add: registry_remove_def issued_ids_def)
  show "registry_contains (snd (registry_remove i r)) j \<longleftrightarrow> j \<noteq> i \<and> registry_contains r j" for i r j
    by (simp add: registry_remove_def registry_contains_def delete_conv')
qed

section \<open>Lemmas\<close>

definition registry_wf :: "registry \<Rightarrow> bool" where
  "registry_wf r \<longleftrightarrow> distinct (map fst (reg_sessions r)) \<and> fst ` set (reg_sessions r) \<subseteq> issued_ids r"

lemma registry_new_wf: "registry_wf registry_new"
  by (simp add: registry_wf_def registry_new_def)

lemma registry_remove_wf:
  assumes "registry_wf r" shows "registry_wf (snd (registry_remove i r))"
proof -
  have "fst ` set (AList.delete i (reg_sessions r)) \<subseteq> fst ` set (reg_sessions r)"
    by (auto simp: AList.delete_eq image_iff)
  then show ?thesis
    using assms by (auto simp: registry_wf_def registry_remove_def issued_ids_def distinct_delete
        simp del: delete_keys)
qed

lemma registry_insert_wf:
  assumes "registry_wf r" and "has_room r"
  shows "registry_wf (snd (registry_insert pgid command now r))"
proof -
  obtain i r' where ins: "registry_insert pgid command now r = (i, r')" by fastforce
  note issued = registry_insert_issued(2) [OF assms(2) ins]
  have sessions: "reg_sessions r' = AList.update i \<lparr>si_pgid = pgid, si_command = command, si_started = now\<rparr> (reg_sessions r)"
    using ins by (auto simp: registry_insert_def Let_def)
  have "fst ` set (reg_sessions r') = insert i (fst ` set (reg_sessions r))"
    unfolding sessions by (simp add: dom_map_of_conv_image_fst [symmetric] update_conv' dom_update)
  moreover have "distinct (map fst (reg_sessions r'))"
    unfolding sessions using assms(1) by (simp add: registry_wf_def distinct_update)
  ultimately show ?thesis
    using assms(1) issued ins by (auto simp: registry_wf_def)
qed

text \<open>A keeper's lifetime as its registry sees it: the ids handed out, and what is left.\<close>

fun run_ops :: "(u64, nat \<times> string \<times> int) reg_op list \<Rightarrow> registry \<Rightarrow> u64 list \<times> registry" where
  "run_ops [] r = ([], r)"
| "run_ops (RegInsert (pgid, command, now) # ops) r =
     (case registry_insert pgid command now r of (i, r') \<Rightarrow>
        (case run_ops ops r' of (is, r'') \<Rightarrow> (i # is, r'')))"
| "run_ops (RegRemove i # ops) r = run_ops ops (snd (registry_remove i r))"

definition n_inserts :: "('i, 'a) reg_op list \<Rightarrow> nat" where
  "n_inserts ops = length (filter (\<lambda>oper. case oper of RegInsert _ \<Rightarrow> True | RegRemove _ \<Rightarrow> False) ops)"

lemma n_inserts_simps [simp]:
  "n_inserts [] = 0"
  "n_inserts (RegInsert a # ops) = Suc (n_inserts ops)"
  "n_inserts (RegRemove i # ops) = n_inserts ops"
  by (simp_all add: n_inserts_def)

lemma run_ops_ids:
  assumes "registry_wf r" and "unat (next_id r) + n_inserts ops < 2 ^ 64"
  shows "map unat (fst (run_ops ops r)) =
      [Suc (unat (next_id r)) ..< Suc (unat (next_id r) + n_inserts ops)]
    \<and> registry_wf (snd (run_ops ops r))"
  using assms
proof (induction ops r rule: run_ops.induct)
  case (2 pgid command now ops r)
  have room: "has_room r"
    using 2(3) unat_max_id by (auto simp: has_room_def)
  obtain i r' where ins: "registry_insert pgid command now r = (i, r')" by fastforce
  have n: "i = next_id r + 1" "next_id r' = next_id r + 1"
    using ins by (auto simp: registry_insert_def Let_def)
  have "unat (next_id r + 1) = Suc (unat (next_id r))"
    using room by (rule unat_next_id)
  moreover have "registry_wf r'" using registry_insert_wf [OF 2(2) room] ins by (metis snd_conv)
  ultimately show ?case
    using 2(1) [OF ins [symmetric]] 2(3) n ins by (auto simp: upt_conv_Cons split: prod.splits)
next
  case (3 i ops r)
  have "next_id (snd (registry_remove i r)) = next_id r" by (simp add: registry_remove_def)
  then show ?case using 3 registry_remove_wf [of r i] by simp
qed simp

text \<open>
  C27: over the whole life of a keeper, the ids of the sessions it spawns are 1, 2, 3, ... in
  order, hence never reused, whatever sessions end in between, as long as fewer than
  \<open>2 ^ 64\<close> sessions are spawned; and the registry always holds issued ids only, each once.
\<close>

theorem session_ids_never_reused:
  assumes "n_inserts ops < 2 ^ 64"
  shows "map unat (fst (run_ops ops registry_new)) = [1 ..< Suc (n_inserts ops)]
    \<and> distinct (fst (run_ops ops registry_new))
    \<and> registry_wf (snd (run_ops ops registry_new))"
proof -
  have "map unat (fst (run_ops ops registry_new)) = [1 ..< Suc (n_inserts ops)]
      \<and> registry_wf (snd (run_ops ops registry_new))"
    using run_ops_ids [OF registry_new_wf, of ops] assms by (simp add: registry_new_def)
  moreover from this have "distinct (fst (run_ops ops registry_new))"
    by (metis distinct_map distinct_upt)
  ultimately show ?thesis by blast
qed

theorem session_ids_never_reused_witness:
  "map unat (fst (run_ops [RegInsert (10, ''ls'', 0), RegRemove 1, RegInsert (11, ''sh'', 5)] registry_new)) = [1, 2]"
  using session_ids_never_reused [of "[RegInsert (10, ''ls'', 0), RegRemove 1, RegInsert (11, ''sh'', 5)]"]
  by (simp add: upt_conv_Cons)

end
