(* ===== verification/Session.thy ===== *)
theory Session
  imports Registry
begin

text \<open>
  Spawning the process behind a session (\<open>src/keeper/session.rs\<close>, \<open>src/keeper/pty.rs\<close>). The
  system calls are a parameter (\<open>os_session\<close>); what the keeper decides is modelled: the
  command it builds, what the forked child does before \<open>exec\<close>, and which file descriptors are
  open in the keeper afterwards.
\<close>

section \<open>Signals of the child\<close>

record sig_state =
  sig_ignored :: "nat list"
  sig_blocked :: "nat list"

definition forwarded_signals :: "nat list" where
  "forwarded_signals = [2, 3, 15, 1]"

text \<open>\<open>signal(sig, SIG_DFL)\<close> for each forwarded signal, then one \<open>SIG_UNBLOCK\<close> of them all.\<close>

definition reset_forwarded_signal_dispositions :: "sig_state \<Rightarrow> sig_state" where
  "reset_forwarded_signal_dispositions st =
     (let st = foldl (\<lambda>st sig. st\<lparr>sig_ignored := removeAll sig (sig_ignored st)\<rparr>) st forwarded_signals
      in st\<lparr>sig_blocked := filter (\<lambda>sig. \<not> List.member forwarded_signals sig) (sig_blocked st)\<rparr>)"

section \<open>Spawning\<close>

datatype stdio = Piped | Null

datatype child_action =
    Setpgid | Setsid | SetCtty nat | Dup2 nat nat | CloseFd nat | ResetSignals

record os_command =
  cmd_program :: string
  cmd_args :: "string list"
  cmd_cwd :: string
  cmd_envs :: "(string, string) btmap"
  cmd_stdio :: stdio
  cmd_pre_exec :: "child_action list"

text \<open>The system: \<open>openpty\<close>, \<open>fcntl\<close>, duplicating a descriptor, and fork and exec. Calls that open a
  descriptor are given the ones already open.\<close>

record os_session =
  os_openpty :: "nat set \<Rightarrow> pty_size \<Rightarrow> string + (nat \<times> nat)"
  os_getfd :: "nat \<Rightarrow> string + nat"
  os_setfd :: "nat \<Rightarrow> nat \<Rightarrow> string + unit"
  os_dup :: "nat set \<Rightarrow> nat \<Rightarrow> string + nat"
  os_spawn :: "os_command \<Rightarrow> string + nat"

datatype endpoint = Pipe | Fd nat

record spawned_session =
  sp_pgid :: nat
  sp_stdin :: "endpoint option"
  sp_stdout :: endpoint
  sp_stderr :: "endpoint option"
  sp_resize :: "nat option"

definition FD_CLOEXEC :: nat where
  "FD_CLOEXEC = 1"

definition set_cloexec :: "os_session \<Rightarrow> nat \<Rightarrow> string + unit" where
  "set_cloexec os fd = rbind (os_getfd os fd) (\<lambda>flags. os_setfd os fd (or flags FD_CLOEXEC))"

definition open_pty ::
  "os_session \<Rightarrow> nat set \<Rightarrow> pty_size \<Rightarrow> (string + (nat \<times> nat)) \<times> nat set" where
  "open_pty os fds sz = (case os_openpty os fds sz of
      Inl e \<Rightarrow> (Inl e, fds)
    | Inr (master, slave) \<Rightarrow>
        let fds = fds \<union> {master, slave} in
        (case rbind (set_cloexec os master) (\<lambda>_. set_cloexec os slave) of
            Inl e \<Rightarrow> (Inl e, fds - {master, slave})
          | Inr _ \<Rightarrow> (Inr (master, slave), fds)))"

definition spawn_piped :: "os_session \<Rightarrow> spawn_request \<Rightarrow> string + spawned_session" where
  "spawn_piped os req =
     rbind (os_spawn os \<lparr>cmd_program = req_cmd req, cmd_args = req_args req, cmd_cwd = req_cwd req,
               cmd_envs = req_env req, cmd_stdio = Piped, cmd_pre_exec = [Setpgid, ResetSignals]\<rparr>)
       (\<lambda>pid. Inr \<lparr>sp_pgid = pid, sp_stdin = Some Pipe, sp_stdout = Pipe, sp_stderr = Some Pipe,
                    sp_resize = None\<rparr>)"

definition spawn_pty ::
  "os_session \<Rightarrow> nat set \<Rightarrow> spawn_request \<Rightarrow> pty_size \<Rightarrow> (string + spawned_session) \<times> nat set" where
  "spawn_pty os fds req sz = (case open_pty os fds sz of
      (Inl e, fds) \<Rightarrow> (Inl e, fds)
    | (Inr (master, slave), fds) \<Rightarrow> (case os_dup os fds master of
        Inl e \<Rightarrow> (Inl e, fds - {master})
      | Inr out \<Rightarrow> let fds = insert out fds in (case os_dup os fds master of
          Inl e \<Rightarrow> (Inl e, fds - {master, out})
        | Inr rsz \<Rightarrow>
            let fds = insert rsz fds;
                spawn_result = os_spawn os \<lparr>cmd_program = req_cmd req, cmd_args = req_args req,
                  cmd_cwd = req_cwd req, cmd_envs = req_env req, cmd_stdio = Null,
                  cmd_pre_exec = [Setsid, SetCtty slave, Dup2 slave 0, Dup2 slave 1, Dup2 slave 2]
                    @ (if slave > 2 then [CloseFd slave] else []) @ [ResetSignals]\<rparr>;
                fds = fds - {slave} in
            (case spawn_result of
                Inl e \<Rightarrow> (Inl e, fds - {master, out, rsz})
              | Inr pid \<Rightarrow> (Inr \<lparr>sp_pgid = pid, sp_stdin = Some (Fd master), sp_stdout = Fd out,
                              sp_stderr = None, sp_resize = Some rsz\<rparr>, fds)))))"

definition spawn :: "os_session \<Rightarrow> nat set \<Rightarrow> spawn_request \<Rightarrow> (string + spawned_session) \<times> nat set" where
  "spawn os fds req = (case req_pty req of
      Some sz \<Rightarrow> spawn_pty os fds req sz
    | None \<Rightarrow> (spawn_piped os req, fds))"

section \<open>Lemmas\<close>

lemma foldl_removeAll_ignored:
  "foldl (\<lambda>st sig. st\<lparr>sig_ignored := removeAll sig (sig_ignored st)\<rparr>) st sigs =
     st\<lparr>sig_ignored := filter (\<lambda>s. s \<notin> set sigs) (sig_ignored st)\<rparr>"
proof (induction sigs arbitrary: st)
  case (Cons a sigs)
  have "filter (\<lambda>s. s \<notin> set sigs) (removeAll a xs) = filter (\<lambda>s. s \<notin> set (a # sigs)) xs" for xs :: "nat list"
    by (induction xs) auto
  with Cons show ?case by simp
qed simp

text \<open>
  A session's process never misses a forwarded signal because of what the keeper inherited:
  after the reset in the child every signal a client can forward is neither ignored nor blocked,
  whatever the inherited state was, and every signal outside the reset set keeps its state.
\<close>

theorem forwarded_signals_deliverable:
  "as_libc s \<notin> set (sig_ignored (reset_forwarded_signal_dispositions st))
   \<and> as_libc s \<notin> set (sig_blocked (reset_forwarded_signal_dispositions st))
   \<and> filter (\<lambda>n. n \<notin> set forwarded_signals) (sig_ignored (reset_forwarded_signal_dispositions st)) =
         filter (\<lambda>n. n \<notin> set forwarded_signals) (sig_ignored st)
   \<and> filter (\<lambda>n. n \<notin> set forwarded_signals) (sig_blocked (reset_forwarded_signal_dispositions st)) =
         filter (\<lambda>n. n \<notin> set forwarded_signals) (sig_blocked st)"
  by (cases s) (auto simp: reset_forwarded_signal_dispositions_def foldl_removeAll_ignored
      forwarded_signals_def)

text \<open>The documented behaviour of the system calls: a new descriptor is one that was not open.\<close>

definition fresh_fds :: "os_session \<Rightarrow> bool" where
  "fresh_fds os \<longleftrightarrow>
     (\<forall>fds sz m s. os_openpty os fds sz = Inr (m, s) \<longrightarrow> m \<notin> fds \<and> s \<notin> fds \<and> m \<noteq> s)
     \<and> (\<forall>fds fd d. os_dup os fds fd = Inr d \<longrightarrow> d \<notin> fds)"

lemma open_pty_cases:
  assumes "fresh_fds os"
  obtains e where "open_pty os fds sz = (Inl e, fds)"
  | m s where "open_pty os fds sz = (Inr (m, s), fds \<union> {m, s})" "m \<notin> fds" "s \<notin> fds" "m \<noteq> s"
proof (cases "os_openpty os fds sz")
  case (Inl e)
  then show ?thesis using that(1) by (simp add: open_pty_def)
next
  case (Inr ms)
  obtain m s where ms: "os_openpty os fds sz = Inr (m, s)" using Inr by (cases ms) auto
  then have fresh: "m \<notin> fds" "s \<notin> fds" "m \<noteq> s" using assms by (auto simp: fresh_fds_def)
  show ?thesis
  proof (cases "rbind (set_cloexec os m) (\<lambda>_. set_cloexec os s)")
    case (Inl e)
    have "fds \<union> {m, s} - {m, s} = fds" using fresh by auto
    then show ?thesis using that(1) ms Inl by (simp add: open_pty_def Let_def)
  next
    case (Inr u)
    then show ?thesis using that(2) [OF _ fresh] ms by (simp add: open_pty_def Let_def)
  qed
qed

text \<open>
  C32: the descriptors of a pty session: a successful spawn leaves exactly three new ones open, the
  stdin, stdout and resize handles of the session, never the slave; a failing one leaves the
  descriptor table as it was, with the one exception that a failure to duplicate the master
  leaves the slave open.
\<close>

theorem spawn_pty_descriptors:
  assumes "fresh_fds os" and "spawn_pty os fds req sz = (res, fds')"
  shows "(\<forall>sp. res = Inr sp \<longrightarrow> (\<exists>m out rsz. sp_stdin sp = Some (Fd m) \<and> sp_stdout sp = Fd out
            \<and> sp_resize sp = Some rsz \<and> distinct [m, out, rsz] \<and> {m, out, rsz} \<inter> fds = {}
            \<and> fds' = fds \<union> {m, out, rsz}))
    \<and> (\<forall>e. res = Inl e \<longrightarrow> fds' = fds \<or>
         (\<exists>m s. s \<notin> fds \<and> fds' = insert s fds \<and> (\<exists>opened. os_dup os opened m = Inl e)))"
proof (cases rule: open_pty_cases [OF assms(1), of fds sz])
  case (1 e)
  then show ?thesis using assms(2) by (auto simp: spawn_pty_def)
next
  case (2 m s)
  have dup: "d \<notin> opened" if "os_dup os opened fd = Inr d" for opened fd d
    using assms(1) that by (auto simp: fresh_fds_def)
  show ?thesis
  proof (cases "os_dup os (fds \<union> {m, s}) m")
    case (Inl e)
    then have "res = Inl e" "fds' = insert s fds"
      using assms(2) 2 by (auto simp: spawn_pty_def)
    then show ?thesis using Inl 2(3) by auto
  next
    case out: (Inr out)
    show ?thesis
    proof (cases "os_dup os (insert out (fds \<union> {m, s})) m")
      case (Inl e)
      then have "res = Inl e" "fds' = insert s fds"
        using assms(2) 2 out dup [OF out] by (auto simp: spawn_pty_def Let_def)
      then show ?thesis using Inl 2(3) by auto
    next
      case rsz: (Inr rsz)
      have "distinct [m, out, rsz]" "s \<notin> {m, out, rsz}" "{m, out, rsz} \<inter> fds = {}"
        using dup [OF out] dup [OF rsz] 2 by auto
      then show ?thesis
        using assms(2) 2 out rsz
        by (auto simp: spawn_pty_def Let_def split: sum.splits)
    qed
  qed
qed

definition sample_os :: os_session where
  "sample_os = \<lparr>os_openpty = (\<lambda>fds sz. if 7 \<in> fds \<or> 8 \<in> fds then Inl ''EMFILE'' else Inr (7, 8)),
     os_getfd = (\<lambda>_. Inr 0), os_setfd = (\<lambda>_ _. Inr ()),
     os_dup = (\<lambda>fds fd. if 9 \<in> fds then Inl ''EMFILE'' else Inr 9),
     os_spawn = (\<lambda>_. Inr 4242)\<rparr>"

theorem spawn_pty_descriptors_witness:
  "spawn_pty sample_os {0, 1, 2} \<lparr>req_cmd = ''sh'', req_args = [], req_cwd = ''/'', req_env = [],
       req_pty = None\<rparr> \<lparr>rows = 24, cols = 80\<rparr> = (Inl ''EMFILE'', {0, 1, 2, 8})
   \<and> (\<exists>m s. s \<notin> {0, 1, 2 :: nat} \<and> {0, 1, 2, 8} = insert s {0, 1, 2}
         \<and> (\<exists>opened. os_dup sample_os opened m = Inl ''EMFILE''))"
proof -
  have fresh: "fresh_fds sample_os" by (auto simp: fresh_fds_def sample_os_def split: if_splits)
  have run: "spawn_pty sample_os {0, 1, 2} \<lparr>req_cmd = ''sh'', req_args = [], req_cwd = ''/'', req_env = [],
       req_pty = None\<rparr> \<lparr>rows = 24, cols = 80\<rparr> = (Inl ''EMFILE'', {0, 1, 2, 8})"
    by (auto simp: spawn_pty_def open_pty_def set_cloexec_def sample_os_def result_simps)
  have "8 \<in> {0, 1, 2, 8 :: nat}" "8 \<notin> {0, 1, 2 :: nat}" by simp_all
  then have "{0, 1, 2, 8 :: nat} \<noteq> {0, 1, 2}" by metis
  with spec [OF conjunct2 [OF spawn_pty_descriptors [OF fresh run]], of "''EMFILE''", THEN mp, OF refl] run
  show ?thesis by (simp only: simp_thms)
qed

end
