(* ===== verification/Connection.thy ===== *)
theory Connection
  imports Session
begin

text \<open>
  One client connection of the keeper (\<open>src/keeper/connection.rs\<close>). Up to the spawn the handler
  is sequential (\<open>start_session\<close>); from there five threads run, joined by a channel: the reader
  of client frames, a pump per output stream, the waiter and the writer. They are the inductive
  relation \<open>conn_step\<close>, one rule per action of a thread, of the child process, or of another
  connection on the shared registry; every interleaving is a run of it.
\<close>

section \<open>The first frame\<close>

definition describe :: "spawn_request \<Rightarrow> string" where
  "describe req = (if req_args req = [] then req_cmd req
     else req_cmd req @ '' '' @ join '' '' (req_args req))"

definition session_summary_of :: "u64 \<times> session_info \<Rightarrow> session_summary" where
  "session_summary_of = (\<lambda>(sid, info). \<lparr>sum_id = sid, sum_command = si_command info,
     sum_started_unix = (if si_started info < 0 then 0 else word_of_int (si_started info))\<rparr>)"

text \<open>The dispatch on the first frame: a request to spawn, or at most one reply before the
  connection ends.\<close>

definition first_frame :: "registry \<Rightarrow> u64 \<Rightarrow> io_error + frame \<Rightarrow> frame list + spawn_request" where
  "first_frame reg uptime r = (case r of
      Inr (Spawn req) \<Rightarrow> Inr req
    | Inr Query \<Rightarrow> Inl [QueryResult \<lparr>uptime_secs = uptime,
          sessions = map session_summary_of (snapshot reg)\<rparr>]
    | Inr _ \<Rightarrow> Inl [SpawnErr ''expected Spawn or Query as the first frame'']
    | Inl _ \<Rightarrow> Inl [])"

definition start_session ::
  "(spawn_request \<Rightarrow> string + spawned_session) \<Rightarrow> int \<Rightarrow> u64 \<Rightarrow> registry \<Rightarrow> io_error + frame \<Rightarrow>
     (frame list + (u64 \<times> spawned_session)) \<times> registry" where
  "start_session backend now uptime reg r = (case first_frame reg uptime r of
      Inl replies \<Rightarrow> (Inl replies, reg)
    | Inr req \<Rightarrow> (case backend req of
        Inl message \<Rightarrow> (Inl [SpawnErr message], reg)
      | Inr spawned \<Rightarrow>
          (case registry_insert (sp_pgid spawned) (describe req) now reg of
             (sid, reg') \<Rightarrow> (Inr (sid, spawned), reg'))))"

text \<open>\<open>std::process::ExitStatus\<close> as \<open>wait\<close> returns it, and its projection onto the wire.\<close>

record os_exit_status =
  os_code :: "i32 option"
  os_signal :: "i32 option"

definition to_exit_status :: "string + os_exit_status \<Rightarrow> exit_status" where
  "to_exit_status r = (case r of
      Inr status \<Rightarrow> \<lparr>exit_code = os_code status, exit_signal = os_signal status\<rparr>
    | Inl _ \<Rightarrow> \<lparr>exit_code = None, exit_signal = None\<rparr>)"

section \<open>The running session\<close>

text \<open>An output stream of the session and the pump that reads it. \<open>produced\<close> is a history
  variable: every byte ever written to the stream.\<close>

record stream =
  st_buf :: bytes
  st_eof :: bool
  st_running :: bool
  st_failed :: bool
  st_produced :: bytes

datatype child_state = Alive | Zombie os_exit_status | Reaped
datatype wait_pc = JoinOut | JoinErr | Waiting | Removing exit_status | Sending exit_status | WaitDone
datatype main_pc =
    Reading | Checking | FirstCheck | Terminating | SecondCheck | Killing | Joining | JoinWriter | Closed
datatype writer_state = Writing | Broken | Drained
datatype kill_kind = Forwarded session_signal | EscalateTerm | EscalateKill

record conn =
  c_reg :: registry
  c_child :: child_state
  c_out :: stream
  c_err :: stream
  c_chan :: "frame list"
  c_sent :: "frame list"
  c_wire :: "frame list"
  c_writer :: writer_state
  c_wait :: wait_pc
  c_main :: main_pc
  c_in :: "frame list"
  c_stdin :: bool
  c_pty :: bool
  c_resizes :: "pty_size list"
  c_fed :: bytes
  c_kills :: "(kill_kind \<times> bool) list"

definition PUMP_BUF :: nat where
  "PUMP_BUF = 8192"

text \<open>The loop body of \<open>pump\<close>: read at most a buffer and send it, or stop. The flag tells whether
  the channel still has a receiver; the list is what was sent.\<close>

inductive pump_step :: "bool \<Rightarrow> (bytes \<Rightarrow> frame) \<Rightarrow> stream \<Rightarrow> frame list \<Rightarrow> stream \<Rightarrow> bool"
  for receiver :: bool and wrap :: "bytes \<Rightarrow> frame" where
  chunk: "\<lbrakk>st_running st; st_buf st = bs @ rest; bs \<noteq> []; length bs \<le> PUMP_BUF; receiver\<rbrakk> \<Longrightarrow>
    pump_step receiver wrap st [wrap bs] (st\<lparr>st_buf := rest\<rparr>)"
| no_receiver: "\<lbrakk>st_running st; st_buf st = bs @ rest; bs \<noteq> []; length bs \<le> PUMP_BUF; \<not> receiver\<rbrakk> \<Longrightarrow>
    pump_step receiver wrap st [] (st\<lparr>st_buf := rest, st_running := False, st_failed := True\<rparr>)"
| end_of_stream: "\<lbrakk>st_running st; st_buf st = []; st_eof st\<rbrakk> \<Longrightarrow>
    pump_step receiver wrap st [] (st\<lparr>st_running := False\<rparr>)"
| read_error: "st_running st \<Longrightarrow>
    pump_step receiver wrap st [] (st\<lparr>st_running := False, st_failed := True\<rparr>)"

text \<open>What the processes of the session do to the other end of a stream.\<close>

inductive produce :: "stream \<Rightarrow> stream \<Rightarrow> bool" where
  emit: "\<not> st_eof st \<Longrightarrow>
    produce st (st\<lparr>st_buf := st_buf st @ bs, st_produced := st_produced st @ bs\<rparr>)"
| hang_up: "produce st (st\<lparr>st_eof := True\<rparr>)"

definition record_kill :: "kill_kind \<Rightarrow> conn \<Rightarrow> conn" where
  "record_kill k c = c\<lparr>c_kills := c_kills c @ [(k, c_child c = Reaped)]\<rparr>"

text \<open>What the reader does with one client frame. The flag is whether the write to the child's
  stdin succeeds.\<close>

fun client_frame :: "bool \<Rightarrow> frame \<Rightarrow> conn \<Rightarrow> conn" where
  "client_frame ok (Stdin bs) c =
     (if c_stdin c then (if ok then c\<lparr>c_fed := c_fed c @ bs\<rparr> else c\<lparr>c_stdin := False\<rparr>) else c)"
| "client_frame ok StdinClosed c = c\<lparr>c_stdin := False\<rparr>"
| "client_frame ok (Resize sz) c = (if c_pty c then c\<lparr>c_resizes := c_resizes c @ [sz]\<rparr> else c)"
| "client_frame ok (Signal sig) c = record_kill (Forwarded sig) c"
| "client_frame ok _ c = c"

definition send :: "frame list \<Rightarrow> conn \<Rightarrow> conn" where
  "send fs c = (if c_writer c = Writing then c\<lparr>c_chan := c_chan c @ fs, c_sent := c_sent c @ fs\<rparr> else c)"

inductive conn_step :: "u64 \<Rightarrow> conn \<Rightarrow> conn \<Rightarrow> bool" for sid :: u64 where
  child_out: "produce (c_out c) st \<Longrightarrow> conn_step sid c (c\<lparr>c_out := st\<rparr>)"
| child_err: "produce (c_err c) st \<Longrightarrow> conn_step sid c (c\<lparr>c_err := st\<rparr>)"
| child_exit: "c_child c = Alive \<Longrightarrow> conn_step sid c (c\<lparr>c_child := Zombie status\<rparr>)"
| foreign: "\<lbrakk>op \<noteq> RegRemove sid; has_room (c_reg c)\<rbrakk> \<Longrightarrow>
    conn_step sid c (c\<lparr>c_reg := sessions.apply_op op (c_reg c)\<rparr>)"
| pump_out: "pump_step (c_writer c = Writing) Stdout (c_out c) fs st \<Longrightarrow>
    conn_step sid c (send fs (c\<lparr>c_out := st\<rparr>))"
| pump_err: "pump_step (c_writer c = Writing) Stderr (c_err c) fs st \<Longrightarrow>
    conn_step sid c (send fs (c\<lparr>c_err := st\<rparr>))"
| join_out: "\<lbrakk>c_wait c = JoinOut; \<not> st_running (c_out c)\<rbrakk> \<Longrightarrow> conn_step sid c (c\<lparr>c_wait := JoinErr\<rparr>)"
| join_err: "\<lbrakk>c_wait c = JoinErr; \<not> st_running (c_err c)\<rbrakk> \<Longrightarrow> conn_step sid c (c\<lparr>c_wait := Waiting\<rparr>)"
| reap: "\<lbrakk>c_wait c = Waiting; c_child c = Zombie status\<rbrakk> \<Longrightarrow>
    conn_step sid c (c\<lparr>c_child := Reaped, c_wait := Removing (to_exit_status (Inr status))\<rparr>)"
| wait_error: "c_wait c = Waiting \<Longrightarrow>
    conn_step sid c (c\<lparr>c_wait := Removing (to_exit_status (Inl e))\<rparr>)"
| unregister: "c_wait c = Removing status \<Longrightarrow>
    conn_step sid c (c\<lparr>c_reg := snd (registry_remove sid (c_reg c)), c_wait := Sending status\<rparr>)"
| send_exit: "c_wait c = Sending status \<Longrightarrow>
    conn_step sid c (send [Exit status] (c\<lparr>c_wait := WaitDone\<rparr>))"
| write_ok: "\<lbrakk>c_writer c = Writing; c_chan c = f # fs\<rbrakk> \<Longrightarrow>
    conn_step sid c (c\<lparr>c_chan := fs, c_wire := c_wire c @ [f]\<rparr>)"
| write_fails: "\<lbrakk>c_writer c = Writing; c_chan c = f # fs\<rbrakk> \<Longrightarrow>
    conn_step sid c (c\<lparr>c_chan := [], c_writer := Broken\<rparr>)"
| writer_ends: "\<lbrakk>c_writer c = Writing; c_chan c = []; \<not> st_running (c_out c); \<not> st_running (c_err c);
      c_wait c = WaitDone\<rbrakk> \<Longrightarrow> conn_step sid c (c\<lparr>c_writer := Drained\<rparr>)"
| read_frame: "\<lbrakk>c_main c = Reading; c_in c = f # fs\<rbrakk> \<Longrightarrow>
    conn_step sid c (client_frame ok f (c\<lparr>c_in := fs, c_main := Checking\<rparr>))"
| read_err: "\<lbrakk>c_main c = Reading; c_in c = []\<rbrakk> \<Longrightarrow> conn_step sid c (c\<lparr>c_main := FirstCheck\<rparr>)"
| check: "c_main c = Checking \<Longrightarrow>
    conn_step sid c (c\<lparr>c_main := if registry_contains (c_reg c) sid then Reading else FirstCheck\<rparr>)"
| first_check: "c_main c = FirstCheck \<Longrightarrow>
    conn_step sid c (c\<lparr>c_main := if registry_contains (c_reg c) sid then Terminating else Joining\<rparr>)"
| terminate: "c_main c = Terminating \<Longrightarrow>
    conn_step sid c (record_kill EscalateTerm (c\<lparr>c_main := SecondCheck\<rparr>))"
| second_check: "c_main c = SecondCheck \<Longrightarrow>
    conn_step sid c (c\<lparr>c_main := if registry_contains (c_reg c) sid then Killing else Joining\<rparr>)"
| kill: "c_main c = Killing \<Longrightarrow>
    conn_step sid c (record_kill EscalateKill (c\<lparr>c_main := Joining\<rparr>))"
| join_wait: "\<lbrakk>c_main c = Joining; c_wait c = WaitDone\<rbrakk> \<Longrightarrow> conn_step sid c (c\<lparr>c_main := JoinWriter\<rparr>)"
| join_writer: "\<lbrakk>c_main c = JoinWriter; c_writer c \<noteq> Writing\<rbrakk> \<Longrightarrow> conn_step sid c (c\<lparr>c_main := Closed\<rparr>)"

text \<open>The state right after the threads are started, for a session with or without a separate
  stderr, with what the client will still send before it closes the connection.\<close>

definition new_stream :: "bool \<Rightarrow> stream" where
  "new_stream running = \<lparr>st_buf = [], st_eof = (\<not> running), st_running = running, st_failed = False, st_produced = []\<rparr>"

definition conn_init :: "registry \<Rightarrow> u64 \<Rightarrow> spawned_session \<Rightarrow> frame list \<Rightarrow> conn" where
  "conn_init reg sid spawned incoming = \<lparr>c_reg = reg, c_child = Alive, c_out = new_stream True,
     c_err = new_stream (sp_stderr spawned \<noteq> None), c_chan = [SpawnOk sid], c_sent = [SpawnOk sid],
     c_wire = [], c_writer = Writing, c_wait = JoinOut, c_main = Reading, c_in = incoming,
     c_stdin = (sp_stdin spawned \<noteq> None), c_pty = (sp_resize spawned \<noteq> None), c_resizes = [], c_fed = [], c_kills = []\<rparr>"

inductive conn_run :: "(spawn_request \<Rightarrow> string + spawned_session) \<Rightarrow> u64 \<Rightarrow> conn \<Rightarrow> bool"
  for backend sid where
  init: "\<lbrakk>start_session backend now uptime reg first = (Inr (sid, spawned), reg'); has_room reg\<rbrakk> \<Longrightarrow>
    conn_run backend sid (conn_init reg' sid spawned incoming)"
| step: "\<lbrakk>conn_run backend sid c; conn_step sid c c'\<rbrakk> \<Longrightarrow> conn_run backend sid c'"

section \<open>Lemmas: the invariants of a connection\<close>

lemmas conn_ops = send_def record_kill_def

lemma client_frame_fields [simp]:
  "c_reg (client_frame ok f c) = c_reg c" "c_out (client_frame ok f c) = c_out c"
  "c_err (client_frame ok f c) = c_err c" "c_chan (client_frame ok f c) = c_chan c"
  "c_sent (client_frame ok f c) = c_sent c" "c_wire (client_frame ok f c) = c_wire c"
  "c_writer (client_frame ok f c) = c_writer c" "c_wait (client_frame ok f c) = c_wait c"
  "c_main (client_frame ok f c) = c_main c" "c_in (client_frame ok f c) = c_in c"
  "c_child (client_frame ok f c) = c_child c"
  by (cases f; simp add: record_kill_def)+

lemma send_fields [simp]:
  "c_reg (send fs c) = c_reg c" "c_out (send fs c) = c_out c" "c_err (send fs c) = c_err c"
  "c_wire (send fs c) = c_wire c" "c_writer (send fs c) = c_writer c" "c_wait (send fs c) = c_wait c"
  "c_main (send fs c) = c_main c" "c_in (send fs c) = c_in c" "c_kills (send fs c) = c_kills c"
  "c_child (send fs c) = c_child c"
  "c_sent (send fs c) = c_sent c @ (if c_writer c = Writing then fs else [])"
  "c_chan (send fs c) = c_chan c @ (if c_writer c = Writing then fs else [])"
  by (simp_all add: send_def)

lemma record_kill_fields [simp]:
  "c_reg (record_kill k c) = c_reg c" "c_out (record_kill k c) = c_out c"
  "c_err (record_kill k c) = c_err c" "c_chan (record_kill k c) = c_chan c"
  "c_sent (record_kill k c) = c_sent c" "c_wire (record_kill k c) = c_wire c"
  "c_writer (record_kill k c) = c_writer c" "c_wait (record_kill k c) = c_wait c"
  "c_main (record_kill k c) = c_main c" "c_in (record_kill k c) = c_in c"
  "c_child (record_kill k c) = c_child c"
  "c_kills (record_kill k c) = c_kills c @ [(k, c_child c = Reaped)]"
  by (simp_all add: record_kill_def)

lemma conn_run_invariant:
  assumes run: "conn_run backend sid c"
    and init: "\<And>reg reg' now req spawned incoming. \<lbrakk>has_room reg;
        registry_insert (sp_pgid spawned) (describe req) now reg = (sid, reg')\<rbrakk> \<Longrightarrow>
        P (conn_init reg' sid spawned incoming)"
    and step: "\<And>c c'. \<lbrakk>conn_run backend sid c; P c; conn_step sid c c'\<rbrakk> \<Longrightarrow> P c'"
  shows "P c"
  using run
proof induction
  case (init now uptime reg first spawned reg' incoming)
  then show ?case
    using assms(2) by (auto simp: start_session_def split: sum.splits prod.splits)
qed (rule step)

text \<open>The registry: the session is registered exactly until the waiter removes it.\<close>

fun waiter_registered :: "wait_pc \<Rightarrow> bool" where
  "waiter_registered (Sending _) = False"
| "waiter_registered WaitDone = False"
| "waiter_registered _ = True"

definition inv_registry :: "u64 \<Rightarrow> conn \<Rightarrow> bool" where
  "inv_registry sid c \<longleftrightarrow> sid \<in> issued_ids (c_reg c)
     \<and> (registry_contains (c_reg c) sid \<longleftrightarrow> waiter_registered (c_wait c))"

lemma run_inv_registry: "conn_run backend sid c \<Longrightarrow> inv_registry sid c"
proof (erule conn_run_invariant)
  fix reg reg' now req incoming and spawned :: spawned_session
  assume room: "has_room reg"
    and ins: "registry_insert (sp_pgid spawned) (describe req) now reg = (sid, reg')"
  have "sid \<in> issued_ids reg'" using registry_insert_issued(2) [OF room ins] by simp
  moreover have "registry_contains reg' sid"
    using sessions.ins_mem [of "(sp_pgid spawned, describe req, now)" reg sid reg'] ins by simp
  ultimately show "inv_registry sid (conn_init reg' sid spawned incoming)"
    by (simp add: inv_registry_def conn_init_def)
next
  fix c c'
  assume inv: "inv_registry sid c" and "conn_step sid c c'"
  from this(2) show "inv_registry sid c'"
  proof cases
    case (foreign op)
    then show ?thesis using inv sessions.foreign_op [of sid "c_reg c" op]
      by (simp add: inv_registry_def)
  next
    case (unregister status)
    then show ?thesis using inv sessions.rem_mem sessions.rem_issued by (simp add: inv_registry_def)
  qed (use inv in \<open>auto simp: inv_registry_def\<close>)
qed

text \<open>The streams: nothing is lost between a stream and the channel, and a stopped pump has
  emptied its stream unless it failed.\<close>

definition out_bytes :: "frame list \<Rightarrow> bytes" where
  "out_bytes fs = concat (map (\<lambda>f. case f of Stdout bs \<Rightarrow> bs | _ \<Rightarrow> []) fs)"

definition err_bytes :: "frame list \<Rightarrow> bytes" where
  "err_bytes fs = concat (map (\<lambda>f. case f of Stderr bs \<Rightarrow> bs | _ \<Rightarrow> []) fs)"

definition stream_ok :: "bytes \<Rightarrow> stream \<Rightarrow> bool" where
  "stream_ok sent st \<longleftrightarrow>
     (\<not> st_failed st \<longrightarrow> sent @ st_buf st = st_produced st)
     \<and> (\<not> st_failed st \<longrightarrow> \<not> st_running st \<longrightarrow> st_buf st = [] \<and> st_eof st)"

lemma produce_stream_ok: "produce st st' \<Longrightarrow> stream_ok sent st \<Longrightarrow> stream_ok sent st'"
  by (erule produce.cases) (auto simp: stream_ok_def)


lemma pump_stream_ok:
  assumes "pump_step rcv wrap st fs st'" and "stream_ok sent st"
    and "\<And>bs. payload [wrap bs] = bs" and "payload [] = []"
  shows "stream_ok (sent @ payload fs) st'"
  using assms by cases (auto simp: stream_ok_def)

lemma pump_step_sends:
  "pump_step rcv wrap st fs st' \<Longrightarrow> st_running st \<and> (fs = [] \<or> rcv \<and> (\<exists>bs. fs = [wrap bs]))"
  by (erule pump_step.cases) auto

lemma payload_simps [simp]:
  "out_bytes (fs @ gs) = out_bytes fs @ out_bytes gs" "err_bytes (fs @ gs) = err_bytes fs @ err_bytes gs"
  "out_bytes [] = []" "err_bytes [] = []" "out_bytes [Stdout bs] = bs" "err_bytes [Stderr bs] = bs"
  "out_bytes [Stderr bs] = []" "err_bytes [Stdout bs] = []"
  "out_bytes [Exit st] = []" "err_bytes [Exit st] = []"
  "out_bytes [SpawnOk i] = []" "err_bytes [SpawnOk i] = []"
  by (simp_all add: out_bytes_def err_bytes_def)

definition inv_streams :: "conn \<Rightarrow> bool" where
  "inv_streams c \<longleftrightarrow> stream_ok (out_bytes (c_sent c)) (c_out c) \<and> stream_ok (err_bytes (c_sent c)) (c_err c)
     \<and> (c_wait c \<noteq> JoinOut \<longrightarrow> \<not> st_running (c_out c))
     \<and> (c_wait c \<noteq> JoinOut \<and> c_wait c \<noteq> JoinErr \<longrightarrow> \<not> st_running (c_err c))"

lemma produce_running: "produce st st' \<Longrightarrow> st_running st' = st_running st"
  by (erule produce.cases) auto

lemma pump_stays_stopped: "pump_step rcv wrap st fs st' \<Longrightarrow> \<not> st_running st \<Longrightarrow> \<not> st_running st'"
  by (erule pump_step.cases) auto

lemma run_inv_streams: "conn_run backend sid c \<Longrightarrow> inv_streams c"
proof (erule conn_run_invariant)
  show "inv_streams (conn_init reg' sid spawned incoming)" for reg' spawned incoming
    by (auto simp: inv_streams_def stream_ok_def conn_init_def new_stream_def)
next
  fix c c'
  assume inv: "inv_streams c" and "conn_step sid c c'"
  from this(2) show "inv_streams c'"
  proof cases
    case (pump_out fs st)
    then have "fs = [] \<or> c_writer c = Writing \<and> (\<exists>bs. fs = [Stdout bs])"
      by (auto dest: pump_step_sends)
    then show ?thesis
      using inv pump_out pump_stream_ok [OF pump_out(2), of "out_bytes (c_sent c)" out_bytes]
        pump_stays_stopped [OF pump_out(2)]
      by (auto simp: inv_streams_def)
  next
    case (pump_err fs st)
    then have "fs = [] \<or> c_writer c = Writing \<and> (\<exists>bs. fs = [Stderr bs])"
      by (auto dest: pump_step_sends)
    then show ?thesis
      using inv pump_err pump_stream_ok [OF pump_err(2), of "err_bytes (c_sent c)" err_bytes]
        pump_stays_stopped [OF pump_err(2)]
      by (auto simp: inv_streams_def)
  qed (use inv in \<open>auto simp: inv_streams_def produce_stream_ok produce_running\<close>)
qed

text \<open>The wire: what was sent is the acknowledgement, then output, then at most the exit status;
  the writer has written a prefix of it.\<close>

fun is_output :: "frame \<Rightarrow> bool" where
  "is_output (Stdout _) = True"
| "is_output (Stderr _) = True"
| "is_output _ = False"

definition session_frames :: "u64 \<Rightarrow> bool \<Rightarrow> frame list \<Rightarrow> bool" where
  "session_frames sid exited fs \<longleftrightarrow> (\<exists>mid ex. fs = SpawnOk sid # mid @ ex \<and> list_all is_output mid
     \<and> (ex = [] \<or> exited \<and> (\<exists>status. ex = [Exit status])))"

lemma session_frames_output:
  assumes "session_frames sid False fs" and "is_output f"
  shows "session_frames sid e (fs @ [f])"
proof -
  obtain mid where "fs = SpawnOk sid # mid" "list_all is_output mid"
    using assms(1) by (auto simp: session_frames_def)
  then show ?thesis
    unfolding session_frames_def using assms(2) by (intro exI [of _ "mid @ [f]"] exI [of _ "[]"]) simp
qed

lemma session_frames_exit:
  assumes "session_frames sid False fs"
  shows "session_frames sid True (fs @ [Exit status])"
proof -
  obtain mid where "fs = SpawnOk sid # mid" "list_all is_output mid"
    using assms by (auto simp: session_frames_def)
  then show ?thesis
    unfolding session_frames_def by (intro exI [of _ mid] exI [of _ "[Exit status]"]) simp
qed

lemma session_frames_mono: "session_frames sid False fs \<Longrightarrow> session_frames sid e fs"
  unfolding session_frames_def by auto

definition inv_wire :: "u64 \<Rightarrow> conn \<Rightarrow> bool" where
  "inv_wire sid c \<longleftrightarrow> session_frames sid (c_wait c = WaitDone) (c_sent c)
     \<and> prefix (c_wire c) (c_sent c)
     \<and> (c_writer c \<noteq> Broken \<longrightarrow> c_sent c = c_wire c @ c_chan c)"

lemma run_inv_wire: "conn_run backend sid c \<Longrightarrow> inv_wire sid c"
proof (erule conn_run_invariant)
  show "inv_wire sid (conn_init reg' sid spawned incoming)" for reg' spawned incoming
    by (simp add: inv_wire_def conn_init_def session_frames_def)
next
  fix c c'
  assume inv: "inv_wire sid c" and "conn_step sid c c'" and run: "conn_run backend sid c"
  note streams = run_inv_streams [OF run]
  from \<open>conn_step sid c c'\<close> show "inv_wire sid c'"
  proof cases
    case (pump_out fs st)
    then have "c_wait c = JoinOut" using streams pump_step_sends by (fastforce simp: inv_streams_def)
    moreover have "fs = [] \<or> c_writer c = Writing \<and> (\<exists>bs. fs = [Stdout bs])"
      using pump_out by (auto dest: pump_step_sends)
    ultimately show ?thesis
      using inv pump_out by (auto simp: inv_wire_def session_frames_output simp flip: append_assoc)
  next
    case (pump_err fs st)
    then have "c_wait c \<noteq> WaitDone" using streams pump_step_sends by (fastforce simp: inv_streams_def)
    moreover have "fs = [] \<or> c_writer c = Writing \<and> (\<exists>bs. fs = [Stderr bs])"
      using pump_err by (auto dest: pump_step_sends)
    ultimately show ?thesis
      using inv pump_err by (auto simp: inv_wire_def session_frames_output simp flip: append_assoc)
  next
    case (send_exit status)
    then show ?thesis
      using inv by (auto simp: inv_wire_def session_frames_exit session_frames_mono simp flip: append_assoc)
  qed (use inv in \<open>auto simp: inv_wire_def intro: session_frames_mono\<close>)
qed

text \<open>Escalation: only after the client is gone, terminate before kill, each at most once.\<close>

definition escalations :: "conn \<Rightarrow> kill_kind list" where
  "escalations c = filter (\<lambda>k. k = EscalateTerm \<or> k = EscalateKill) (map fst (c_kills c))"

lemma escalations_simps [simp]:
  "escalations (client_frame ok f c) = escalations c"
  "escalations (send fs c) = escalations c"
  "escalations (record_kill EscalateTerm c) = escalations c @ [EscalateTerm]"
  "escalations (record_kill EscalateKill c) = escalations c @ [EscalateKill]"
  by (cases f) (simp_all add: escalations_def)

lemma escalations_update [simp]:
  "escalations (c\<lparr>c_reg := a1\<rparr>) = escalations c" "escalations (c\<lparr>c_child := a2\<rparr>) = escalations c"
  "escalations (c\<lparr>c_out := a3\<rparr>) = escalations c" "escalations (c\<lparr>c_err := a3\<rparr>) = escalations c"
  "escalations (c\<lparr>c_chan := a4\<rparr>) = escalations c" "escalations (c\<lparr>c_wire := a4\<rparr>) = escalations c"
  "escalations (c\<lparr>c_writer := a5\<rparr>) = escalations c" "escalations (c\<lparr>c_wait := a6\<rparr>) = escalations c"
  "escalations (c\<lparr>c_main := a7\<rparr>) = escalations c" "escalations (c\<lparr>c_in := a4\<rparr>) = escalations c"
  by (simp_all add: escalations_def)

fun main_escalated :: "main_pc \<Rightarrow> kill_kind list \<Rightarrow> bool" where
  "main_escalated SecondCheck ks = (ks = [EscalateTerm])"
| "main_escalated Killing ks = (ks = [EscalateTerm])"
| "main_escalated Joining ks = (ks = [] \<or> ks = [EscalateTerm] \<or> ks = [EscalateTerm, EscalateKill])"
| "main_escalated JoinWriter ks = (ks = [] \<or> ks = [EscalateTerm] \<or> ks = [EscalateTerm, EscalateKill])"
| "main_escalated Closed ks = (ks = [] \<or> ks = [EscalateTerm] \<or> ks = [EscalateTerm, EscalateKill])"
| "main_escalated _ ks = (ks = [])"

definition inv_main :: "conn \<Rightarrow> bool" where
  "inv_main c \<longleftrightarrow> main_escalated (c_main c) (escalations c)
     \<and> (c_main c = FirstCheck \<and> waiter_registered (c_wait c) \<longrightarrow> c_in c = [])
     \<and> (c_main c = Terminating \<or> escalations c \<noteq> [] \<longrightarrow> c_in c = [])
     \<and> (c_main c = JoinWriter \<or> c_main c = Closed \<longrightarrow> c_wait c = WaitDone)
     \<and> (c_main c = Closed \<longrightarrow> c_writer c \<noteq> Writing)"

lemma run_inv_main: "conn_run backend sid c \<Longrightarrow> inv_main c"
proof (erule conn_run_invariant)
  show "inv_main (conn_init reg' sid spawned incoming)" for reg' spawned incoming
    by (simp add: inv_main_def conn_init_def escalations_def)
next
  fix c c'
  assume inv: "inv_main c" and "conn_step sid c c'" and run: "conn_run backend sid c"
  have reg: "registry_contains (c_reg c) sid \<longleftrightarrow> waiter_registered (c_wait c)"
    using run_inv_registry [OF run] by (simp add: inv_registry_def)
  from \<open>conn_step sid c c'\<close> show "inv_main c'"
    by cases (use inv reg in \<open>auto simp: inv_main_def\<close>)
qed

section \<open>Properties of a connection\<close>

lemma exit_frame_is_last:
  assumes "session_frames sid e fs" and "prefix ws fs" and "Exit status \<in> set ws"
  shows "ws = fs \<and> e \<and> (\<exists>mid. fs = SpawnOk sid # mid @ [Exit status] \<and> list_all is_output mid)"
proof -
  obtain mid ex where fs: "fs = SpawnOk sid # mid @ ex" and mid: "list_all is_output mid"
    and ex: "ex = [] \<or> e \<and> (\<exists>st. ex = [Exit st])"
    using assms(1) by (auto simp: session_frames_def)
  have "Exit status \<notin> set (SpawnOk sid # mid)" using mid by (auto simp: list_all_iff)
  moreover have "Exit status \<in> set fs" using assms(2,3) by (metis set_mono_prefix subsetD)
  ultimately have e: e "ex = [Exit status]" using ex fs by auto
  have "\<not> prefix ws (SpawnOk sid # mid)"
    using assms(3) \<open>Exit status \<notin> set (SpawnOk sid # mid)\<close> set_mono_prefix by blast
  then have "ws = fs"
    using assms(2) unfolding fs e(2) by (metis append_Cons prefix_snoc)
  then show ?thesis using e fs mid by blast
qed

lemma exited_wire:
  assumes "conn_run backend sid c" and "Exit status \<in> set (c_wire c)"
  shows "(\<exists>mid. c_wire c = SpawnOk sid # mid @ [Exit status] \<and> list_all is_output mid)
    \<and> (\<not> st_failed (c_out c) \<longrightarrow> out_bytes (c_wire c) = st_produced (c_out c))
    \<and> (\<not> st_failed (c_err c) \<longrightarrow> err_bytes (c_wire c) = st_produced (c_err c))
    \<and> \<not> registry_contains (c_reg c) sid"
proof -
  have "session_frames sid (c_wait c = WaitDone) (c_sent c)" "prefix (c_wire c) (c_sent c)"
    using run_inv_wire [OF assms(1)] by (simp_all add: inv_wire_def)
  note last = exit_frame_is_last [OF this assms(2)]
  moreover have "\<not> registry_contains (c_reg c) sid"
    using last run_inv_registry [OF assms(1)] by (simp add: inv_registry_def)
  ultimately show ?thesis
    using run_inv_streams [OF assms(1)] by (auto simp: inv_streams_def stream_ok_def)
qed

text \<open>
  C1: whatever the interleaving of the threads of a connection, when the client receives the exit
  status it has received the acknowledgement first and the exit status last, with only output in
  between; that output is everything the session wrote, on each stream whose pump met no error;
  and the session is no longer in the registry.
\<close>

theorem exit_follows_all_output:
  assumes "conn_run backend sid c" and "Exit status \<in> set (c_wire c)"
  shows "(\<exists>mid. c_wire c = SpawnOk sid # mid @ [Exit status] \<and> list_all is_output mid)
    \<and> (\<not> st_failed (c_out c) \<longrightarrow> out_bytes (c_wire c) = st_produced (c_out c))
    \<and> (\<not> st_failed (c_err c) \<longrightarrow> err_bytes (c_wire c) = st_produced (c_err c))
    \<and> \<not> registry_contains (c_reg c) sid"
  by (rule exited_wire [OF assms])

text \<open>
  C16: a session is signalled by the keeper itself only once its client is gone, while it was still
  registered: a terminate first, a kill at most once after it. When the handler returns, the
  session is out of the registry, its pumps have stopped and nothing is left to write.
\<close>

theorem escalation_and_cleanup:
  assumes "conn_run backend sid c"
  shows "(escalations c = [] \<or> escalations c = [EscalateTerm] \<or> escalations c = [EscalateTerm, EscalateKill])
    \<and> (escalations c \<noteq> [] \<longrightarrow> c_in c = [])
    \<and> (c_main c = Closed \<longrightarrow> \<not> registry_contains (c_reg c) sid \<and> \<not> st_running (c_out c)
        \<and> \<not> st_running (c_err c) \<and> c_writer c \<noteq> Writing)"
proof -
  have "main_escalated (c_main c) (escalations c)" and main: "escalations c \<noteq> [] \<longrightarrow> c_in c = []"
    and "c_main c = Closed \<longrightarrow> c_wait c = WaitDone \<and> c_writer c \<noteq> Writing"
    using run_inv_main [OF assms] by (simp_all add: inv_main_def)
  moreover from this(1) have
    "escalations c = [] \<or> escalations c = [EscalateTerm] \<or> escalations c = [EscalateTerm, EscalateKill]"
    by (cases "c_main c") simp_all
  ultimately show ?thesis
    using run_inv_registry [OF assms] run_inv_streams [OF assms]
    by (auto simp: inv_registry_def inv_streams_def)
qed

section \<open>Concrete runs\<close>

definition sample_backend :: "spawn_request \<Rightarrow> string + spawned_session" where
  "sample_backend req = Inr \<lparr>sp_pgid = 4242, sp_stdin = Some Pipe, sp_stdout = Pipe, sp_stderr = None,
     sp_resize = None\<rparr>"

definition sample_request :: spawn_request where
  "sample_request = \<lparr>req_cmd = ''ls'', req_args = [], req_cwd = ''/'', req_env = [], req_pty = None\<rparr>"

definition sample_registry :: registry where
  "sample_registry = snd (registry_insert 4242 ''ls'' 0 registry_new)"

definition sample_conn :: conn where
  "sample_conn = conn_init sample_registry 1 (projr (sample_backend sample_request)) []"

lemma sample_conn_run: "conn_run sample_backend 1 sample_conn"
  unfolding sample_conn_def
  by (rule conn_run.init [where reg = registry_new and now = 0 and uptime = 0 and first = "Inr (Spawn sample_request)"])
     (simp_all add: start_session_def first_frame_def sample_backend_def sample_request_def describe_def
       sample_registry_def registry_insert_def Let_def has_room_def registry_new_def)

text \<open>The session wrote two bytes, closed its output and exited; its pump has drained the stream.\<close>

definition sample_stopped :: conn where
  "sample_stopped = sample_conn\<lparr>
     c_out := \<lparr>st_buf = [], st_eof = True, st_running = False, st_failed = False, st_produced = [104, 105]\<rparr>,
     c_chan := [SpawnOk 1, Stdout [104, 105]], c_sent := [SpawnOk 1, Stdout [104, 105]],
     c_wait := Waiting, c_child := Zombie \<lparr>os_code = Some 0, os_signal = None\<rparr>\<rparr>"

lemmas sample_defs = sample_conn_def conn_init_def sample_backend_def new_stream_def send_def PUMP_BUF_def

lemma sample_stopped_run: "conn_run sample_backend 1 sample_stopped"
proof -
  define st where "st = (\<lambda>b e r p. \<lparr>st_buf = b, st_eof = e, st_running = r, st_failed = False, st_produced = p :: bytes\<rparr>)"
  define c1 where "c1 = sample_conn\<lparr>c_out := st [104, 105] False True [104, 105]\<rparr>"
  define c2 where "c2 = send [Stdout [104, 105]] (c1\<lparr>c_out := st [] False True [104, 105]\<rparr>)"
  define c3 where "c3 = c2\<lparr>c_out := st [] True True [104, 105]\<rparr>"
  define c4 where "c4 = send [] (c3\<lparr>c_out := st [] True False [104, 105]\<rparr>)"
  define c5 where "c5 = c4\<lparr>c_wait := JoinErr\<rparr>"
  define c6 where "c6 = c5\<lparr>c_wait := Waiting\<rparr>"
  define c7 where "c7 = c6\<lparr>c_child := Zombie \<lparr>os_code = Some 0, os_signal = None\<rparr>\<rparr>"
  have "produce (c_out sample_conn) (st [104, 105] False True [104, 105])"
    using produce.emit [of "c_out sample_conn" "[104, 105]"] by (simp add: sample_defs st_def)
  then have "conn_run sample_backend 1 c1"
    unfolding c1_def by (intro conn_run.step [OF sample_conn_run] conn_step.child_out)
  moreover have "pump_step (c_writer c1 = Writing) Stdout (c_out c1) [Stdout [104, 105]] (st [] False True [104, 105])"
    using pump_step.chunk [of "c_out c1" "[104, 105]" "[]" "c_writer c1 = Writing" Stdout]
    by (simp add: sample_defs st_def c1_def)
  ultimately have "conn_run sample_backend 1 c2"
    unfolding c2_def by (rule conn_run.step [OF _ conn_step.pump_out])
  moreover have "produce (c_out c2) (st [] True True [104, 105])"
    using produce.hang_up [of "c_out c2"] by (simp add: c2_def c1_def st_def)
  ultimately have "conn_run sample_backend 1 c3"
    unfolding c3_def by (rule conn_run.step [OF _ conn_step.child_out])
  moreover have "pump_step (c_writer c3 = Writing) Stdout (c_out c3) [] (st [] True False [104, 105])"
    using pump_step.end_of_stream [of "c_out c3"] by (simp add: c3_def st_def)
  ultimately have "conn_run sample_backend 1 c4"
    unfolding c4_def by (rule conn_run.step [OF _ conn_step.pump_out])
  then have "conn_run sample_backend 1 c5" unfolding c5_def
    by (rule conn_run.step [OF _ conn_step.join_out]) (simp_all add: c4_def c3_def c2_def c1_def st_def sample_defs)
  then have "conn_run sample_backend 1 c6" unfolding c6_def
    by (rule conn_run.step [OF _ conn_step.join_err]) (simp_all add: c5_def c4_def c3_def c2_def c1_def st_def sample_defs)
  then have "conn_run sample_backend 1 c7" unfolding c7_def
    by (rule conn_run.step [OF _ conn_step.child_exit])
       (simp_all add: c6_def c5_def c4_def c3_def c2_def c1_def st_def sample_defs)
  moreover have "c7 = sample_stopped"
    by (simp add: c7_def c6_def c5_def c4_def c3_def c2_def c1_def st_def sample_stopped_def sample_defs)
  ultimately show ?thesis by simp
qed

definition sample_exited :: conn where
  "sample_exited = sample_stopped\<lparr>c_child := Reaped, c_wait := WaitDone,
     c_reg := snd (registry_remove 1 (c_reg sample_stopped)), c_chan := [],
     c_sent := [SpawnOk 1, Stdout [104, 105], Exit \<lparr>exit_code = Some 0, exit_signal = None\<rparr>],
     c_wire := [SpawnOk 1, Stdout [104, 105], Exit \<lparr>exit_code = Some 0, exit_signal = None\<rparr>]\<rparr>"

lemma sample_exited_run: "conn_run sample_backend 1 sample_exited"
proof -
  define x where "x = \<lparr>exit_code = Some (0 :: i32), exit_signal = None :: i32 option\<rparr>"
  define c1 where "c1 = sample_stopped\<lparr>c_child := Reaped, c_wait := Removing x\<rparr>"
  define c2 where "c2 = c1\<lparr>c_reg := snd (registry_remove 1 (c_reg c1)), c_wait := Sending x\<rparr>"
  define c3 where "c3 = send [Exit x] (c2\<lparr>c_wait := WaitDone\<rparr>)"
  define c4 where "c4 = c3\<lparr>c_chan := [Stdout [104, 105], Exit x], c_wire := c_wire c3 @ [SpawnOk 1]\<rparr>"
  define c5 where "c5 = c4\<lparr>c_chan := [Exit x], c_wire := c_wire c4 @ [Stdout [104, 105]]\<rparr>"
  define c6 where "c6 = c5\<lparr>c_chan := [], c_wire := c_wire c5 @ [Exit x]\<rparr>"
  note defs = c6_def c5_def c4_def c3_def c2_def c1_def x_def sample_stopped_def sample_defs
  have "conn_run sample_backend 1 c1"
    using conn_run.step [OF sample_stopped_run conn_step.reap [of sample_stopped "\<lparr>os_code = Some 0, os_signal = None\<rparr>"]]
    by (simp add: sample_stopped_def c1_def x_def to_exit_status_def)
  then have "conn_run sample_backend 1 c2"
    unfolding c2_def by (rule conn_run.step [OF _ conn_step.unregister]) (simp_all add: c1_def)
  then have "conn_run sample_backend 1 c3"
    unfolding c3_def by (rule conn_run.step [OF _ conn_step.send_exit]) (simp_all add: c2_def)
  then have "conn_run sample_backend 1 c4"
    unfolding c4_def by (rule conn_run.step [OF _ conn_step.write_ok]) (simp_all add: defs)
  then have "conn_run sample_backend 1 c5"
    unfolding c5_def by (rule conn_run.step [OF _ conn_step.write_ok]) (simp_all add: defs)
  then have "conn_run sample_backend 1 c6"
    unfolding c6_def by (rule conn_run.step [OF _ conn_step.write_ok]) (simp_all add: defs)
  moreover have "c6 = sample_exited" by (simp add: sample_exited_def defs)
  ultimately show ?thesis by simp
qed

theorem exit_follows_all_output_witness:
  "out_bytes (c_wire sample_exited) = st_produced (c_out sample_exited)
   \<and> \<not> registry_contains (c_reg sample_exited) 1"
  using exit_follows_all_output [OF sample_exited_run, of "\<lparr>exit_code = Some 0, exit_signal = None\<rparr>"]
  by (simp add: sample_exited_def sample_stopped_def)

theorem escalation_and_cleanup_witness:
  "escalations sample_exited = [] \<or> escalations sample_exited = [EscalateTerm]
   \<or> escalations sample_exited = [EscalateTerm, EscalateKill]"
  using escalation_and_cleanup [OF sample_exited_run] by blast

text \<open>
  The check of the registry does not order the escalation before the reaping: there is a run
  in which the keeper sends its terminate signal to the session's process group after the
  session's process has been reaped, because the waiter reaps the process before it removes the
  session from the registry.
\<close>

theorem terminate_after_reap_possible:
  "\<exists>c. conn_run sample_backend 1 c \<and> (EscalateTerm, True) \<in> set (c_kills c)"
proof -
  define c1 where "c1 = sample_stopped\<lparr>c_main := FirstCheck\<rparr>"
  define c2 where "c2 = c1\<lparr>c_main := Terminating\<rparr>"
  define c3 where "c3 = c2\<lparr>c_child := Reaped, c_wait := Removing (to_exit_status (Inr \<lparr>os_code = Some 0, os_signal = None\<rparr>))\<rparr>"
  define c4 where "c4 = record_kill EscalateTerm (c3\<lparr>c_main := SecondCheck\<rparr>)"
  have "conn_run sample_backend 1 c1"
    unfolding c1_def by (intro conn_run.step [OF sample_stopped_run] conn_step.read_err)
      (simp_all add: sample_stopped_def sample_defs)
  moreover have "registry_contains (c_reg c1) 1"
    by (simp add: c1_def sample_stopped_def sample_defs sample_registry_def registry_contains_def
        registry_insert_def registry_new_def)
  ultimately have "conn_run sample_backend 1 c2"
    using conn_run.step [OF _ conn_step.first_check [of c1 1]] by (simp add: c2_def c1_def)
  then have "conn_run sample_backend 1 c3"
    unfolding c3_def by (rule conn_run.step [OF _ conn_step.reap])
      (simp_all add: c2_def c1_def sample_stopped_def sample_defs)
  then have "conn_run sample_backend 1 c4"
    unfolding c4_def by (rule conn_run.step [OF _ conn_step.terminate]) (simp_all add: c3_def c2_def)
  moreover have "(EscalateTerm, True) \<in> set (c_kills c4)" by (simp add: c4_def c3_def)
  ultimately show ?thesis by blast
qed

end
