(* ===== verification/Slug.thy ===== *)
theory Slug
  imports Prelude
begin

text \<open>
  Sandbox names (\<open>src/config/slug.rs\<close>): the validity check every state path goes
  through, and the suggestion offered for a name that fails it.
\<close>

section \<open>Model\<close>

definition MAX_LEN :: nat where
  "MAX_LEN = 32"

definition is_valid_name :: "string \<Rightarrow> bool" where
  "is_valid_name name =
     (if name = [] \<or> length name > MAX_LEN then False
      else case name of
          [] \<Rightarrow> False
        | first # _ \<Rightarrow>
            if \<not> is_ascii_lowercase first \<and> \<not> is_ascii_digit first then False
            else list_all (\<lambda>c. is_ascii_lowercase c \<or> is_ascii_digit c \<or> c = CHR ''-'') name)"

text \<open>One turn of the \<open>for c in name.chars()\<close> loop.\<close>

definition slug_push :: "string \<Rightarrow> char \<Rightarrow> string" where
  "slug_push slug c =
     (let lower = to_ascii_lowercase c
      in if is_ascii_lowercase lower \<or> is_ascii_digit lower then slug @ [lower]
         else if \<not> ends_with ''-'' slug \<and> slug \<noteq> [] then slug @ ''-''
         else slug)"

text \<open>\<open>while slug.ends_with('-') { slug.pop(); }\<close>\<close>

fun pop_dashes_rev :: "string \<Rightarrow> string" where
  "pop_dashes_rev [] = []"
| "pop_dashes_rev (c # cs) = (if c = CHR ''-'' then pop_dashes_rev cs else c # cs)"

definition pop_dashes :: "string \<Rightarrow> string" where
  "pop_dashes slug = rev (pop_dashes_rev (rev slug))"

definition slugify :: "string \<Rightarrow> string" where
  "slugify name =
     (let slug = foldl slug_push [] name;
          slug = pop_dashes slug;
          slug = take MAX_LEN slug;
          slug = pop_dashes slug
      in if slug = [] then ''sandbox'' else slug)"

section \<open>Lemmas\<close>

abbreviation slug_alnum :: "char \<Rightarrow> bool" where
  "slug_alnum c \<equiv> is_ascii_lowercase c \<or> is_ascii_digit c"

abbreviation slug_char :: "char \<Rightarrow> bool" where
  "slug_char c \<equiv> slug_alnum c \<or> c = CHR ''-''"

lemma is_valid_name_iff:
  "is_valid_name name \<longleftrightarrow>
     name \<noteq> [] \<and> length name \<le> MAX_LEN \<and> slug_alnum (hd name) \<and> (\<forall>c \<in> set name. slug_char c)"
  by (cases name) (auto simp: is_valid_name_def list_all_iff)

lemma valid_name_plain:
  assumes "is_valid_name name"
  shows "CHR ''/'' \<notin> set name" and "CHR ''.'' \<notin> set name" and "name \<noteq> []"
proof -
  have ok: "\<forall>c \<in> set name. slug_char c" and "name \<noteq> []"
    using assms by (simp_all add: is_valid_name_iff)
  have "\<not> slug_char CHR ''/''" "\<not> slug_char CHR ''.''"
    by (simp_all add: is_ascii_lowercase_def is_ascii_digit_def)
  then show "CHR ''/'' \<notin> set name" and "CHR ''.'' \<notin> set name"
    using ok by blast+
  show "name \<noteq> []" by fact
qed

text \<open>
  The shape every intermediate slug has: it starts with a letter or digit, uses only
  permitted characters and never has two dashes in a row.
\<close>

fun no_double_dash :: "string \<Rightarrow> bool" where
  "no_double_dash (a # b # cs) = (\<not> (a = CHR ''-'' \<and> b = CHR ''-'') \<and> no_double_dash (b # cs))"
| "no_double_dash _ = True"

definition slug_shape :: "string \<Rightarrow> bool" where
  "slug_shape s \<longleftrightarrow>
     (s = [] \<or> slug_alnum (hd s)) \<and> (\<forall>c \<in> set s. slug_char c) \<and> no_double_dash s"

lemma no_double_dash_append:
  "no_double_dash (xs @ [c]) \<longleftrightarrow>
     no_double_dash xs \<and> \<not> (xs \<noteq> [] \<and> last xs = CHR ''-'' \<and> c = CHR ''-'')"
proof (induction xs rule: no_double_dash.induct)
  case (1 a b cs)
  then show ?case by auto
qed auto

lemma no_double_dash_prefix: "no_double_dash (xs @ ys) \<Longrightarrow> no_double_dash xs"
proof (induction ys arbitrary: xs)
  case Nil
  then show ?case by simp
next
  case (Cons y ys)
  have "no_double_dash ((xs @ [y]) @ ys)" using Cons.prems by simp
  then have "no_double_dash (xs @ [y])" by (rule Cons.IH)
  then show ?case by (simp add: no_double_dash_append)
qed

lemma slug_shape_prefix:
  assumes "slug_shape (xs @ ys)"
  shows "slug_shape xs"
  using assms no_double_dash_prefix by (cases xs) (auto simp: slug_shape_def)

lemma ends_with_dash [simp]: "ends_with ''-'' s \<longleftrightarrow> s \<noteq> [] \<and> last s = CHR ''-''"
  by (cases s rule: rev_cases) (auto simp: ends_with_def)

lemma dash_not_alnum [simp]:
  "\<not> is_ascii_lowercase CHR ''-''" "\<not> is_ascii_digit CHR ''-''"
  by (simp_all add: is_ascii_lowercase_def is_ascii_digit_def)

lemma slug_push_shape: "slug_shape s \<Longrightarrow> slug_shape (slug_push s c)"
  by (cases s) (auto simp: slug_shape_def slug_push_def Let_def no_double_dash_append
        simp flip: append_Cons)

lemma foldl_slug_push_shape: "slug_shape s \<Longrightarrow> slug_shape (foldl slug_push s name)"
  by (induction name arbitrary: s) (auto simp: slug_push_shape)

lemma pop_dashes_rev_suffix: "\<exists>ds. s = ds @ pop_dashes_rev s"
proof (induction s)
  case (Cons c cs)
  then obtain ds where "cs = ds @ pop_dashes_rev cs" by blast
  then have "c # cs = (c # ds) @ pop_dashes_rev cs" by simp
  then show ?case by (cases "c = CHR ''-''") (auto intro: exI [of _ "c # ds"])
qed simp

lemma pop_dashes_rev_empty: "pop_dashes_rev s = [] \<Longrightarrow> set s \<subseteq> {CHR ''-''}"
  by (induction s) (auto split: if_splits)

lemma pop_dashes_prefix: "prefix (pop_dashes s) s"
proof -
  obtain ds where "rev s = ds @ pop_dashes_rev (rev s)"
    using pop_dashes_rev_suffix by blast
  then have "s = pop_dashes s @ rev ds"
    unfolding pop_dashes_def by (metis rev_append rev_rev_ident)
  then show ?thesis by (auto simp: prefix_def)
qed

lemma pop_dashes_rev_head: "pop_dashes_rev s \<noteq> [] \<Longrightarrow> hd (pop_dashes_rev s) \<noteq> CHR ''-''"
  by (induction s) auto

lemma pop_dashes_last: "pop_dashes s \<noteq> [] \<Longrightarrow> last (pop_dashes s) \<noteq> CHR ''-''"
  using pop_dashes_rev_head by (simp add: pop_dashes_def last_rev)

lemma pop_dashes_noop: "s = [] \<or> last s \<noteq> CHR ''-'' \<Longrightarrow> pop_dashes s = s"
  by (cases s rule: rev_cases) (auto simp: pop_dashes_def)

lemma pop_dashes_shape: "slug_shape s \<Longrightarrow> slug_shape (pop_dashes s)"
  using pop_dashes_prefix slug_shape_prefix by (metis prefix_def)

lemma take_shape: "slug_shape s \<Longrightarrow> slug_shape (take n s)"
  using slug_shape_prefix by (metis append_take_drop_id)

text \<open>A finished slug: the shape, the length and no trailing dash.\<close>

definition slug_done :: "string \<Rightarrow> bool" where
  "slug_done s \<longleftrightarrow> slug_shape s \<and> s \<noteq> [] \<and> length s \<le> MAX_LEN \<and> last s \<noteq> CHR ''-''"

lemma slugify_done: "slug_done (slugify name)"
proof -
  define t where "t = take MAX_LEN (pop_dashes (foldl slug_push [] name))"
  have shape: "slug_shape (pop_dashes t)"
    unfolding t_def
    by (intro pop_dashes_shape take_shape foldl_slug_push_shape) (simp add: slug_shape_def)
  have "length (pop_dashes t) \<le> length t"
    using pop_dashes_prefix prefix_length_le by blast
  then have len: "length (pop_dashes t) \<le> MAX_LEN"
    unfolding t_def by simp
  have eq: "slugify name = (if pop_dashes t = [] then ''sandbox'' else pop_dashes t)"
    by (simp add: slugify_def t_def Let_def)
  show ?thesis
  proof (cases "pop_dashes t = []")
    case True
    then show ?thesis
      using eq by (simp add: slug_done_def slug_shape_def MAX_LEN_def is_ascii_lowercase_def)
  next
    case False
    then show ?thesis
      using eq shape len pop_dashes_last by (simp add: slug_done_def)
  qed
qed

lemma slug_push_fixed:
  assumes "slug_shape (s @ [c])"
  shows "slug_push s c = s @ [c]"
proof (cases "c = CHR ''-''")
  case True
  have "\<not> is_ascii_uppercase c" "\<not> slug_alnum c"
    using True by (auto simp: is_ascii_uppercase_def is_ascii_lowercase_def is_ascii_digit_def)
  moreover have "s \<noteq> []" "last s \<noteq> CHR ''-''"
    using assms True calculation by (cases s; auto simp: slug_shape_def no_double_dash_append
        simp flip: append_Cons)+
  ultimately show ?thesis
    using True by (simp add: slug_push_def to_ascii_lowercase_def)
next
  case False
  then have alnum: "slug_alnum c" using assms by (auto simp: slug_shape_def)
  then have "\<not> is_ascii_uppercase c"
    by (auto simp: is_ascii_uppercase_def is_ascii_lowercase_def is_ascii_digit_def)
  then show ?thesis using alnum by (simp add: slug_push_def to_ascii_lowercase_def)
qed

lemma foldl_slug_push_fixed: "slug_shape s \<Longrightarrow> foldl slug_push [] s = s"
proof (induction s rule: rev_induct)
  case Nil
  then show ?case by simp
next
  case (snoc c s)
  then have "foldl slug_push [] s = s" using slug_shape_prefix by blast
  then show ?case using slug_push_fixed snoc.prems by simp
qed

lemma slugify_fixed: "slug_done s \<Longrightarrow> slugify s = s"
  by (simp add: slugify_def slug_done_def foldl_slug_push_fixed pop_dashes_noop)

lemma slugify_valid: "is_valid_name (slugify name)"
  using slugify_done [of name] by (auto simp: slug_done_def slug_shape_def is_valid_name_iff)

text \<open>
  The suggestion made for any text whatsoever is itself a name the check accepts, and
  suggesting again from a suggestion changes nothing.
\<close>

theorem slugify_valid_and_stable:
  "is_valid_name (slugify name) \<and> slugify (slugify name) = slugify name"
  using slugify_valid slugify_fixed [OF slugify_done] by simp

end
