(* ===== verification/EditDistance.thy ===== *)
theory EditDistance
  imports Main
begin

text \<open>
  The suggestion metric of manifest validation (\<open>edit_distance\<close> in
  \<open>src/config/validate.rs\<close>): the two-row dynamic program, and a proof that it
  computes the least cost of any alignment of the two texts.
\<close>

section \<open>Model\<close>

text \<open>
  One assignment of the inner loop, \<open>cur[j] = \<dots>\<close>, with \<open>ca = a[i - 1]\<close>; the loop
  runs \<open>j\<close> from 1 to \<open>b.len()\<close>.
\<close>

definition edit_cell :: "'a \<Rightarrow> 'a list \<Rightarrow> nat list \<Rightarrow> nat list \<Rightarrow> nat \<Rightarrow> nat list" where
  "edit_cell ca b prev cur j =
     (let cost = (if ca = b ! (j - 1) then 0 else 1)
      in cur[j := min (min (prev ! j + 1) (cur ! (j - 1) + 1)) (prev ! (j - 1) + cost)])"

definition edit_row :: "'a list \<Rightarrow> 'a list \<Rightarrow> nat list \<Rightarrow> nat \<Rightarrow> nat list" where
  "edit_row a b prev i =
     foldl (edit_cell (a ! (i - 1)) b prev) (replicate (length b + 1) i) [1 ..< length b + 1]"

definition edit_distance :: "'a list \<Rightarrow> 'a list \<Rightarrow> nat" where
  "edit_distance a b =
     foldl (edit_row a b) [0 ..< length b + 1] [1 ..< length a + 1] ! length b"

section \<open>Specification: alignments\<close>

text \<open>
  An alignment of cost \<open>n\<close> turns the first text into the second by keeping, replacing,
  deleting and inserting characters; replacing, deleting and inserting cost one each.
\<close>

inductive aligned :: "'a list \<Rightarrow> 'a list \<Rightarrow> nat \<Rightarrow> bool" where
  nil: "aligned [] [] 0"
| keep: "aligned xs ys n \<Longrightarrow> aligned (xs @ [x]) (ys @ [x]) n"
| replace: "aligned xs ys n \<Longrightarrow> x \<noteq> y \<Longrightarrow> aligned (xs @ [x]) (ys @ [y]) (Suc n)"
| delete: "aligned xs ys n \<Longrightarrow> aligned (xs @ [x]) ys (Suc n)"
| insert: "aligned xs ys n \<Longrightarrow> aligned xs (ys @ [y]) (Suc n)"

text \<open>The recurrence on prefix lengths that the table tabulates.\<close>

fun lev :: "'a list \<Rightarrow> 'a list \<Rightarrow> nat \<Rightarrow> nat \<Rightarrow> nat" where
  "lev a b 0 j = j"
| "lev a b (Suc i) 0 = Suc i"
| "lev a b (Suc i) (Suc j) =
     min (min (lev a b i (Suc j) + 1) (lev a b (Suc i) j + 1))
         (lev a b i j + (if a ! i = b ! j then 0 else 1))"

section \<open>The table computes the recurrence\<close>

lemma edit_cells:
  assumes "j \<le> length b" and "\<And>k. k \<le> length b \<Longrightarrow> prev ! k = lev a b i k"
  shows "length (foldl (edit_cell (a ! i) b prev) (replicate (length b + 1) (Suc i)) [1 ..< j + 1])
           = length b + 1
    \<and> (\<forall>k \<le> j. foldl (edit_cell (a ! i) b prev) (replicate (length b + 1) (Suc i)) [1 ..< j + 1] ! k
           = lev a b (Suc i) k)"
  using assms(1)
proof (induction j)
  case 0
  then show ?case by simp
next
  case (Suc j)
  define cur where
    "cur = foldl (edit_cell (a ! i) b prev) (replicate (length b + 1) (Suc i)) [1 ..< j + 1]"
  have IH: "length cur = length b + 1" "\<forall>k \<le> j. cur ! k = lev a b (Suc i) k"
    using Suc by (simp_all add: cur_def)
  have step: "foldl (edit_cell (a ! i) b prev) (replicate (length b + 1) (Suc i)) [1 ..< Suc j + 1]
      = edit_cell (a ! i) b prev cur (Suc j)"
    by (simp add: cur_def)
  have "prev ! Suc j = lev a b i (Suc j)" "prev ! j = lev a b i j"
    using assms(2) Suc.prems by simp_all
  then have "edit_cell (a ! i) b prev cur (Suc j) = cur[Suc j := lev a b (Suc i) (Suc j)]"
    using IH(2) by (simp add: edit_cell_def)
  then show ?case
    unfolding step using IH Suc.prems by (auto simp: nth_list_update le_Suc_eq)
qed

lemma edit_row_lev:
  assumes "\<And>k. k \<le> length b \<Longrightarrow> prev ! k = lev a b i k" and "k \<le> length b"
  shows "edit_row a b prev (Suc i) ! k = lev a b (Suc i) k"
  using edit_cells [OF order.refl assms(1)] assms(2) by (simp add: edit_row_def)

lemma edit_rows_lev:
  "k \<le> length b \<Longrightarrow> foldl (edit_row a b) [0 ..< length b + 1] [1 ..< i + 1] ! k = lev a b i k"
proof (induction i arbitrary: k)
  case 0
  then show ?case by (simp del: upt_Suc)
next
  case (Suc i)
  have "[1 ..< Suc i + 1] = [1 ..< i + 1] @ [Suc i]" by simp
  then show ?case
    using edit_row_lev [of b "foldl (edit_row a b) [0 ..< length b + 1] [1 ..< i + 1]" a i k]
      Suc by (simp del: upt_Suc)
qed

lemma edit_distance_lev: "edit_distance a b = lev a b (length a) (length b)"
  unfolding edit_distance_def by (rule edit_rows_lev) simp

section \<open>The recurrence is the least alignment cost\<close>

lemma take_Suc_snoc: "i < length xs \<Longrightarrow> take (Suc i) xs = take i xs @ [xs ! i]"
  by (rule take_Suc_conv_app_nth)

lemma aligned_deletes: "aligned xs [] (length xs)"
  by (induction xs rule: rev_induct) (auto intro: aligned.intros)

lemma aligned_inserts: "aligned [] ys (length ys)"
  by (induction ys rule: rev_induct) (auto intro: aligned.intros)

lemma lev_attained:
  "i \<le> length a \<Longrightarrow> j \<le> length b \<Longrightarrow> aligned (take i a) (take j b) (lev a b i j)"
proof (induction a b i j rule: lev.induct)
  case (1 a b j)
  then show ?case using aligned_inserts [of "take j b"] by (simp add: min_absorb2)
next
  case (2 a b i)
  then show ?case using aligned_deletes [of "take (Suc i) a"] by (simp add: min_absorb2)
next
  case (3 a b i j)
  have del: "aligned (take (Suc i) a) (take (Suc j) b) (lev a b i (Suc j) + 1)"
    using 3 aligned.delete by (simp add: take_Suc_snoc [of i a])
  have ins: "aligned (take (Suc i) a) (take (Suc j) b) (lev a b (Suc i) j + 1)"
    using 3 aligned.insert by (simp add: take_Suc_snoc [of j b])
  have sub: "aligned (take (Suc i) a) (take (Suc j) b)
      (lev a b i j + (if a ! i = b ! j then 0 else 1))"
    using 3 by (auto simp: take_Suc_snoc intro: aligned.keep aligned.replace)
  show ?case using del ins sub by (simp add: min_def)
qed

lemma lev_0_right [simp]: "lev a b i 0 = i"
  by (cases i) simp_all

lemma lev_least:
  "aligned xs ys n \<Longrightarrow> lev (xs @ as) (ys @ bs) (length xs) (length ys) \<le> n"
proof (induction arbitrary: as bs rule: aligned.induct)
  case nil
  then show ?case by simp
next
  case (keep xs ys n x)
  show ?case using keep.IH [of "x # as" "x # bs"] by (simp add: nth_append)
next
  case (replace xs ys n x y)
  show ?case using replace.IH [of "x # as" "y # bs"] replace.hyps by (simp add: nth_append)
next
  case (delete xs ys n x)
  show ?case using delete.IH [of "x # as" bs] by (cases "length ys") simp_all
next
  case (insert xs ys n y)
  show ?case using insert.IH [of as "y # bs"] by (cases "length xs") simp_all
qed

text \<open>
  C39: the two-row dynamic program computes the least cost of an alignment of the two texts:
  that cost is attained and no alignment is cheaper.
\<close>

theorem edit_distance_least_alignment:
  "aligned a b (edit_distance a b) \<and> (\<forall>n. aligned a b n \<longrightarrow> edit_distance a b \<le> n)"
  using lev_attained [of "length a" a "length b" b] lev_least [of a b _ "[]" "[]"]
  by (auto simp: edit_distance_lev)

theorem edit_distance_least_alignment_witness:
  "edit_distance ''netwrk'' ''network'' = 1 \<and> aligned ''netwrk'' ''network'' 1
     \<and> \<not> aligned ''netwrk'' ''network'' 0"
proof -
  have "edit_distance ''netwrk'' ''network'' = 1" by code_simp
  then show ?thesis
    using edit_distance_least_alignment [of "''netwrk''" "''network''"] by auto
qed

lemma aligned_sym: "aligned xs ys n \<Longrightarrow> aligned ys xs n"
  by (induction rule: aligned.induct) (auto intro: aligned.intros)

lemma edit_distance_sym: "edit_distance a b = edit_distance b a"
proof (rule order.antisym)
  show "edit_distance a b \<le> edit_distance b a" for a b :: "'a list"
    using lev_attained [of "length b" b "length a" a] lev_least [of a b _ "[]" "[]"] aligned_sym
    by (auto simp: edit_distance_lev)
  then show "edit_distance b a \<le> edit_distance a b" .
qed

lemma aligned_0_iff: "aligned xs ys n \<Longrightarrow> n = 0 \<Longrightarrow> xs = ys"
  by (induction rule: aligned.induct) auto

lemma aligned_refl: "aligned xs xs 0"
  by (induction xs rule: rev_induct) (auto intro: aligned.intros)

lemma edit_distance_0_iff [simp]: "edit_distance a b = 0 \<longleftrightarrow> a = b"
proof
  assume "edit_distance a b = 0"
  then have "aligned a b 0"
    using lev_attained [of "length a" a "length b" b] by (simp add: edit_distance_lev)
  then show "a = b" using aligned_0_iff by blast
next
  assume "a = b"
  then show "edit_distance a b = 0"
    using lev_least [OF aligned_refl, of b "[]" "[]"] by (simp add: edit_distance_lev)
qed

end
