(* ===== verification/Config.thy ===== *)
theory Config
  imports Provider Slug EditDistance
begin

text \<open>
  The sandbox manifest (\<open>src/config/\<close>): its data, the schema and path checks of
  \<open>validate.rs\<close>, the discovery walk of \<open>discovery.rs\<close> and the loader of
  \<open>mod.rs\<close>.  The TOML parser and serde's deserialisation are parameters of
  \<open>parse\<close>.
\<close>

section \<open>Model: the manifest\<close>

datatype network_default = Deny | Allow

record env_section =
  provider :: string
  vars :: "(string, string) btmap"

record filesystem_section =
  fs_allow :: "string list"
  fs_read :: "string list"
  fs_deny :: "string list"

record network_section =
  net_default :: network_default
  net_allow :: "string list"
  net_ports :: "16 word list"

record ssh_section =
  forward_agent :: bool

record hooks_section =
  post_create :: "string option"
  post_start :: "string option"

record manifest =
  sandbox_name :: string
  env :: env_section
  filesystem :: filesystem_section
  network :: network_section
  ssh :: ssh_section
  hooks :: hooks_section

definition ISOLATION_TIER :: string where
  "ISOLATION_TIER = ''process''"

definition default_env :: env_section where
  "default_env = \<lparr>provider = ''flox'', vars = []\<rparr>"

definition default_filesystem :: filesystem_section where
  "default_filesystem = \<lparr>fs_allow = [''.''], fs_read = [], fs_deny = []\<rparr>"

definition default_network :: network_section where
  "default_network = \<lparr>net_default = Deny, net_allow = [], net_ports = []\<rparr>"

definition default_ssh :: ssh_section where
  "default_ssh = \<lparr>forward_agent = False\<rparr>"

definition default_hooks :: hooks_section where
  "default_hooks = \<lparr>post_create = None, post_start = None\<rparr>"

record raw_sandbox =
  raw_name :: "string option"
  raw_isolation :: "string option"

record raw_manifest =
  raw_sandbox :: raw_sandbox
  raw_env :: env_section
  raw_filesystem :: filesystem_section
  raw_network :: network_section
  raw_ssh :: ssh_section
  raw_hooks :: hooks_section

definition default_raw_manifest :: raw_manifest where
  "default_raw_manifest =
     \<lparr>raw_sandbox = \<lparr>raw_name = None, raw_isolation = None\<rparr>, raw_env = default_env,
      raw_filesystem = default_filesystem, raw_network = default_network,
      raw_ssh = default_ssh, raw_hooks = default_hooks\<rparr>"

datatype config_error =
    NotFound
  | Io string
  | Parse string
  | UnknownKey string "string option"
  | MissingName
  | InvalidName string string
  | InvalidPath string string
  | UselessDeny string
  | InvalidProvider provider_error
  | RemovedIsolationTier string
  | InvalidIsolationTier string

datatype config_warning =
    SensitivePath string string
  | NoInterpolation

section \<open>Model: validation\<close>

text \<open>A TOML value; the texts of floats and datetimes are not interpreted.\<close>

datatype toml_value =
    TString string
  | TInteger int
  | TFloat string
  | TBoolean bool
  | TDatetime string
  | TArray "toml_value list"
  | TTable "(string \<times> toml_value) list"

type_synonym toml_table = "(string \<times> toml_value) list"

definition SECTIONS :: "(string \<times> string list) list" where
  "SECTIONS =
     [(''sandbox'', [''name'', ''isolation'']),
      (''env'', [''provider'', ''vars'']),
      (''filesystem'', [''allow'', ''read'', ''deny'']),
      (''network'', [''default'', ''allow'', ''ports'']),
      (''ssh'', [''forward_agent'']),
      (''hooks'', [''post_create'', ''post_start''])]"

definition max_distance :: "nat \<Rightarrow> nat" where
  "max_distance len = min 3 (max 1 (len div 2))"

text \<open>\<open>Iterator::min_by_key\<close>: the first of the elements with the least key.\<close>

fun min_by_key :: "('a \<Rightarrow> nat) \<Rightarrow> 'a list \<Rightarrow> 'a option" where
  "min_by_key f [] = None"
| "min_by_key f (x # xs) =
     (case min_by_key f xs of
        None \<Rightarrow> Some x
      | Some y \<Rightarrow> if f x \<le> f y then Some x else Some y)"

definition closest :: "string \<Rightarrow> string list \<Rightarrow> string option" where
  "closest key candidates =
     map_option fst
       (min_by_key snd
          (filter (\<lambda>(_, distance). distance \<le> max_distance (length key))
             (map (\<lambda>c. (c, edit_distance (chars key) (chars c))) candidates)))"

definition check_field :: "string \<Rightarrow> string list \<Rightarrow> string \<Rightarrow> config_error + unit" where
  "check_field key flds sub_key =
     (if \<not> List.member flds sub_key
      then Inl (UnknownKey (key @ ''.'' @ sub_key) (closest sub_key flds))
      else Inr ())"

definition check_section :: "string \<times> toml_value \<Rightarrow> config_error + unit" where
  "check_section kv =
     (case kv of (key, value) \<Rightarrow>
        (case find (\<lambda>(name, _). name = key) SECTIONS of
           None \<Rightarrow> Inl (UnknownKey key (closest key (map fst SECTIONS)))
         | Some (_, flds) \<Rightarrow>
             if key = ''env'' then Inr ()
             else (case value of
                 TTable sub \<Rightarrow> try_each (check_field key flds) (map fst sub)
               | _ \<Rightarrow> Inr ())))"

definition check_unknown_keys :: "toml_table \<Rightarrow> config_error + unit" where
  "check_unknown_keys table = try_each check_section table"

definition check_path :: "string \<Rightarrow> string \<Rightarrow> config_error + unit" where
  "check_path field value =
     (if value = [] \<or> List.member value (CHR 0x00) \<or> has_traversal value
      then Inl (InvalidPath field value) else Inr ())"

definition check_filesystem :: "filesystem_section \<Rightarrow> config_error + unit" where
  "check_filesystem fs =
     rbind
       (try_each (\<lambda>(field, values). try_each (check_path field) values)
          [(''allow'', fs_allow fs), (''read'', fs_read fs), (''deny'', fs_deny fs)])
       (\<lambda>_.
          let granted = fs_allow fs @ fs_read fs
          in try_each
               (\<lambda>deny. if \<not> list_ex (is_within deny) granted then Inl (UselessDeny deny) else Inr ())
               (fs_deny fs))"

definition collect_warnings ::
  "env_section \<Rightarrow> filesystem_section \<Rightarrow> config_warning list \<Rightarrow> config_warning list" where
  "collect_warnings e fs warnings =
     warnings
     @ map (SensitivePath ''allow'')
         (filter (\<lambda>path. list_ex (\<lambda>sensitive. is_within sensitive path) SENSITIVE_PATHS)
            (fs_allow fs))
     @ (if list_ex (\<lambda>v. List.member v (CHR ''$'')) (map snd (vars e)) then [NoInterpolation] else [])"

section \<open>Model: loading\<close>

text \<open>The \<open>toml\<close> crate and the serde-derived deserialiser; errors carry their text.\<close>

record toml_lib =
  parse_table :: "string \<Rightarrow> string + toml_table"
  into_raw :: "toml_table \<Rightarrow> string + raw_manifest"

definition check_isolation :: "string option \<Rightarrow> config_error + unit" where
  "check_isolation isolation =
     (case isolation of
        None \<Rightarrow> Inr ()
      | Some t \<Rightarrow>
          if t = ISOLATION_TIER then Inr ()
          else if t = ''hardened'' then Inl (RemovedIsolationTier ''hardened'')
          else Inl (InvalidIsolationTier t))"

definition parse :: "toml_lib \<Rightarrow> string \<Rightarrow> config_error + (manifest \<times> config_warning list)" where
  "parse lib text =
     rbind (map_err Parse (parse_table lib text)) (\<lambda>table.
     rbind (check_unknown_keys table) (\<lambda>_.
     rbind (map_err Parse (into_raw lib table)) (\<lambda>raw.
     rbind (ok_or MissingName (raw_name (raw_sandbox raw))) (\<lambda>name.
     if \<not> is_valid_name name then Inl (InvalidName name (slugify name))
     else
     rbind (map_err InvalidProvider (validate_provider (provider (raw_env raw)))) (\<lambda>_.
     rbind (check_isolation (raw_isolation (raw_sandbox raw))) (\<lambda>_.
     rbind (check_filesystem (raw_filesystem raw)) (\<lambda>_.
     let warnings = collect_warnings (raw_env raw) (raw_filesystem raw) [];
         env' = (raw_env raw)\<lparr>provider := normalize_provider_name (provider (raw_env raw))\<rparr>
     in Inr (\<lparr>sandbox_name = name, env = env', filesystem = raw_filesystem raw,
              network = raw_network raw, ssh = raw_ssh raw, hooks = raw_hooks raw\<rparr>,
             warnings))))))))"

text \<open>
  Discovery: a directory is its component list from the file-system root (innermost last);
  \<open>is_manifest\<close> and \<open>has_git\<close> are the two probes made in each directory.
\<close>

type_synonym dir = "string list"

function discover :: "(dir \<Rightarrow> bool) \<Rightarrow> (dir \<Rightarrow> bool) \<Rightarrow> dir \<Rightarrow> unit + dir" where
  "discover is_manifest has_git d =
     (if is_manifest d then Inr d
      else if has_git d then Inl ()
      else if d = [] then Inl ()
      else discover is_manifest has_git (butlast d))"
  by pat_completeness auto
termination
  by (relation "measure (\<lambda>(_, _, d). length d)") auto

declare discover.simps [simp del]

definition load ::
  "toml_lib \<Rightarrow> (dir \<Rightarrow> bool) \<Rightarrow> (dir \<Rightarrow> bool) \<Rightarrow> (dir \<Rightarrow> string + string) \<Rightarrow> dir \<Rightarrow>
   config_error + (manifest \<times> config_warning list)" where
  "load lib is_manifest has_git read_manifest start =
     rbind (map_err (\<lambda>_. NotFound) (discover is_manifest has_git start)) (\<lambda>d.
     rbind (map_err Io (read_manifest d)) (\<lambda>text.
     parse lib text))"

section \<open>Lemmas: suggestions and the schema\<close>

lemma min_by_key_None_iff [simp]: "min_by_key f xs = None \<longleftrightarrow> xs = []"
  by (cases xs) (auto split: option.splits)

lemma min_by_key_Some:
  "min_by_key f xs = Some x \<Longrightarrow> x \<in> set xs \<and> (\<forall>y \<in> set xs. f x \<le> f y)"
proof (induction xs arbitrary: x)
  case Nil
  then show ?case by simp
next
  case (Cons a xs)
  show ?case
  proof (cases "min_by_key f xs")
    case None
    then show ?thesis using Cons.prems by simp
  next
    case (Some y)
    then have "y \<in> set xs" "\<forall>z \<in> set xs. f y \<le> f z" using Cons.IH by auto
    then show ?thesis using Some Cons.prems by (auto split: if_splits intro: order.trans)
  qed
qed

abbreviation key_distance :: "string \<Rightarrow> string \<Rightarrow> nat" where
  "key_distance key c \<equiv> edit_distance (chars key) (chars c)"

lemma closest_Some:
  assumes "closest key candidates = Some c"
  shows "c \<in> set candidates" and "key_distance key c \<le> max_distance (length key)"
    and "\<forall>d \<in> set candidates. key_distance key c \<le> key_distance key d"
proof -
  obtain n where m: "min_by_key snd (filter (\<lambda>(_, distance). distance \<le> max_distance (length key))
      (map (\<lambda>c. (c, key_distance key c)) candidates)) = Some (c, n)"
    using assms by (auto simp: closest_def)
  from min_by_key_Some [OF m] have
    mem: "c \<in> set candidates" "n = key_distance key c" "n \<le> max_distance (length key)" and
    least: "\<forall>d \<in> set candidates. key_distance key d \<le> max_distance (length key) \<longrightarrow> n \<le> key_distance key d"
    by auto
  show "c \<in> set candidates" "key_distance key c \<le> max_distance (length key)"
    using mem by simp_all
  show "\<forall>d \<in> set candidates. key_distance key c \<le> key_distance key d"
    using mem least by (metis linorder_le_cases order.trans)
qed

lemma closest_None:
  "closest key candidates = None \<Longrightarrow> c \<in> set candidates \<Longrightarrow> max_distance (length key) < key_distance key c"
  by (auto simp: closest_def filter_empty_conv)

text \<open>
  A suggestion for an unknown manifest key is one of the known keys, is within the
  tolerated number of edits and is nearest among them; when none is offered, every known key
  is further away than tolerated.
\<close>

theorem closest_is_nearest:
  "case closest key candidates of
     Some c \<Rightarrow> c \<in> set candidates \<and> key_distance key c \<le> max_distance (length key)
       \<and> list_all (\<lambda>d. key_distance key c \<le> key_distance key d) candidates
   | None \<Rightarrow> list_all (\<lambda>c. max_distance (length key) < key_distance key c) candidates"
  using closest_Some [of key candidates] closest_None [of key candidates]
  by (auto simp: list_all_iff split: option.split)

definition known_section :: "string \<times> toml_value \<Rightarrow> bool" where
  "known_section kv =
     (case kv of (key, value) \<Rightarrow>
        (\<exists>flds. (key, flds) \<in> set SECTIONS \<and>
           (key = ''env'' \<or> (\<forall>sub. value = TTable sub \<longrightarrow> fst ` set sub \<subseteq> set flds))))"

lemma SECTIONS_distinct: "distinct (map fst SECTIONS)"
  by code_simp

lemma find_section_Some_iff:
  "find (\<lambda>(name, _). name = key) SECTIONS = Some (n, flds) \<longleftrightarrow> n = key \<and> (key, flds) \<in> set SECTIONS"
proof -
  have "find (\<lambda>(name, _). name = key) xs = Some (n, flds) \<longleftrightarrow> n = key \<and> map_of xs key = Some flds"
    for xs :: "(string \<times> string list) list"
    by (induction xs) auto
  then show ?thesis using SECTIONS_distinct by (simp add: map_of_eq_Some_iff)
qed

lemma find_section_None_iff:
  "find (\<lambda>(name, _). name = key) SECTIONS = None \<longleftrightarrow> (\<forall>flds. (key, flds) \<notin> set SECTIONS)"
  by (auto simp: find_None_iff)

lemma check_section_Ok_iff: "check_section kv = Inr () \<longleftrightarrow> known_section kv"
proof -
  obtain key val where kv: "kv = (key, val)" by (cases kv)
  show ?thesis
  proof (cases "find (\<lambda>(name, _). name = key) SECTIONS")
    case None
    then show ?thesis
      using find_section_None_iff [of key] by (auto simp: kv check_section_def known_section_def)
  next
    case (Some nf)
    then obtain flds where f: "find (\<lambda>(name, _). name = key) SECTIONS = Some (key, flds)"
      and mem: "(key, flds) \<in> set SECTIONS"
      using find_section_Some_iff by (cases nf) blast
    have uniq: "flds' = flds" if "(key, flds') \<in> set SECTIONS" for flds'
      using that mem SECTIONS_distinct by (metis map_of_is_SomeI option.inject)
    have "known_section kv \<longleftrightarrow>
        key = ''env'' \<or> (\<forall>sub. val = TTable sub \<longrightarrow> fst ` set sub \<subseteq> set flds)"
      unfolding kv known_section_def prod.case using mem uniq by blast
    moreover have "check_section kv = Inr () \<longleftrightarrow>
        key = ''env'' \<or> (\<forall>sub. val = TTable sub \<longrightarrow> fst ` set sub \<subseteq> set flds)"
      unfolding kv check_section_def prod.case f option.case
      by (cases val; cases "key = ''env''") (simp_all add: result_simps check_field_def image_subset_iff)
    ultimately show ?thesis by simp
  qed
qed

text \<open>
  The schema check accepts a manifest exactly when every top-level key is a known section
  and, except in \<open>[env]\<close>, every key of a section's table is one of its fields; nothing
  inside \<open>[env]\<close> is ever rejected.
\<close>

theorem check_unknown_keys_iff:
  "(check_unknown_keys table = Inr () \<longleftrightarrow> list_all known_section table)
   \<and> check_unknown_keys [(''env'', TTable sub)] = Inr ()"
proof -
  have "known_section (''env'', TTable sub)"
    by (auto simp: known_section_def SECTIONS_def)
  then show ?thesis
    by (auto simp: check_unknown_keys_def result_simps check_section_Ok_iff list_all_iff
        simp del: try_each.simps)
qed

section \<open>Lemmas: paths of the manifest\<close>

definition path_ok :: "string \<Rightarrow> bool" where
  "path_ok p \<longleftrightarrow> p \<noteq> [] \<and> CHR 0x00 \<notin> set p \<and> \<not> has_traversal p"

definition filesystem_ok :: "filesystem_section \<Rightarrow> bool" where
  "filesystem_ok fs \<longleftrightarrow>
     (\<forall>p \<in> set (fs_allow fs @ fs_read fs @ fs_deny fs). path_ok p)
     \<and> (\<forall>d \<in> set (fs_deny fs). path_containment.covered (fs_allow fs @ fs_read fs) d)"

lemma check_path_Ok_iff: "check_path field p = Inr () \<longleftrightarrow> path_ok p"
  by (auto simp: check_path_def path_ok_def)

lemma check_filesystem_Ok_iff: "check_filesystem fs = Inr () \<longleftrightarrow> filesystem_ok fs"
  by (auto simp: check_filesystem_def filesystem_ok_def result_simps check_path_Ok_iff
      path_containment.covered_def list_ex_iff Let_def split: if_splits simp del: try_each.simps)

section \<open>Lemmas: loading\<close>

text \<open>What the rest of the program may assume of a loaded manifest.\<close>

definition manifest_ok :: "manifest \<Rightarrow> bool" where
  "manifest_ok m \<longleftrightarrow>
     is_valid_name (sandbox_name m)
     \<and> (\<exists>kind. from_name (provider (env m)) = Inr kind \<and> static_name kind = provider (env m))
     \<and> filesystem_ok (filesystem m)"

lemma parse_Inr_iff:
  "parse lib text = Inr (m, ws) \<longleftrightarrow>
     (\<exists>table raw name.
        parse_table lib text = Inr table \<and> check_unknown_keys table = Inr () \<and>
        into_raw lib table = Inr raw \<and> raw_name (raw_sandbox raw) = Some name \<and>
        is_valid_name name \<and> validate_provider (provider (raw_env raw)) = Inr () \<and>
        check_isolation (raw_isolation (raw_sandbox raw)) = Inr () \<and>
        check_filesystem (raw_filesystem raw) = Inr () \<and>
        ws = collect_warnings (raw_env raw) (raw_filesystem raw) [] \<and>
        m = \<lparr>sandbox_name = name,
             env = (raw_env raw)\<lparr>provider := normalize_provider_name (provider (raw_env raw))\<rparr>,
             filesystem = raw_filesystem raw, network = raw_network raw,
             ssh = raw_ssh raw, hooks = raw_hooks raw\<rparr>)"
  unfolding parse_def
  by (auto simp: result_simps Let_def split: if_splits)

text \<open>
  C25: every manifest the loader returns has a valid sandbox name, names a provider that
  dispatch knows under that very name, holds only clean paths without traversal, and has no
  deny entry outside its grants; whatever the TOML library returned.
\<close>

theorem parse_manifest_ok:
  assumes "parse lib text = Inr (m, ws)"
  shows "manifest_ok m"
  using assms unfolding parse_Inr_iff
  by (auto simp: manifest_ok_def check_filesystem_Ok_iff dest: validated_name_dispatches)

definition sample_lib :: toml_lib where
  "sample_lib =
     \<lparr>parse_table = (\<lambda>_. Inr [(''sandbox'', TTable [(''name'', TString ''myproj'')]),
                             (''env'', TTable [(''provider'', TString ''flake'')])]),
      into_raw = (\<lambda>_. Inr (default_raw_manifest
         \<lparr>raw_sandbox := \<lparr>raw_name = Some ''myproj'', raw_isolation = None\<rparr>,
          raw_env := \<lparr>provider = ''flake'', vars = []\<rparr>\<rparr>))\<rparr>"

definition sample_manifest :: manifest where
  "sample_manifest =
     \<lparr>sandbox_name = ''myproj'', env = \<lparr>provider = ''nix'', vars = []\<rparr>,
      filesystem = default_filesystem, network = default_network, ssh = default_ssh,
      hooks = default_hooks\<rparr>"

lemma sample_parse: "parse sample_lib text = Inr (sample_manifest, [])"
proof -
  have "check_unknown_keys [(''sandbox'', TTable [(''name'', TString ''myproj'')]),
      (''env'', TTable [(''provider'', TString ''flake'')])] = Inr ()"
    by code_simp
  moreover have "is_valid_name ''myproj''" "validate_provider ''flake'' = Inr ()"
    "check_filesystem default_filesystem = Inr ()"
    "collect_warnings \<lparr>provider = ''flake'', vars = []\<rparr> default_filesystem [] = []"
    by code_simp+
  ultimately show ?thesis
    by (simp add: parse_def sample_lib_def sample_manifest_def default_raw_manifest_def
        check_isolation_def normalize_provider_name_def)
qed

theorem parse_manifest_ok_witness:
  "parse sample_lib ''x'' = Inr (sample_manifest, []) \<and> manifest_ok sample_manifest"
  using sample_parse parse_manifest_ok [OF sample_parse] by simp

lemma discover_Inr_iff:
  "discover is_manifest has_git d = Inr r \<longleftrightarrow>
     prefix r d \<and> is_manifest r \<and>
     (\<forall>e. prefix e d \<longrightarrow> strict_prefix r e \<longrightarrow> \<not> is_manifest e \<and> \<not> has_git e)"
proof (induction is_manifest has_git d rule: discover.induct)
  case (1 is_manifest has_git d)
  show ?case
  proof (cases "is_manifest d \<or> has_git d \<or> d = []")
    case True
    then show ?thesis
      by (subst discover.simps) (auto simp: strict_prefix_def dest: prefix_order.antisym)
  next
    case False
    then have IH: "discover is_manifest has_git (butlast d) = Inr r \<longleftrightarrow>
       prefix r (butlast d) \<and> is_manifest r \<and>
       (\<forall>e. prefix e (butlast d) \<longrightarrow> strict_prefix r e \<longrightarrow> \<not> is_manifest e \<and> \<not> has_git e)"
      using 1 by simp
    have pre: "prefix e d \<longleftrightarrow> e = d \<or> prefix e (butlast d)" for e
      using False by (metis append_butlast_last_id prefix_snoc)
    have lhs: "discover is_manifest has_git d = discover is_manifest has_git (butlast d)"
      using False by (subst discover.simps) simp
    show ?thesis
      unfolding lhs IH pre using False by (metis pre)
  qed
qed

text \<open>
  Discovery finds a manifest exactly in the nearest directory at or above the start that
  has one, provided no directory strictly below it holds a \<open>.git\<close> boundary.
\<close>

theorem discover_nearest_within_git:
  "discover is_manifest has_git d = Inr r \<longleftrightarrow>
     prefix r d \<and> is_manifest r \<and>
     list_all (\<lambda>e. \<not> (strict_prefix r e \<and> (is_manifest e \<or> has_git e))) (prefixes d)"
  unfolding discover_Inr_iff by (auto simp: list_all_iff)

lemma warning_iff:
  "SensitivePath field p \<in> set (collect_warnings e fs []) \<longleftrightarrow>
     field = ''allow'' \<and> p \<in> set (fs_allow fs) \<and> list_ex (\<lambda>s. is_within s p) SENSITIVE_PATHS"
  by (auto simp: collect_warnings_def)

end
