(* ===== verification/Policy.thy ===== *)
theory Policy
  imports Config
begin

text \<open>
  The policy compiler (\<open>src/policy/mod.rs\<close>): a manifest and the baseline become a
  \<open>compiled_policy\<close> whose every rule carries its origin; \<open>up\<close> folds in what only a
  running host knows (provider grants, the proxy port, the supervisor socket, the keeper's
  own directory).
\<close>

section \<open>Model: rules and their origins\<close>

text \<open>The two targets the sources distinguish by \<open>cfg(target_os)\<close>.\<close>

datatype target_os = Linux | Macos

definition DEVCROFT_DATA_DIR :: string where
  "DEVCROFT_DATA_DIR = ''~/.local/share/devcroft''"

fun KEEPER_SYSTEM_READ :: "target_os \<Rightarrow> string list" where
  "KEEPER_SYSTEM_READ Linux =
     [''/lib'', ''/lib64'', ''/lib/x86_64-linux-gnu'', ''/lib/aarch64-linux-gnu'',
      ''/usr/lib'', ''/usr/lib64'', ''/usr/lib/x86_64-linux-gnu'',
      ''/usr/lib/aarch64-linux-gnu'', ''/etc/ld.so.cache'', ''/dev/urandom'']"
| "KEEPER_SYSTEM_READ Macos =
     [''/usr/lib'', ''/System/Library'', ''/private/var/db/dyld'', ''/var/db/dyld'',
      ''/dev/urandom'']"

fun KEEPER_SYSTEM_READWRITE :: "target_os \<Rightarrow> string list" where
  "KEEPER_SYSTEM_READWRITE Linux = [''/dev/pts'', ''/dev/ptmx'', ''/dev/null'']"
| "KEEPER_SYSTEM_READWRITE Macos = [''/dev'']"

definition SIGNAL_MODE :: string where
  "SIGNAL_MODE = ''isolated''"

datatype origin = Manifest string | Provider string | Baseline

fun show_origin :: "origin \<Rightarrow> string" where
  "show_origin (Manifest key) = ''manifest:'' @ key"
| "show_origin (Provider name) = ''provider:'' @ name"
| "show_origin Baseline = ''baseline''"

record annotated_value =
  av_value :: string
  av_origin :: origin

record annotated_port =
  ap_value :: "16 word"
  ap_origin :: origin

abbreviation annotated :: "string \<Rightarrow> origin \<Rightarrow> annotated_value" where
  "annotated v o' \<equiv> \<lparr>av_value = v, av_origin = o'\<rparr>"

record compiled_policy =
  cp_sandbox_name :: string
  filesystem_allow :: "annotated_value list"
  filesystem_read :: "annotated_value list"
  filesystem_deny :: "annotated_value list"
  network_block :: bool
  network_allow_domain :: "annotated_value list"
  network_ports :: "annotated_port list"
  network_proxy_port :: "16 word option"
  unix_socket_bind :: "annotated_value list"
  signal_mode :: string

section \<open>Model: compilation\<close>

definition compile :: "target_os \<Rightarrow> manifest \<Rightarrow> compiled_policy" where
  "compile os m =
     (let granted = fs_allow (filesystem m) @ fs_read (filesystem m)
      in \<lparr>cp_sandbox_name = sandbox_name m,
          filesystem_allow =
            map (\<lambda>p. annotated p (Manifest ''filesystem.allow'')) (fs_allow (filesystem m))
            @ map (\<lambda>p. annotated p Baseline) (KEEPER_SYSTEM_READWRITE os),
          filesystem_read =
            map (\<lambda>p. annotated p (Manifest ''filesystem.read'')) (fs_read (filesystem m))
            @ map (\<lambda>p. annotated p Baseline) (KEEPER_SYSTEM_READ os),
          filesystem_deny =
            map (\<lambda>p. annotated p (Manifest ''filesystem.deny'')) (fs_deny (filesystem m))
            @ [annotated DEVCROFT_DATA_DIR Baseline]
            @ map (\<lambda>s. annotated s Baseline)
                (filter (\<lambda>s. \<not> list_ex (is_within s) granted) SENSITIVE_PATHS),
          network_block = (net_default (network m) = Deny),
          network_allow_domain =
            map (\<lambda>d. annotated d (Manifest ''network.allow'')) (net_allow (network m)),
          network_ports =
            map (\<lambda>p. \<lparr>ap_value = p, ap_origin = Manifest ''network.ports''\<rparr>) (net_ports (network m)),
          network_proxy_port = None,
          unix_socket_bind = [],
          signal_mode = SIGNAL_MODE\<rparr>)"

definition with_provider_grants ::
  "string \<Rightarrow> string list \<Rightarrow> compiled_policy \<Rightarrow> compiled_policy" where
  "with_provider_grants prov grants c =
     c\<lparr>filesystem_read := filesystem_read c @ map (\<lambda>g. annotated g (Provider prov)) grants\<rparr>"

definition wants_egress_proxy :: "compiled_policy \<Rightarrow> bool" where
  "wants_egress_proxy c = (network_block c \<and> network_allow_domain c \<noteq> [])"

definition wants_network_isolation :: "compiled_policy \<Rightarrow> bool \<Rightarrow> bool" where
  "wants_network_isolation c services_declared = network_block c"

definition proxy_port_collides_with_declared_ports :: "compiled_policy \<Rightarrow> 16 word \<Rightarrow> bool" where
  "proxy_port_collides_with_declared_ports c proxy_port =
     list_ex (\<lambda>p. ap_value p = proxy_port) (network_ports c)"

definition with_proxy_port :: "16 word \<Rightarrow> compiled_policy \<Rightarrow> compiled_policy" where
  "with_proxy_port port c = c\<lparr>network_proxy_port := Some port\<rparr>"

definition with_services_socket_grant ::
  "string \<Rightarrow> string \<Rightarrow> compiled_policy \<Rightarrow> compiled_policy" where
  "with_services_socket_grant prov socket c =
     c\<lparr>unix_socket_bind := unix_socket_bind c @ [annotated socket (Provider prov)]\<rparr>"

definition with_keeper_exe_grant :: "string \<Rightarrow> compiled_policy \<Rightarrow> compiled_policy" where
  "with_keeper_exe_grant exe_dir c =
     c\<lparr>filesystem_read := filesystem_read c @ [annotated exe_dir Baseline]\<rparr>"

lemmas policy_folds =
  with_provider_grants_def with_proxy_port_def with_services_socket_grant_def
  with_keeper_exe_grant_def

section \<open>Lemmas\<close>

abbreviation values_of :: "annotated_value list \<Rightarrow> string list" where
  "values_of \<equiv> map av_value"

lemma compile_simps [simp]:
  "cp_sandbox_name (compile os m) = sandbox_name m"
  "network_block (compile os m) \<longleftrightarrow> net_default (network m) = Deny"
  "network_proxy_port (compile os m) = None"
  "unix_socket_bind (compile os m) = []"
  "signal_mode (compile os m) = SIGNAL_MODE"
  "values_of (network_allow_domain (compile os m)) = net_allow (network m)"
  "network_allow_domain (compile os m) = [] \<longleftrightarrow> net_allow (network m) = []"
  "map ap_value (network_ports (compile os m)) = net_ports (network m)"
  by (simp_all add: compile_def Let_def comp_def)

lemma values_compile:
  "values_of (filesystem_allow (compile os m)) = fs_allow (filesystem m) @ KEEPER_SYSTEM_READWRITE os"
  "values_of (filesystem_read (compile os m)) = fs_read (filesystem m) @ KEEPER_SYSTEM_READ os"
  "values_of (filesystem_deny (compile os m)) =
     fs_deny (filesystem m) @ DEVCROFT_DATA_DIR #
     filter (\<lambda>s. \<not> path_containment.covered (fs_allow (filesystem m) @ fs_read (filesystem m)) s)
       SENSITIVE_PATHS"
  by (simp_all add: compile_def Let_def comp_def path_containment.covered_def)

text \<open>
  Each known credential directory is either covered by a grant of the manifest or denied by
  a baseline rule, never both and never neither, and devcroft's own data directory is always
  denied by a baseline rule.
\<close>

theorem compile_baseline_denials:
  "list_all (\<lambda>s. path_containment.covered (fs_allow (filesystem m) @ fs_read (filesystem m)) s \<noteq>
       (annotated s Baseline \<in> set (filesystem_deny (compile os m)))) SENSITIVE_PATHS
   \<and> annotated DEVCROFT_DATA_DIR Baseline \<in> set (filesystem_deny (compile os m))"
proof -
  have data: "DEVCROFT_DATA_DIR \<notin> set SENSITIVE_PATHS"
    by (simp add: DEVCROFT_DATA_DIR_def SENSITIVE_PATHS_def)
  show ?thesis
    using data unfolding list_all_iff
    by (auto simp: compile_def Let_def path_containment.covered_def)
qed

text \<open>
  The egress proxy is started exactly for the deny-by-default manifests that allow some
  host, and every such sandbox also gets a network namespace of its own; the two are not
  mutually exclusive.
\<close>

theorem egress_proxy_implies_isolation:
  "(wants_egress_proxy (compile os m) \<longleftrightarrow> net_default (network m) = Deny \<and> net_allow (network m) \<noteq> [])
   \<and> (wants_network_isolation (compile os m) sd \<longleftrightarrow> net_default (network m) = Deny)
   \<and> (wants_egress_proxy (compile os m) \<longrightarrow> wants_network_isolation (compile os m) sd)"
  by (auto simp: wants_egress_proxy_def wants_network_isolation_def)

definition filtered_manifest :: manifest where
  "filtered_manifest =
     sample_manifest\<lparr>network := \<lparr>net_default = Deny, net_allow = [''index.crates.io''], net_ports = []\<rparr>\<rparr>"

theorem egress_proxy_implies_isolation_witness:
  "wants_egress_proxy (compile Linux filtered_manifest)
   \<and> wants_network_isolation (compile Linux filtered_manifest) False"
  using egress_proxy_implies_isolation [of Linux filtered_manifest False]
  by (simp add: filtered_manifest_def)

end
