(* ===== verification/State.thy ===== *)
theory State
  imports Policy Registry
begin

text \<open>
  A sandbox's state directory and the bookkeeping of its processes
  (\<open>src/lifecycle/state.rs\<close>). The world is the part of the host the code reads and changes:
  a file system, the processes as \<open>/proc\<close> and \<open>kill(pid, 0)\<close> show them at successive moments,
  the sockets that accept a connection, the signals sent so far, and the project-supplied commands
  run as sessions so far, by name.
\<close>

section \<open>The file system\<close>

text \<open>A node that exists but cannot be used as the caller wants is \<open>Locked\<close>.\<close>

datatype fs_node = FileNode string | DirNode | LockedNode

type_synonym fs = "(string \<times> fs_node) list"

datatype fs_error = NotFound | InvalidInput string | BadData string | OtherError

text \<open>\<open>std::fs::read_to_string\<close>, \<open>write\<close>, \<open>rename\<close>, \<open>remove_file\<close>, \<open>create_dir_all\<close>, \<open>read_dir\<close>,
  \<open>remove_dir\<close> and \<open>remove_dir_all\<close>.\<close>

definition read_to_string :: "fs \<Rightarrow> string \<Rightarrow> fs_error + string" where
  "read_to_string fs p = (case map_of fs p of
      None \<Rightarrow> Inl NotFound | Some (FileNode s) \<Rightarrow> Inr s | Some _ \<Rightarrow> Inl OtherError)"

text \<open>\<open>read_to_string\<close> of a file the user wrote: it fails on a file that is not UTF-8.\<close>

definition read_text :: "fs \<Rightarrow> string \<Rightarrow> fs_error + string" where
  "read_text fs path = rbind (read_to_string fs path) (\<lambda>s.
     if utf8_valid s then Inr s else Inl (BadData ''stream did not contain valid UTF-8''))"

text \<open>\<open>Path::is_file\<close>: a locked node is a file that can be neither read nor written.\<close>

definition is_file :: "fs \<Rightarrow> string \<Rightarrow> bool" where
  "is_file fs p = (case map_of fs p of None \<Rightarrow> False | Some DirNode \<Rightarrow> False | Some _ \<Rightarrow> True)"

definition fs_parent :: "string \<Rightarrow> string" where
  "fs_parent p = join ''/'' (butlast (split_on CHR ''/'' p))"

definition is_dir :: "fs \<Rightarrow> string \<Rightarrow> bool" where
  "is_dir fs p = (p = [] \<or> map_of fs p = Some DirNode)"

definition fs_write :: "string \<Rightarrow> string \<Rightarrow> fs \<Rightarrow> (fs_error + unit) \<times> fs" where
  "fs_write p s fs =
     (if \<not> is_dir fs (fs_parent p) then (Inl NotFound, fs)
      else case map_of fs p of
        Some DirNode \<Rightarrow> (Inl OtherError, fs)
      | Some LockedNode \<Rightarrow> (Inl OtherError, fs)
      | _ \<Rightarrow> (Inr (), AList.update p (FileNode s) fs))"

definition dir_prefixes :: "string \<Rightarrow> string list" where
  "dir_prefixes p = (let cs = split_on CHR ''/'' p in
     filter (\<lambda>q. q \<noteq> []) (map (\<lambda>n. join ''/'' (take n cs)) [1 ..< Suc (length cs)]))"

definition create_dir_all :: "string \<Rightarrow> fs \<Rightarrow> (fs_error + unit) \<times> fs" where
  "create_dir_all p fs =
     (if list_ex (\<lambda>q. map_of fs q \<noteq> None \<and> \<not> is_dir fs q) (dir_prefixes p) then (Inl OtherError, fs)
      else (Inr (), foldl (\<lambda>fs q. if is_dir fs q then fs else AList.update q DirNode fs) fs (dir_prefixes p)))"

definition fs_rename :: "string \<Rightarrow> string \<Rightarrow> fs \<Rightarrow> (fs_error + unit) \<times> fs" where
  "fs_rename p q fs = (case map_of fs p of
      Some (FileNode s) \<Rightarrow>
        (if map_of fs q = Some DirNode then (Inl OtherError, fs)
         else (Inr (), AList.update q (FileNode s) (AList.delete p fs)))
    | None \<Rightarrow> (Inl NotFound, fs)
    | Some _ \<Rightarrow> (Inl OtherError, fs))"

definition remove_file :: "string \<Rightarrow> fs \<Rightarrow> (fs_error + unit) \<times> fs" where
  "remove_file p fs = (case map_of fs p of
      None \<Rightarrow> (Inl NotFound, fs)
    | Some (FileNode _) \<Rightarrow> (Inr (), AList.delete p fs)
    | Some _ \<Rightarrow> (Inl OtherError, fs))"

definition below :: "string \<Rightarrow> string \<Rightarrow> bool" where
  "below p q = starts_with (p @ ''/'') q"

definition read_dir :: "fs \<Rightarrow> string \<Rightarrow> fs_error + string list" where
  "read_dir fs p = (if is_dir fs p
     then Inr (filter (\<lambda>n. n \<noteq> [] \<and> \<not> List.member n CHR ''/'')
            (remdups (List.map_filter (\<lambda>(q, _). strip_prefix (p @ ''/'') q) fs)))
     else if map_of fs p = None then Inl NotFound else Inl OtherError)"

definition remove_dir :: "string \<Rightarrow> fs \<Rightarrow> (fs_error + unit) \<times> fs" where
  "remove_dir p fs = (case map_of fs p of
      None \<Rightarrow> (Inl NotFound, fs)
    | Some DirNode \<Rightarrow> (if list_ex (\<lambda>(q, _). below p q) fs then (Inl OtherError, fs)
        else (Inr (), AList.delete p fs))
    | Some _ \<Rightarrow> (Inl OtherError, fs))"

definition remove_dir_all :: "string \<Rightarrow> fs \<Rightarrow> (fs_error + unit) \<times> fs" where
  "remove_dir_all p fs = (case map_of fs p of
      None \<Rightarrow> (Inl NotFound, fs)
    | Some DirNode \<Rightarrow>
        (if list_ex (\<lambda>(q, n). below p q \<and> n = LockedNode) fs then (Inl OtherError, fs)
         else (Inr (), filter (\<lambda>(q, _). q \<noteq> p \<and> \<not> below p q) fs))
    | Some _ \<Rightarrow> (Inl OtherError, fs))"

section \<open>The processes and the world\<close>

record proc_view =
  pv_alive :: "int \<Rightarrow> bool"
  pv_stat :: "int \<Rightarrow> string option"

record world =
  w_fs :: fs
  w_view :: "nat \<Rightarrow> proc_view"
  w_now :: nat
  w_accepts :: "string \<Rightarrow> bool"
  w_signals :: "(nat \<times> int \<times> nat) list"
  w_ran :: "(string \<times> string) list"

abbreviation view_now :: "world \<Rightarrow> proc_view" where
  "view_now w \<equiv> w_view w (w_now w)"

text \<open>\<open>format!("{pid}")\<close> and \<open>str::parse::<i32>\<close>.\<close>

definition show_int :: "int \<Rightarrow> string" where
  "show_int i = (if i < 0 then CHR ''-'' # show_nat (nat (- i)) else show_nat (nat i))"

definition parse_i32 :: "string \<Rightarrow> int option" where
  "parse_i32 s = (case s of
      c # cs \<Rightarrow>
        if c = CHR ''-'' then
          (case cs of d # _ \<Rightarrow> if d = CHR ''+'' then None
               else map_option (\<lambda>n. - int n) (parse_unsigned 2147483648 cs)
             | [] \<Rightarrow> None)
        else map_option int (parse_unsigned 2147483647 s)
    | [] \<Rightarrow> None)"

definition parse_u64 :: "string \<Rightarrow> nat option" where
  "parse_u64 = parse_unsigned 18446744073709551615"

section \<open>The state directory\<close>

record state_paths =
  sp_root :: string
  sp_socket :: string
  sp_pidfile :: string
  sp_profile :: string
  sp_log :: string
  sp_meta :: string
  sp_ssh_socket :: string
  sp_ssh_host_key :: string
  sp_proxy_pidfile :: string
  sp_proxy_log :: string
  sp_proxy_socket :: string
  sp_lifecycle_lock :: string

definition in_dir :: "string \<Rightarrow> state_paths" where
  "in_dir dir = \<lparr>
     sp_root = dir,
     sp_socket = path_join dir ''control.sock'',
     sp_pidfile = path_join dir ''keeper.pid'',
     sp_profile = path_join dir ''profile.json'',
     sp_log = path_join dir ''keeper.log'',
     sp_meta = path_join dir ''meta.json'',
     sp_ssh_socket = path_join dir ''ssh.sock'',
     sp_ssh_host_key = path_join dir ''ssh_host_ed25519_key'',
     sp_proxy_pidfile = path_join dir ''proxy.pid'',
     sp_proxy_log = path_join dir ''proxy.log'',
     sp_proxy_socket = path_join dir ''proxy.sock'',
     sp_lifecycle_lock = path_join dir ''lifecycle.lock''\<rparr>"

text \<open>The argument is \<open>$HOME\<close>.\<close>

definition data_dir :: "string option \<Rightarrow> fs_error + string" where
  "data_dir home = (case home of
      None \<Rightarrow> Inl NotFound
    | Some h \<Rightarrow> Inr (path_join h ''.local/share/devcroft''))"

definition state_paths_new :: "string option \<Rightarrow> string \<Rightarrow> fs_error + state_paths" where
  "state_paths_new home name =
     (if \<not> is_valid_name name then
        Inl (InvalidInput ([CHR 0x27] @ name @ [CHR 0x27] @
          '' is not a valid sandbox name ([a-z0-9][a-z0-9-]{0,31})''))
      else rbind (data_dir home) (\<lambda>dir.
        Inr ((in_dir (path_join dir name))
               \<lparr>sp_lifecycle_lock := path_join dir (name @ ''.lock'')\<rparr>)))"

definition client_key_paths :: "string option \<Rightarrow> fs_error + (string \<times> string)" where
  "client_key_paths home = rbind (data_dir home) (\<lambda>dir.
     Inr (path_join dir ''id_ed25519'', path_join dir ''id_ed25519.pub''))"

section \<open>Identity and health of a process\<close>

text \<open>\<open>str::rfind(')')\<close>, as the text after the last parenthesis.\<close>

definition after_last_paren :: "string \<Rightarrow> string option" where
  "after_last_paren s = (if List.member s CHR '')'' then Some (last (split_on CHR '')'' s)) else None)"

fun process_start_time :: "target_os \<Rightarrow> proc_view \<Rightarrow> int \<Rightarrow> fs_error + nat" where
  "process_start_time Linux v pid = (case pv_stat v pid of
      None \<Rightarrow> Inl NotFound
    | Some stat \<Rightarrow> (case after_last_paren stat of
        None \<Rightarrow> Inl (BadData (''unexpected /proc/'' @ show_int pid @ ''/stat format: no ')' found''))
      | Some rest \<Rightarrow>
          let ws = split_whitespace rest in
          ok_or (BadData (''/proc/'' @ show_int pid @ ''/stat has no parseable starttime field''))
            (if 19 < length ws then parse_u64 (ws ! 19) else None)))"
| "process_start_time Macos v pid = Inr 0"

definition is_process_alive :: "proc_view \<Rightarrow> int \<Rightarrow> bool" where
  "is_process_alive v pid = pv_alive v pid"

definition is_same_process :: "target_os \<Rightarrow> proc_view \<Rightarrow> int \<Rightarrow> nat \<Rightarrow> bool" where
  "is_same_process os v pid recorded_start_time =
     (if recorded_start_time = 0 then is_process_alive v pid
      else case process_start_time os v pid of
        Inr current \<Rightarrow> current = recorded_start_time
      | Inl _ \<Rightarrow> False)"

definition parse_pidfile :: "string \<Rightarrow> (int \<times> nat) option" where
  "parse_pidfile s = (let parts = split_whitespace s;
       pid = (case parts of p # _ \<Rightarrow> parse_i32 p | [] \<Rightarrow> None);
       start_time = (case parts of _ # t # _ \<Rightarrow> parse_u64 t | _ \<Rightarrow> None)
     in case (pid, start_time) of (Some p, Some t) \<Rightarrow> Some (p, t) | _ \<Rightarrow> None)"

definition read_pidfile :: "fs \<Rightarrow> string \<Rightarrow> fs_error + (int \<times> nat) option" where
  "read_pidfile fs path = (case read_to_string fs path of
      Inr s \<Rightarrow> Inr (parse_pidfile s)
    | Inl NotFound \<Rightarrow> Inr None
    | Inl e \<Rightarrow> Inl e)"

definition write_pidfile :: "target_os \<Rightarrow> string \<Rightarrow> int \<Rightarrow> world \<Rightarrow> (fs_error + unit) \<times> world" where
  "write_pidfile os path pid w = (case process_start_time os (view_now w) pid of
      Inl e \<Rightarrow> (Inl e, w)
    | Inr t \<Rightarrow> (case fs_write path (show_int pid @ '' '' @ show_nat t) (w_fs w) of
        (r, fs') \<Rightarrow> (r, w\<lparr>w_fs := fs'\<rparr>)))"

datatype health = HealthNone | Healthy int | Stale int

definition health_of :: "target_os \<Rightarrow> world \<Rightarrow> state_paths \<Rightarrow> fs_error + health" where
  "health_of os w paths = rbind (read_pidfile (w_fs w) (sp_pidfile paths)) (\<lambda>recorded. (case recorded of
      None \<Rightarrow> Inr HealthNone
    | Some (pid, start_time) \<Rightarrow>
        if \<not> is_same_process os (view_now w) pid start_time then Inr (Stale pid)
        else if w_accepts w (sp_socket paths) then Inr (Healthy pid) else Inr (Stale pid)))"

definition clear_runtime_state :: "state_paths \<Rightarrow> fs \<Rightarrow> fs" where
  "clear_runtime_state paths fs =
     foldl (\<lambda>fs p. snd (remove_file p fs)) fs
       [sp_pidfile paths, sp_socket paths, sp_proxy_pidfile paths, sp_ssh_socket paths, sp_proxy_socket paths]"

section \<open>Termination\<close>

definition kill_process :: "int \<Rightarrow> nat \<Rightarrow> world \<Rightarrow> world" where
  "kill_process pid sig w = w\<lparr>w_signals := w_signals w @ [(w_now w, pid, sig)]\<rparr>"

text \<open>The polling loop: true when the process went away within the given number of polls.\<close>

fun await_exit :: "target_os \<Rightarrow> int \<Rightarrow> nat \<Rightarrow> nat \<Rightarrow> world \<Rightarrow> bool \<times> world" where
  "await_exit os pid start_time 0 w = (False, w)"
| "await_exit os pid start_time (Suc polls) w =
     (if \<not> is_same_process os (view_now w) pid start_time then (True, w)
      else await_exit os pid start_time polls (w\<lparr>w_now := w_now w + 1\<rparr>))"

definition terminate_and_wait_pid :: "target_os \<Rightarrow> int \<Rightarrow> nat \<Rightarrow> nat \<Rightarrow> world \<Rightarrow> world" where
  "terminate_and_wait_pid os pid start_time grace w =
     (let w = kill_process pid 15 w in
      case await_exit os pid start_time grace w of
        (True, w) \<Rightarrow> w
      | (False, w) \<Rightarrow>
          if is_same_process os (view_now w) pid start_time then kill_process pid 9 w else w)"

definition terminate_and_wait :: "target_os \<Rightarrow> string \<Rightarrow> nat \<Rightarrow> world \<Rightarrow> world" where
  "terminate_and_wait os pidfile grace w = (case read_pidfile (w_fs w) pidfile of
      Inr (Some (pid, start_time)) \<Rightarrow>
        if \<not> is_same_process os (view_now w) pid start_time then w
        else terminate_and_wait_pid os pid start_time grace w
    | _ \<Rightarrow> w)"

section \<open>Lemmas: words and pidfiles\<close>

definition plain_word :: "string \<Rightarrow> bool" where
  "plain_word w \<longleftrightarrow> w \<noteq> [] \<and> (\<forall>c \<in> set w. \<not> is_space c)"

lemma map_plain_word: "plain_word w \<Longrightarrow> map (\<lambda>c. if is_space c then CHR '' '' else c) w = w"
  by (simp add: plain_word_def map_idI)

lemma space_notin_plain: "plain_word w \<Longrightarrow> CHR '' '' \<notin> set w"
  by (auto simp: plain_word_def is_space_def)

lemma split_whitespace_word:
  "plain_word w \<Longrightarrow> split_whitespace w = [w]"
  by (simp add: split_whitespace_def map_plain_word split_on_no_delim space_notin_plain)
     (simp add: plain_word_def)

lemma split_whitespace_Cons_word:
  assumes "plain_word w"
  shows "split_whitespace (w @ CHR '' '' # s) = w # split_whitespace s"
proof -
  have "w \<noteq> []" using assms by (simp add: plain_word_def)
  then show ?thesis
    using split_on_append_delim [of "CHR '' ''" w "map (\<lambda>c. if is_space c then CHR '' '' else c) s"] assms
    by (simp add: split_whitespace_def map_plain_word split_on_no_delim space_notin_plain)
qed

lemma split_whitespace_space: "split_whitespace (CHR '' '' # s) = split_whitespace s"
  by (simp add: split_whitespace_def is_space_def)

lemma split_whitespace_join:
  "list_all plain_word ws \<Longrightarrow> split_whitespace (join '' '' ws) = ws"
  by (induction "'' ''" ws rule: join.induct)
     (simp_all add: split_whitespace_word split_whitespace_Cons_word, simp add: split_whitespace_def)

lemma digit_not_space: "is_ascii_digit c \<Longrightarrow> \<not> is_space c"
  by (auto simp: is_space_def is_ascii_digit_def)

lemma plain_show_nat [simp]: "plain_word (show_nat n)"
  by (simp add: plain_word_def digit_not_space show_nat_digits)

lemma plain_show_int [simp]: "plain_word (show_int i)"
proof -
  have "\<not> is_space CHR ''-''" by (simp add: is_space_def)
  then show ?thesis by (auto simp: plain_word_def show_int_def digit_not_space show_nat_digits)
qed

lemma show_nat_hd: "show_nat n = c # cs \<Longrightarrow> is_ascii_digit c"
  using show_nat_digits [of c n] by simp

lemma parse_i32_show_int:
  assumes "- 2147483648 \<le> pid" and "pid \<le> 2147483647"
  shows "parse_i32 (show_int pid) = Some pid"
proof (cases "pid < 0")
  case True
  obtain d ds where d: "show_nat (nat (- pid)) = d # ds"
    using show_nat_nonempty [of "nat (- pid)"] by (cases "show_nat (nat (- pid))") auto
  then have "d \<noteq> CHR ''+''" using show_nat_hd [OF d] by (auto simp: is_ascii_digit_def)
  then show ?thesis
    using True d assms(1) parse_unsigned_show_nat [of "nat (- pid)" 2147483648]
    by (simp add: parse_i32_def show_int_def)
next
  case False
  obtain d ds where d: "show_nat (nat pid) = d # ds"
    using show_nat_nonempty [of "nat pid"] by (cases "show_nat (nat pid)") auto
  then have "d \<noteq> CHR ''-''" using show_nat_hd [OF d] by (auto simp: is_ascii_digit_def)
  then show ?thesis
    using False d assms(2) parse_unsigned_show_nat [of "nat pid" 2147483647]
    by (simp add: parse_i32_def show_int_def)
qed

lemma parse_u64_bound: "parse_u64 s = Some n \<Longrightarrow> n \<le> 18446744073709551615"
  by (auto simp: parse_u64_def parse_unsigned_def Let_def split: if_splits option.splits)

lemma process_start_time_bound:
  "process_start_time os v pid = Inr t \<Longrightarrow> t \<le> 18446744073709551615"
  by (cases os) (auto simp: ok_or_def Let_def split: option.splits if_splits dest!: parse_u64_bound)

lemma fs_write_Ok:
  "fs_write p s fs = (Inr (), fs') \<Longrightarrow> fs' = AList.update p (FileNode s) fs"
  by (auto simp: fs_write_def split: if_splits option.splits fs_node.splits)

text \<open>What making a directory and writing a file leave alone.\<close>

lemma join_take_prefix: "prefix (join d (take n ws)) (join d ws)"
proof (induction ws arbitrary: n)
  case (Cons w ws)
  show ?case
  proof (cases n)
    case (Suc m)
    then show ?thesis using Cons [of m] by (cases ws; cases m) (auto simp: take_Cons')
  qed simp
qed simp

lemma dir_prefixes_prefix: "q \<in> set (dir_prefixes p) \<Longrightarrow> prefix q p"
  using join_take_prefix [of "''/''" _ "split_on CHR ''/'' p"]
  by (auto simp: dir_prefixes_def Let_def join_split_on)

lemma fs_parent_prefix: "prefix (fs_parent p) p"
  using join_take_prefix [of "''/''" _ "split_on CHR ''/'' p"]
  by (simp add: fs_parent_def butlast_conv_take join_split_on)

lemma make_dirs_keeps:
  "(map_of fs q = Some DirNode \<or> q \<notin> set ps) \<Longrightarrow>
     map_of (foldl (\<lambda>fs q. if is_dir fs q then fs else AList.update q DirNode fs) fs ps) q = map_of fs q"
  by (induction ps arbitrary: fs) (auto simp: update_conv' is_dir_def)

lemma create_dir_all_frame: "\<not> prefix q p \<Longrightarrow> map_of (snd (create_dir_all p fs)) q = map_of fs q"
proof -
  assume "\<not> prefix q p"
  then have "q \<notin> set (dir_prefixes p)" using dir_prefixes_prefix by blast
  then show ?thesis using make_dirs_keeps [of fs q] by (simp add: create_dir_all_def)
qed

lemma dir_prefixes_nonempty: "q \<in> set (dir_prefixes p) \<Longrightarrow> q \<noteq> []"
  by (auto simp: dir_prefixes_def Let_def)

lemma create_dir_all_keeps:
  assumes "map_of fs q \<noteq> None"
  shows "map_of (snd (create_dir_all p fs)) q = map_of fs q"
proof (cases "list_ex (\<lambda>q. map_of fs q \<noteq> None \<and> \<not> is_dir fs q) (dir_prefixes p)")
  case False
  then have "q \<in> set (dir_prefixes p) \<Longrightarrow> map_of fs q = Some DirNode"
    using assms dir_prefixes_nonempty [of q p] unfolding list_ex_iff is_dir_def by blast
  then show ?thesis using make_dirs_keeps [of fs q "dir_prefixes p"] False by (auto simp: create_dir_all_def)
qed (simp add: create_dir_all_def)

lemma make_dirs_new:
  "map_of (foldl (\<lambda>fs q. if is_dir fs q then fs else AList.update q DirNode fs) fs ps) q \<in> {map_of fs q, Some DirNode}"
proof (induction ps arbitrary: fs)
  case (Cons p ps)
  show ?case using Cons [of fs] Cons [of "AList.update p DirNode fs"] by (simp add: update_conv' split: if_splits)
qed simp

lemma create_dir_all_new: "map_of (snd (create_dir_all p fs)) q \<in> {map_of fs q, Some DirNode}"
  using make_dirs_new by (simp add: create_dir_all_def)

text \<open>
  What \<open>up\<close> records about a process is what a later command reads back: after a successful
  \<open>write_pidfile\<close> the file yields the pid with the start time the system reported for it at that
  moment, and that record identifies the same process then.
\<close>

theorem pidfile_roundtrip:
  assumes "write_pidfile os path pid w = (Inr (), w')"
    and "- 2147483648 \<le> pid" and "pid \<le> 2147483647"
  shows "\<exists>t. process_start_time os (view_now w) pid = Inr t
    \<and> read_pidfile (w_fs w') path = Inr (Some (pid, t))
    \<and> (0 < t \<longrightarrow> is_same_process os (view_now w') pid t)"
proof -
  obtain t where t: "process_start_time os (view_now w) pid = Inr t"
    using assms(1) by (auto simp: write_pidfile_def split: sum.splits)
  obtain fs' where "fs_write path (show_int pid @ '' '' @ show_nat t) (w_fs w) = (Inr (), fs')"
    and w': "w' = w\<lparr>w_fs := fs'\<rparr>"
    using assms(1) t by (auto simp: write_pidfile_def split: prod.splits)
  then have "read_to_string (w_fs w') path = Inr (show_int pid @ '' '' @ show_nat t)"
    using fs_write_Ok by (fastforce simp: read_to_string_def update_conv')
  moreover have "parse_u64 (show_nat t) = Some t"
    using process_start_time_bound [OF t] by (simp add: parse_u64_def parse_unsigned_show_nat)
  ultimately have "read_pidfile (w_fs w') path = Inr (Some (pid, t))"
    using parse_i32_show_int [OF assms(2,3)]
    by (simp add: read_pidfile_def parse_pidfile_def split_whitespace_Cons_word split_whitespace_word)
  then show ?thesis using t w' by (auto simp: is_same_process_def)
qed

text \<open>
  The start time is found whatever the process calls itself: the command name in
  \<open>/proc/<pid>/stat\<close> may contain blanks and parentheses, and field 22 is still the one read.
\<close>

theorem start_time_despite_command_name:
  assumes "pv_stat v pid = Some (show_int pid @ '' ('' @ comm @ '') '' @ join '' '' rest)"
    and "list_all (\<lambda>w. plain_word w \<and> CHR '')'' \<notin> set w) rest"
    and "19 < length rest" and "rest ! 19 = show_nat t" and "t < 2 ^ 64"
  shows "process_start_time Linux v pid = Inr t"
proof -
  have "CHR '')'' \<notin> set (join '' '' rest)"
    using assms(2) by (induction "'' ''" rest rule: join.induct) auto
  then have "after_last_paren (show_int pid @ '' ('' @ comm @ '') '' @ join '' '' rest) =
      Some (CHR '' '' # join '' '' rest)"
    using split_on_append_delim [of "CHR '')''" "show_int pid @ '' ('' @ comm" "CHR '' '' # join '' '' rest"]
    by (simp add: after_last_paren_def split_on_no_delim)
  moreover have "split_whitespace (CHR '' '' # join '' '' rest) = rest"
    using assms(2) by (simp add: split_whitespace_space split_whitespace_join list_all_iff)
  moreover have "parse_u64 (show_nat t) = Some t"
    using assms(5) by (simp add: parse_u64_def parse_unsigned_show_nat)
  ultimately show ?thesis using assms by (simp add: ok_or_def)
qed

definition sample_view :: proc_view where
  "sample_view = \<lparr>pv_alive = (\<lambda>pid. pid = 42), pv_stat = (\<lambda>pid. if pid = 42
     then Some (show_int 42 @ '' ('' @ ''a) b (c'' @ '') '' @
        join '' '' ([''S''] @ replicate 18 ''0'' @ [''777'', ''5'']))
     else None)\<rparr>"

theorem start_time_despite_command_name_witness:
  "process_start_time Linux sample_view 42 = Inr 777"
proof (rule start_time_despite_command_name)
  show "pv_stat sample_view 42 = Some (show_int 42 @ '' ('' @ ''a) b (c'' @ '') '' @
      join '' '' ([''S''] @ replicate 18 ''0'' @ [''777'', ''5'']))"
    by (simp add: sample_view_def)
  show "list_all (\<lambda>w. plain_word w \<and> CHR '')'' \<notin> set w) ([''S''] @ replicate 18 ''0'' @ [''777'', ''5''])"
    by code_simp
  show "19 < length ([''S''] @ replicate 18 ''0'' @ [''777'', ''5''])" by simp
  show "([''S''] @ replicate 18 ''0'' @ [''777'', ''5'']) ! 19 = show_nat 777" by code_simp
qed simp

definition sample_world :: world where
  "sample_world = \<lparr>w_fs = [(''/s'', DirNode)], w_view = (\<lambda>_. sample_view), w_now = 0,
     w_accepts = (\<lambda>_. False), w_signals = [], w_ran = []\<rparr>"

theorem pidfile_roundtrip_witness:
  "\<exists>t. process_start_time Macos (view_now sample_world) 42 = Inr t
    \<and> read_pidfile (w_fs (snd (write_pidfile Macos ''/s/keeper.pid'' 42 sample_world))) ''/s/keeper.pid'' =
        Inr (Some (42, t))"
proof -
  have "fst (write_pidfile Macos ''/s/keeper.pid'' 42 sample_world) = Inr ()"
    by (simp add: write_pidfile_def sample_world_def fs_write_def is_dir_def fs_parent_def)
  then have "write_pidfile Macos ''/s/keeper.pid'' 42 sample_world =
      (Inr (), snd (write_pidfile Macos ''/s/keeper.pid'' 42 sample_world))"
    by (metis prod.collapse)
  from pidfile_roundtrip [OF this] show ?thesis by auto
qed

section \<open>Lemmas: signals\<close>

lemma await_exit_effect:
  "await_exit os pid st polls w = (gone, w') \<Longrightarrow>
     (\<exists>n. w' = w\<lparr>w_now := n\<rparr>) \<and> (gone \<longrightarrow> \<not> is_same_process os (view_now w') pid st)"
proof (induction os pid st polls w rule: await_exit.induct)
  case (1 os pid st w)
  then show ?case by (auto intro!: exI [of _ "w_now w"])
next
  case (2 os pid st polls w)
  then show ?case by (auto split: if_splits intro!: exI [of _ "w_now w"])
qed

text \<open>The signals a call sent, each with the moment it was sent at.\<close>

definition escalation_log :: "target_os \<Rightarrow> world \<Rightarrow> int \<Rightarrow> nat \<Rightarrow> (nat \<times> int \<times> nat) list \<Rightarrow> bool" where
  "escalation_log os w pid st log \<longleftrightarrow>
     list_all (\<lambda>(t, p, sig). p = pid \<and> is_same_process os (w_view w t) pid st) log
     \<and> (map (snd \<circ> snd) log = [15, 9]
        \<or> map (snd \<circ> snd) log = [15] \<and> (\<exists>t. \<not> is_same_process os (w_view w t) pid st))"

lemma terminate_and_wait_pid_log:
  assumes "is_same_process os (view_now w) pid st"
  obtains log n where "terminate_and_wait_pid os pid st grace w = w\<lparr>w_now := n, w_signals := w_signals w @ log\<rparr>"
    and "escalation_log os w pid st log"
proof -
  obtain gone w' where await: "await_exit os pid st grace (kill_process pid 15 w) = (gone, w')" by fastforce
  then obtain n where w': "w' = (kill_process pid 15 w)\<lparr>w_now := n\<rparr>"
    and gone: "gone \<longrightarrow> \<not> is_same_process os (view_now w') pid st"
    using await_exit_effect by metis
  have view: "view_now w' = w_view w n" by (simp add: w' kill_process_def)
  show ?thesis
  proof (cases "\<not> gone \<and> is_same_process os (w_view w n) pid st")
    case True
    then show ?thesis
      using that [of "[(w_now w, pid, 15), (n, pid, 9)]" n] assms await view
      by (simp add: terminate_and_wait_pid_def Let_def escalation_log_def kill_process_def w')
  next
    case False
    then have "terminate_and_wait_pid os pid st grace w = w'"
      using await view by (cases gone) (simp_all add: terminate_and_wait_pid_def Let_def)
    moreover have "\<exists>t. \<not> is_same_process os (w_view w t) pid st"
      using False gone view by auto
    ultimately show ?thesis
      using that [of "[(w_now w, pid, 15)]" n] assms
      by (simp add: escalation_log_def kill_process_def w')
  qed
qed

lemma terminate_and_wait_log:
  obtains log n where "terminate_and_wait os pidfile grace w = w\<lparr>w_now := n, w_signals := w_signals w @ log\<rparr>"
    and "log \<noteq> [] \<Longrightarrow> \<exists>pid st. read_pidfile (w_fs w) pidfile = Inr (Some (pid, st)) \<and> escalation_log os w pid st log"
    and "\<And>pid st. read_pidfile (w_fs w) pidfile = Inr (Some (pid, st)) \<Longrightarrow>
           is_same_process os (view_now w) pid st \<Longrightarrow> log \<noteq> []"
proof (cases "\<exists>pid st. read_pidfile (w_fs w) pidfile = Inr (Some (pid, st)) \<and> is_same_process os (view_now w) pid st")
  case True
  then obtain pid st where read: "read_pidfile (w_fs w) pidfile = Inr (Some (pid, st))"
    and same: "is_same_process os (view_now w) pid st" by blast
  obtain log n where "terminate_and_wait_pid os pid st grace w = w\<lparr>w_now := n, w_signals := w_signals w @ log\<rparr>"
    and "escalation_log os w pid st log"
    using terminate_and_wait_pid_log [OF same] by metis
  moreover from this(2) have "log \<noteq> []" by (auto simp: escalation_log_def)
  ultimately show ?thesis
    using that [of log n] read same by (simp add: terminate_and_wait_def)
next
  case False
  then have "terminate_and_wait os pidfile grace w = w\<lparr>w_now := w_now w, w_signals := w_signals w @ []\<rparr>"
    by (auto simp: terminate_and_wait_def split: sum.splits option.splits)
  then show ?thesis using that [of "[]" "w_now w"] False by blast
qed


section \<open>Lemmas: the state directory\<close>

definition state_files :: "state_paths \<Rightarrow> string list" where
  "state_files p = [sp_socket p, sp_pidfile p, sp_profile p, sp_log p, sp_meta p, sp_ssh_socket p,
     sp_ssh_host_key p, sp_proxy_pidfile p, sp_proxy_log p, sp_proxy_socket p]"

lemma below_append [simp]: "below p (p @ CHR ''/'' # s)"
  by (simp add: below_def starts_with_def)

lemma below_iff: "below p q \<longleftrightarrow> prefix (p @ ''/'') q"
  by (simp add: below_def starts_with_iff)

lemma path_join_plain:
  "CHR ''/'' \<notin> set (take 1 n) \<Longrightarrow> dir \<noteq> [] \<Longrightarrow> last dir \<noteq> CHR ''/'' \<Longrightarrow> path_join dir n = dir @ CHR ''/'' # n"
  by (cases n) (auto simp: path_join_def starts_with_def)

lemma data_dir_shape:
  "data_dir home = Inr dir \<Longrightarrow> dir \<noteq> [] \<and> last dir \<noteq> CHR ''/''"
  by (cases home) (auto simp: data_dir_def path_join_def starts_with_def split: if_splits)

lemma slash_segment:
  assumes "CHR ''/'' \<notin> set m" and "CHR ''/'' \<notin> set n" and "prefix (m @ ''/'') (n @ CHR ''/'' # s)"
  shows "m = n"
proof -
  obtain t where "m @ CHR ''/'' # t = n @ CHR ''/'' # s" using assms(3) by (auto simp: prefix_def)
  then have "takeWhile (\<lambda>c. c \<noteq> CHR ''/'') (m @ CHR ''/'' # t) = takeWhile (\<lambda>c. c \<noteq> CHR ''/'') (n @ CHR ''/'' # s)"
    by simp
  moreover have "\<And>c. c \<in> set m \<Longrightarrow> c \<noteq> CHR ''/''" "\<And>c. c \<in> set n \<Longrightarrow> c \<noteq> CHR ''/''"
    using assms(1,2) by auto
  ultimately show ?thesis by (simp add: takeWhile_append2)
qed

lemma below_sibling:
  assumes "CHR ''/'' \<notin> set m" and "CHR ''/'' \<notin> set n"
  shows "below (dir @ CHR ''/'' # m) (dir @ CHR ''/'' # n @ CHR ''/'' # s) \<longleftrightarrow> m = n"
    and "\<not> below (dir @ CHR ''/'' # m) (dir @ CHR ''/'' # n)"
proof -
  show "below (dir @ CHR ''/'' # m) (dir @ CHR ''/'' # n @ CHR ''/'' # s) \<longleftrightarrow> m = n"
    using slash_segment [OF assms] by (auto simp: below_iff)
  have "\<not> prefix (m @ ''/'') n" using assms(2) by (auto simp: prefix_def)
  then show "\<not> below (dir @ CHR ''/'' # m) (dir @ CHR ''/'' # n)" by (simp add: below_iff)
qed

lemma state_paths_new_Inr:
  assumes "state_paths_new home n = Inr p"
  obtains dir where "data_dir home = Inr dir" and "is_valid_name n" and "sp_root p = dir @ CHR ''/'' # n"
    and "sp_lifecycle_lock p = dir @ CHR ''/'' # n @ ''.lock''"
    and "\<And>f. f \<in> set (state_files p) \<Longrightarrow> \<exists>s. f = dir @ CHR ''/'' # n @ CHR ''/'' # s"
proof -
  obtain dir where dir: "data_dir home = Inr dir" and valid: "is_valid_name n"
    and p: "p = (in_dir (path_join dir n))\<lparr>sp_lifecycle_lock := path_join dir (n @ ''.lock'')\<rparr>"
    using assms by (auto simp: state_paths_new_def result_simps split: if_splits)
  note plain = valid_name_plain [OF valid] and shape = data_dir_shape [OF dir]
  have slash: "CHR ''/'' \<notin> set (take 1 n)" "CHR ''/'' \<notin> set (take 1 (n @ ''.lock''))"
    using plain by (cases n; auto)+
  have root: "path_join dir n = dir @ CHR ''/'' # n"
    and lock: "path_join dir (n @ ''.lock'') = dir @ CHR ''/'' # n @ ''.lock''"
    using path_join_plain [OF slash(1)] path_join_plain [OF slash(2)] shape by blast+
  have "last n \<noteq> CHR ''/''" using plain(1) last_in_set [OF plain(3)] by metis
  then have state_file: "path_join (dir @ CHR ''/'' # n) f = dir @ CHR ''/'' # n @ CHR ''/'' # f"
    if "CHR ''/'' \<notin> set (take 1 f)" for f
    using path_join_plain [OF that, of "dir @ CHR ''/'' # n"] plain(3) by simp
  show ?thesis
    by (rule that [OF dir valid]) (auto simp: p root lock in_dir_def state_files_def state_file)
qed

lemma fs_parent_append: "CHR ''/'' \<notin> set x \<Longrightarrow> fs_parent (dir @ CHR ''/'' # x) = dir"
  by (simp add: fs_parent_def split_on_append_delim split_on_no_delim join_split_on)

lemma state_file_not_lock:
  assumes "state_paths_new home n = Inr p" and "f \<in> set (state_files p)"
  shows "f \<noteq> sp_lifecycle_lock p" and "f \<noteq> fs_parent (sp_lifecycle_lock p)"
proof -
  obtain dir s where valid: "is_valid_name n" and lock: "sp_lifecycle_lock p = dir @ CHR ''/'' # n @ ''.lock''"
    and f: "f = dir @ CHR ''/'' # n @ CHR ''/'' # s"
    using state_paths_new_Inr [OF assms(1)] assms(2) by metis
  have "CHR ''/'' \<notin> set (n @ ''.lock'')" using valid_name_plain [OF valid] by auto
  then show "f \<noteq> fs_parent (sp_lifecycle_lock p)" using f lock by (simp add: fs_parent_append)
  show "f \<noteq> sp_lifecycle_lock p" by (simp add: f lock)
qed

text \<open>
  C15: every sandbox's state lives in its own directory directly under the data directory: a name
  that could escape it is refused, all state files lie below the sandbox's root, the lifecycle
  lock lies outside every root (so removing a sandbox keeps it), and no path of one sandbox lies
  in the directory of another.
\<close>

theorem state_paths_isolated:
  assumes "state_paths_new home n = Inr p"
  shows "is_valid_name n
    \<and> (\<exists>dir. data_dir home = Inr dir \<and> sp_root p = dir @ ''/'' @ n \<and> CHR ''/'' \<notin> set n \<and> CHR ''.'' \<notin> set n)
    \<and> list_all (below (sp_root p)) (state_files p)
    \<and> (\<forall>m q. state_paths_new home m = Inr q \<longrightarrow>
          \<not> below (sp_root q) (sp_lifecycle_lock p) \<and> sp_root q \<noteq> sp_lifecycle_lock p
          \<and> (m \<noteq> n \<longrightarrow> sp_root q \<noteq> sp_root p
               \<and> list_all (\<lambda>f. \<not> below (sp_root q) f) (sp_root p # state_files p)))"
proof -
  obtain dir where dir: "data_dir home = Inr dir" and valid: "is_valid_name n"
    and root: "sp_root p = dir @ CHR ''/'' # n" and lock: "sp_lifecycle_lock p = dir @ CHR ''/'' # n @ ''.lock''"
    and files: "\<And>f. f \<in> set (state_files p) \<Longrightarrow> \<exists>s. f = dir @ CHR ''/'' # n @ CHR ''/'' # s"
    using state_paths_new_Inr [OF assms] by metis
  note n = valid_name_plain [OF valid]
  have "list_all (below (sp_root p)) (state_files p)"
    unfolding list_all_iff root using files below_sibling(1) [OF n(1) n(1)] by fastforce
  moreover have "\<not> below (sp_root q) (sp_lifecycle_lock p) \<and> sp_root q \<noteq> sp_lifecycle_lock p
      \<and> (m \<noteq> n \<longrightarrow> sp_root q \<noteq> sp_root p \<and> list_all (\<lambda>f. \<not> below (sp_root q) f) (sp_root p # state_files p))"
    if q: "state_paths_new home m = Inr q" for m q
  proof -
    have m: "CHR ''/'' \<notin> set m" "CHR ''.'' \<notin> set m" and rq: "sp_root q = dir @ CHR ''/'' # m"
      using state_paths_new_Inr [OF q] valid_name_plain [of m] dir by (metis sum.inject(2))+
    have "CHR ''/'' \<notin> set (n @ ''.lock'')" using n by auto
    then have "\<not> below (sp_root q) (sp_lifecycle_lock p)"
      using below_sibling(2) [OF m(1)] by (simp add: rq lock)
    moreover have "m \<noteq> n @ ''.lock''" using m(2) by auto
    moreover have "\<not> below (sp_root q) f" if "f \<in> set (state_files p)" "m \<noteq> n" for f
      using files [OF that(1)] below_sibling(1) [OF m(1) n(1)] that(2) by (auto simp: rq)
    ultimately show ?thesis
      using below_sibling(2) [OF m(1) n(1)] by (auto simp: rq root lock list_all_iff)
  qed
  ultimately show ?thesis using dir valid n by (auto simp: root)
qed

theorem state_paths_isolated_witness:
  "list_all (below ''/home/u/.local/share/devcroft/web'')
     (state_files (projr (state_paths_new (Some ''/home/u'') ''web'')))"
proof -
  have "isl (state_paths_new (Some ''/home/u'') ''web'') = False"
    and root: "sp_root (projr (state_paths_new (Some ''/home/u'') ''web'')) = ''/home/u/.local/share/devcroft/web''"
    by code_simp+
  then have "state_paths_new (Some ''/home/u'') ''web'' = Inr (projr (state_paths_new (Some ''/home/u'') ''web''))"
    by (simp add: sum.collapse(2))
  from state_paths_isolated [OF this] show ?thesis by (simp only: root)
qed

end
