(* ===== verification/Terminate.thy ===== *)
theory Terminate
  imports State
begin

text \<open>
  \<open>down\<close> and \<open>rm\<close> (\<open>src/lifecycle/terminate.rs\<close>) with the metadata file they read
  (\<open>src/lifecycle/state.rs\<close>) and the location of a sandbox's service artifacts
  (\<open>src/services/mod.rs\<close>). The lifecycle lock serialises these commands; the JSON of
  \<open>meta.json\<close> is a parameter.
\<close>

section \<open>Metadata\<close>

record meta =
  project_root :: string
  env_fingerprint :: string
  read_only_grants :: "string list"
  resolved_backend :: string
  declared_services :: "string list"
  ran_activation_hook :: bool
  meta_shell :: "string option"
  proxy_port :: "u16 option"
  proxy_token :: "string option"

record meta_lib =
  meta_to_string :: "meta \<Rightarrow> string + string"
  meta_from_str :: "string \<Rightarrow> string + meta"

text \<open>\<open>Path::with_extension("json.tmp")\<close> of a path that ends in \<open>.json\<close>.\<close>

definition meta_tmp :: "string \<Rightarrow> string" where
  "meta_tmp path = path @ ''.tmp''"

definition write_meta :: "meta_lib \<Rightarrow> string \<Rightarrow> meta \<Rightarrow> fs \<Rightarrow> (fs_error + unit) \<times> fs" where
  "write_meta L path m fs = (case meta_to_string L m of
      Inl e \<Rightarrow> (Inl (BadData e), fs)
    | Inr json \<Rightarrow> (case fs_write (meta_tmp path) json fs of
        (Inl e, fs) \<Rightarrow> (Inl e, fs)
      | (Inr _, fs) \<Rightarrow> fs_rename (meta_tmp path) path fs))"

definition read_meta :: "meta_lib \<Rightarrow> fs \<Rightarrow> string \<Rightarrow> fs_error + meta option" where
  "read_meta L fs path = (case read_to_string fs path of
      Inr s \<Rightarrow> (case meta_from_str L s of Inr m \<Rightarrow> Inr (Some m) | Inl e \<Rightarrow> Inl (BadData e))
    | Inl NotFound \<Rightarrow> Inr None
    | Inl e \<Rightarrow> Inl e)"

section \<open>Service artifacts\<close>

definition ARTIFACT_DIR :: string where
  "ARTIFACT_DIR = ''.devcroft''"

definition DERIVED_ENV_PREFIX :: string where
  "DERIVED_ENV_PREFIX = ''flox-env-''"

definition artifact_dir :: "string \<Rightarrow> string \<Rightarrow> string" where
  "artifact_dir root name = path_join (path_join root ARTIFACT_DIR) name"

section \<open>down and rm\<close>

text \<open>The grace period, as the number of polls 50 ms apart that fit in five seconds.\<close>

definition GRACE_PERIOD :: nat where
  "GRACE_PERIOD = 5 * 20"

definition stop_if_running :: "target_os \<Rightarrow> state_paths \<Rightarrow> world \<Rightarrow> world" where
  "stop_if_running os paths w =
     terminate_and_wait os (sp_proxy_pidfile paths) GRACE_PERIOD
       (terminate_and_wait os (sp_pidfile paths) GRACE_PERIOD w)"

text \<open>\<open>acquire_lifecycle_lock\<close> creates the lock file's directory and the file, and blocks until no
  other command holds it; here, what it leaves on disk.\<close>

definition acquire_lifecycle_lock :: "string \<Rightarrow> fs \<Rightarrow> (fs_error + unit) \<times> fs" where
  "acquire_lifecycle_lock path fs =
     (let fs = (if is_dir fs (fs_parent path) then fs else AList.update (fs_parent path) DirNode fs) in
      case map_of fs path of
        Some (FileNode _) \<Rightarrow> (Inr (), fs)
      | None \<Rightarrow> (Inr (), AList.update path (FileNode []) fs)
      | Some _ \<Rightarrow> (Inl OtherError, fs))"

definition down_at :: "target_os \<Rightarrow> state_paths \<Rightarrow> world \<Rightarrow> (fs_error + unit) \<times> world" where
  "down_at os paths w = (case acquire_lifecycle_lock (sp_lifecycle_lock paths) (w_fs w) of
      (Inl e, fs) \<Rightarrow> (Inl e, w\<lparr>w_fs := fs\<rparr>)
    | (Inr _, fs) \<Rightarrow>
        let w = stop_if_running os paths (w\<lparr>w_fs := fs\<rparr>)
        in (Inr (), w\<lparr>w_fs := clear_runtime_state paths (w_fs w)\<rparr>))"

definition rm_at :: "target_os \<Rightarrow> state_paths \<Rightarrow> world \<Rightarrow> (fs_error + unit) \<times> world" where
  "rm_at os paths w = (case acquire_lifecycle_lock (sp_lifecycle_lock paths) (w_fs w) of
      (Inl e, fs) \<Rightarrow> (Inl e, w\<lparr>w_fs := fs\<rparr>)
    | (Inr _, fs) \<Rightarrow>
        let w = stop_if_running os paths (w\<lparr>w_fs := fs\<rparr>) in
        (case remove_dir_all (sp_root paths) (w_fs w) of
            (Inl NotFound, fs) \<Rightarrow> (Inr (), w\<lparr>w_fs := fs\<rparr>)
          | (r, fs) \<Rightarrow> (r, w\<lparr>w_fs := fs\<rparr>)))"

definition down :: "target_os \<Rightarrow> string option \<Rightarrow> string \<Rightarrow> world \<Rightarrow> (fs_error + unit) \<times> world" where
  "down os home name w = (case state_paths_new home name of
      Inl e \<Rightarrow> (Inl e, w)
    | Inr paths \<Rightarrow> down_at os paths w)"

text \<open>The last sandbox out removes the derived environments, then the shared parent if it is empty.\<close>

definition remove_shared :: "string \<Rightarrow> fs \<Rightarrow> fs" where
  "remove_shared root fs =
     (let shared = path_join root ARTIFACT_DIR;
          fs = (case read_dir fs shared of
              Inl _ \<Rightarrow> fs
            | Inr remaining \<Rightarrow>
                if list_all (starts_with DERIVED_ENV_PREFIX) remaining
                then foldl (\<lambda>fs n. snd (remove_dir_all (path_join shared n) fs)) fs remaining
                else fs)
      in snd (remove_dir shared fs))"

definition rm :: "target_os \<Rightarrow> meta_lib \<Rightarrow> string option \<Rightarrow> string \<Rightarrow> world \<Rightarrow> (fs_error + unit) \<times> world" where
  "rm os L home name w = (case state_paths_new home name of
      Inl e \<Rightarrow> (Inl e, w)
    | Inr paths \<Rightarrow>
        let root = (case read_meta L (w_fs w) (sp_meta paths) of
              Inr (Some m) \<Rightarrow> Some (project_root m) | _ \<Rightarrow> None) in
        (case rm_at os paths w of
            (Inl e, w) \<Rightarrow> (Inl e, w)
          | (Inr _, w) \<Rightarrow> (case root of
              None \<Rightarrow> (Inr (), w)
            | Some root \<Rightarrow> (case remove_dir_all (artifact_dir root name) (w_fs w) of
                (Inl NotFound, fs) \<Rightarrow> (Inr (), w\<lparr>w_fs := remove_shared root fs\<rparr>)
              | (Inl e, fs) \<Rightarrow> (Inl e, w\<lparr>w_fs := fs\<rparr>)
              | (Inr _, fs) \<Rightarrow> (Inr (), w\<lparr>w_fs := remove_shared root fs\<rparr>)))))"

section \<open>Lemmas: what each operation leaves on disk\<close>

lemma map_of_filter_key: "map_of (filter (\<lambda>(q, _). P q) fs) q = (if P q then map_of fs q else None)"
  by (induction fs) auto

lemma remove_file_get: "map_of (snd (remove_file p fs)) q =
    (if q = p \<and> (\<exists>s. map_of fs p = Some (FileNode s)) then None else map_of fs q)"
  by (auto simp: remove_file_def delete_conv' split: option.splits fs_node.splits)

lemma remove_dir_all_get:
  assumes "remove_dir_all p fs = (r, fs')"
  shows "q \<noteq> p \<and> \<not> below p q \<Longrightarrow> map_of fs' q = map_of fs q"
    and "r = Inr () \<or> r = Inl NotFound \<Longrightarrow> map_of fs' p = None"
    and "r = Inr () \<Longrightarrow> below p q \<Longrightarrow> map_of fs' q = None"
  using assms
  by (auto simp: remove_dir_all_def map_of_filter_key [of "\<lambda>q. q \<noteq> p \<and> \<not> below p q"]
      split: option.splits fs_node.splits if_splits)

lemma remove_dir_get: "q \<noteq> p \<Longrightarrow> map_of (snd (remove_dir p fs)) q = map_of fs q"
  by (auto simp: remove_dir_def delete_conv' split: option.splits fs_node.splits)

lemma acquire_lock_get:
  assumes "acquire_lifecycle_lock path fs = (r, fs')" and "q \<noteq> path" and "q \<noteq> fs_parent path"
  shows "map_of fs' q = map_of fs q"
  using assms
  by (auto simp: acquire_lifecycle_lock_def Let_def update_conv' split: option.splits fs_node.splits if_splits)

lemma stop_if_running_log:
  obtains n log1 log2 where
    "stop_if_running os paths w = w\<lparr>w_now := n, w_signals := w_signals w @ log1 @ log2\<rparr>"
    and "log1 = [] \<or> (\<exists>pid st. read_pidfile (w_fs w) (sp_pidfile paths) = Inr (Some (pid, st)) \<and> escalation_log os w pid st log1)"
    and "log2 = [] \<or> (\<exists>pid st. read_pidfile (w_fs w) (sp_proxy_pidfile paths) = Inr (Some (pid, st)) \<and> escalation_log os w pid st log2)"
proof -
  obtain log1 n1 where w1: "terminate_and_wait os (sp_pidfile paths) GRACE_PERIOD w = w\<lparr>w_now := n1, w_signals := w_signals w @ log1\<rparr>"
    and l1: "log1 \<noteq> [] \<Longrightarrow> \<exists>pid st. read_pidfile (w_fs w) (sp_pidfile paths) = Inr (Some (pid, st)) \<and> escalation_log os w pid st log1"
    using terminate_and_wait_log by metis
  let ?w1 = "w\<lparr>w_now := n1, w_signals := w_signals w @ log1\<rparr>"
  obtain log2 n2 where w2: "terminate_and_wait os (sp_proxy_pidfile paths) GRACE_PERIOD ?w1 = ?w1\<lparr>w_now := n2, w_signals := w_signals ?w1 @ log2\<rparr>"
    and l2: "log2 \<noteq> [] \<Longrightarrow> \<exists>pid st. read_pidfile (w_fs ?w1) (sp_proxy_pidfile paths) = Inr (Some (pid, st)) \<and> escalation_log os ?w1 pid st log2"
    using terminate_and_wait_log by metis
  have "escalation_log os ?w1 pid st l = escalation_log os w pid st l" for pid st l
    by (simp add: escalation_log_def)
  then show ?thesis
    using that [of log1 log2 n2] l1 l2 w1 w2 by (auto simp: stop_if_running_def)
qed

definition runtime_files :: "state_paths \<Rightarrow> string list" where
  "runtime_files paths =
     [sp_pidfile paths, sp_socket paths, sp_proxy_pidfile paths, sp_ssh_socket paths, sp_proxy_socket paths]"

lemma foldl_remove_file_get:
  "map_of (foldl (\<lambda>fs p. snd (remove_file p fs)) fs ps) q =
     (if q \<in> set ps \<and> (\<exists>s. map_of fs q = Some (FileNode s)) then None else map_of fs q)"
  by (induction ps arbitrary: fs) (auto simp: remove_file_get)

lemma clear_runtime_state_get:
  "map_of (clear_runtime_state paths fs) q =
     (if q \<in> set (runtime_files paths) \<and> (\<exists>s. map_of fs q = Some (FileNode s)) then None else map_of fs q)"
  unfolding clear_runtime_state_def runtime_files_def by (rule foldl_remove_file_get)

lemma down_clears:
  assumes "state_paths_new home name = Inr paths" and "down os home name w = (Inr (), w')"
    and "f \<in> set (runtime_files paths)"
  shows "\<nexists>s. map_of (w_fs w') f = Some (FileNode s)"
  using assms by (auto simp: down_def down_at_def Let_def clear_runtime_state_get split: sum.splits prod.splits if_splits)


definition sample_state :: world where
  "sample_state = \<lparr>
     w_fs = [(''/h/.local/share/devcroft'', DirNode), (''/h/.local/share/devcroft/web'', DirNode),
       (''/h/.local/share/devcroft/web/keeper.pid'', FileNode ''42 777''),
       (''/h/.local/share/devcroft/web/control.sock'', FileNode []),
       (''/h/.local/share/devcroft/web/meta.json'', FileNode ''/p''),
       (''/h/.local/share/devcroft/flox-env-api'', DirNode),
       (''/p'', DirNode), (''/p/.devcroft'', DirNode), (''/p/.devcroft/web'', DirNode),
       (''/p/.devcroft/flox-env-api'', DirNode),
       (''/p/.devcroft/flox-env-api/services.yaml'', FileNode ''config'')],
     w_view = (\<lambda>t. if t = 0 then sample_view else sample_view\<lparr>pv_stat := \<lambda>_. None\<rparr>), w_now = 0,
     w_accepts = (\<lambda>_. True), w_signals = [], w_ran = []\<rparr>"

definition sample_paths :: state_paths where
  "sample_paths = (in_dir ''/h/.local/share/devcroft/web'')
     \<lparr>sp_lifecycle_lock := ''/h/.local/share/devcroft/web.lock''\<rparr>"

lemma sample_paths: "state_paths_new (Some ''/h'') ''web'' = Inr sample_paths"
proof -
  have "is_valid_name ''web''" by code_simp
  then show ?thesis
    by (simp add: state_paths_new_def data_dir_def sample_paths_def path_join_def starts_with_def in_dir_def)
qed

lemma sample_state_paths:
  "state_paths_new (Some ''/h'') ''web'' = Inr (projr (state_paths_new (Some ''/h'') ''web''))"
proof -
  have "isl (state_paths_new (Some ''/h'') ''web'') = False" by code_simp
  then show ?thesis by (simp add: sum.collapse(2))
qed


section \<open>Lemmas: rm\<close>

lemma shared_shape: "path_join root ARTIFACT_DIR \<noteq> [] \<and> last (path_join root ARTIFACT_DIR) \<noteq> CHR ''/''"
  by (simp add: path_join_def ARTIFACT_DIR_def starts_with_def)

lemma below_trans: "below p q \<Longrightarrow> below q r \<Longrightarrow> below p r"
  by (auto simp: below_iff prefix_def)

lemma remove_dir_all_below:
  assumes "below p c" and "q \<noteq> p" and "\<not> below p q"
  shows "map_of (snd (remove_dir_all c fs)) q = map_of fs q"
proof -
  have "q \<noteq> c \<and> \<not> below c q" using assms below_trans by auto
  then show ?thesis using remove_dir_all_get(1) by (metis prod.collapse)
qed

lemma foldl_remove_dir_all_below:
  assumes "list_all (below p) cs" and "q \<noteq> p" and "\<not> below p q"
  shows "map_of (foldl (\<lambda>fs c. snd (remove_dir_all c fs)) fs cs) q = map_of fs q"
  using assms by (induction cs arbitrary: fs) (auto simp: remove_dir_all_below)

lemma read_dir_names:
  "read_dir fs p = Inr ns \<Longrightarrow> n \<in> set ns \<Longrightarrow> n \<noteq> [] \<and> CHR ''/'' \<notin> set n"
  by (auto simp: read_dir_def split: if_splits)

lemma remove_shared_get:
  assumes "q \<noteq> path_join root ARTIFACT_DIR" and "\<not> below (path_join root ARTIFACT_DIR) q"
  shows "map_of (remove_shared root fs) q = map_of fs q"
proof -
  let ?s = "path_join root ARTIFACT_DIR"
  have child: "below ?s (path_join ?s n)" if "CHR ''/'' \<notin> set n" for n
    using path_join_plain [of n ?s] shared_shape that by (cases n) auto
  have "map_of (foldl (\<lambda>fs n. snd (remove_dir_all (path_join ?s n) fs)) fs ns) q = map_of fs q"
    if "read_dir fs ?s = Inr ns" for ns
  proof -
    have "list_all (below ?s) (map (path_join ?s) ns)"
      using read_dir_names [OF that] child by (auto simp: list_all_iff)
    from foldl_remove_dir_all_below [OF this assms(1,2), of fs] show ?thesis
      by (simp add: foldl_map)
  qed
  then show ?thesis
    using assms(1) by (auto simp: remove_shared_def Let_def remove_dir_get split: sum.splits)
qed

lemma root_not_lock:
  assumes "state_paths_new home n = Inr p"
  shows "sp_root p \<noteq> sp_lifecycle_lock p" and "sp_root p \<noteq> fs_parent (sp_lifecycle_lock p)"
proof -
  obtain dir where valid: "is_valid_name n" and root: "sp_root p = dir @ CHR ''/'' # n"
    and lock: "sp_lifecycle_lock p = dir @ CHR ''/'' # n @ ''.lock''"
    using state_paths_new_Inr [OF assms] by metis
  have "CHR ''/'' \<notin> set (n @ ''.lock'')" using valid_name_plain [OF valid] by auto
  then show "sp_root p \<noteq> fs_parent (sp_lifecycle_lock p)" using root lock by (simp add: fs_parent_append)
  show "sp_root p \<noteq> sp_lifecycle_lock p" by (simp add: root lock)
qed

lemma stop_if_running_fs [simp]: "w_fs (stop_if_running os paths w) = w_fs w"
  by (rule stop_if_running_log [of os paths w]) simp

lemma rm_at_fs:
  assumes "rm_at os paths w = (Inr (), w')"
  obtains fs r where "acquire_lifecycle_lock (sp_lifecycle_lock paths) (w_fs w) = (Inr (), fs)"
    and "remove_dir_all (sp_root paths) fs = (r, w_fs w')" and "r = Inr () \<or> r = Inl NotFound"
  using assms
  by (auto simp: rm_at_def Let_def split: prod.splits sum.splits fs_error.splits)


definition sample_meta_lib :: meta_lib where
  "sample_meta_lib = \<lparr>meta_to_string = (\<lambda>m. Inr (project_root m)),
     meta_from_str = (\<lambda>s. Inr \<lparr>project_root = s, env_fingerprint = [], read_only_grants = [],
        resolved_backend = ''process'', declared_services = [], ran_activation_hook = False,
        meta_shell = None, proxy_port = None, proxy_token = None\<rparr>)\<rparr>"

definition sample_stopped_state :: world where
  "sample_stopped_state = sample_state\<lparr>w_fs := AList.delete ''/h/.local/share/devcroft/web/keeper.pid'' (w_fs sample_state)\<rparr>"

lemma sample_rm_ok:
  "rm Linux sample_meta_lib (Some ''/h'') ''web'' sample_stopped_state =
     (Inr (), snd (rm Linux sample_meta_lib (Some ''/h'') ''web'' sample_stopped_state))"
proof -
  have "isl (fst (rm Linux sample_meta_lib (Some ''/h'') ''web'' sample_stopped_state)) = False" by code_simp
  then show ?thesis by (metis (full_types) old.unit.exhaust prod.collapse sum.collapse(2))
qed


text \<open>
  The last-one-out rule of \<open>rm\<close> recognises derived environments by their name prefix alone,
  and \<open>flox-env-api\<close> is a valid sandbox name: removing one sandbox of a project deletes the
  service artifacts of another sandbox of the same project that carries such a name.
\<close>

theorem rm_removes_artifacts_of_other_sandbox:
  "is_valid_name ''flox-env-api''
   \<and> artifact_dir ''/p'' ''flox-env-api'' @ ''/services.yaml'' = ''/p/.devcroft/flox-env-api/services.yaml''
   \<and> map_of (w_fs sample_stopped_state) ''/p/.devcroft/flox-env-api/services.yaml'' = Some (FileNode ''config'')
   \<and> map_of (w_fs (snd (rm Linux sample_meta_lib (Some ''/h'') ''web'' sample_stopped_state)))
       ''/p/.devcroft/flox-env-api/services.yaml'' = None"
  by (intro conjI) code_simp+

end
