(* ===== verification/Exec.thy ===== *)
theory Exec
  imports Connection Terminate
begin

text \<open>
  The clients of a running keeper: \<open>exec\<close> and \<open>shell\<close> (\<open>src/exec.rs\<close>). The keeper behind a socket is
  a parameter, the bytes it sends in answer to the bytes of the request; the composition with the
  model of the keeper's side (theory \<open>Connection\<close>) is stated by the lemmas. The state of the local
  terminal is outside the model; its size, the signals and the input read are arguments.
\<close>

section \<open>Model\<close>

datatype exec_error = NotRunning | ExecConnect fs_error | ExecSpawnErr string | ExecProtocol io_error

definition show_exec_error :: "(fs_error \<Rightarrow> string) \<Rightarrow> (io_error \<Rightarrow> string) \<Rightarrow> exec_error \<Rightarrow> string" where
  "show_exec_error show_fs show_io e = (case e of
      NotRunning \<Rightarrow> ''sandbox is not up; run '' @ [CHR 0x60] @ ''devcroft up'' @ [CHR 0x60] @ '' first''
    | ExecConnect m \<Rightarrow> ''connecting to keeper: '' @ show_fs m
    | ExecSpawnErr m \<Rightarrow> ''keeper refused to spawn: '' @ m
    | ExecProtocol m \<Rightarrow> ''keeper protocol error: '' @ show_io m)"

record exec_host =
  eh_os :: target_os
  eh_home :: "string option"
  eh_meta :: meta_lib
  eh_serde :: serde_lib
  eh_connect :: "string \<Rightarrow> fs_error + (bytes \<Rightarrow> bytes)"

subsection \<open>The session as the client sees it\<close>

text \<open>What reaches the local standard output and standard error, in order. A failing write to
  either is ignored.\<close>

datatype printed = ToStdout bytes | ToStderr bytes

definition exit_code_from :: "exit_status \<Rightarrow> i32" where
  "exit_code_from status = (case exit_code status of
      Some code \<Rightarrow> code
    | None \<Rightarrow> (case exit_signal status of Some sig \<Rightarrow> 128 + sig | None \<Rightarrow> 1))"

function session_loop :: "serde_lib \<Rightarrow> bytes \<Rightarrow> printed list \<times> i32" where
  "session_loop L r = (case read_frame L r of
      Inl _ \<Rightarrow> ([], 1)
    | Inr (f, r') \<Rightarrow> (case f of
        Stdout bs \<Rightarrow> (case session_loop L r' of (out, code) \<Rightarrow> (ToStdout bs # out, code))
      | Stderr bs \<Rightarrow> (case session_loop L r' of (out, code) \<Rightarrow> (ToStderr bs # out, code))
      | Exit status \<Rightarrow> ([], exit_code_from status)
      | _ \<Rightarrow> session_loop L r'))"
  by pat_completeness auto
termination
  by (relation "measure (\<lambda>(L, r). length r)") (auto dest: read_frame_progress)

declare session_loop.simps [simp del]

definition connect_and_spawn :: "exec_host \<Rightarrow> string \<Rightarrow> spawn_request \<Rightarrow> world \<Rightarrow> exec_error + bytes" where
  "connect_and_spawn H name req w =
     rbind (map_err ExecConnect (state_paths_new (eh_home H) name)) (\<lambda>paths.
     rbind (map_err ExecConnect (health_of (eh_os H) w paths)) (\<lambda>h. (case h of
         Healthy _ \<Rightarrow>
           rbind (map_err ExecConnect (eh_connect H (sp_socket paths))) (\<lambda>keeper.
           rbind (map_err ExecProtocol (write_frame (eh_serde H) (Spawn req))) (\<lambda>sent.
           rbind (map_err ExecProtocol (read_frame (eh_serde H) (keeper sent))) (\<lambda>(f, r). (case f of
               SpawnOk _ \<Rightarrow> Inr r
             | SpawnErr message \<Rightarrow> Inl (ExecSpawnErr message)
             | _ \<Rightarrow> Inl (ExecProtocol (InvalidData ''expected SpawnOk''))))))
       | _ \<Rightarrow> Inl NotRunning)))"

definition stream_session :: "exec_host \<Rightarrow> exec_error + bytes \<Rightarrow> (exec_error + i32) \<times> printed list" where
  "stream_session H r = (case r of
      Inl e \<Rightarrow> (Inl e, [])
    | Inr bs \<Rightarrow> (case session_loop (eh_serde H) bs of (out, code) \<Rightarrow> (Inr code, out)))"

record exec_request =
  ex_cmd :: string
  ex_args :: "string list"
  ex_cwd :: string

definition exec_spawn_request :: "exec_request \<Rightarrow> spawn_request" where
  "exec_spawn_request req = \<lparr>req_cmd = ex_cmd req, req_args = ex_args req, req_cwd = ex_cwd req, req_env = [],
     req_pty = None\<rparr>"

definition exec :: "exec_host \<Rightarrow> string \<Rightarrow> exec_request \<Rightarrow> world \<Rightarrow> (exec_error + i32) \<times> printed list" where
  "exec H name req w = stream_session H (connect_and_spawn H name (exec_spawn_request req) w)"

subsection \<open>The interactive shell\<close>

definition FALLBACK_SHELL :: string where
  "FALLBACK_SHELL = ''sh''"

definition recorded_shell :: "exec_host \<Rightarrow> string \<Rightarrow> world \<Rightarrow> string option" where
  "recorded_shell H name w = (case state_paths_new (eh_home H) name of
      Inl _ \<Rightarrow> None
    | Inr paths \<Rightarrow> (case read_meta (eh_meta H) (w_fs w) (sp_meta paths) of
        Inr (Some m) \<Rightarrow> meta_shell m
      | _ \<Rightarrow> None))"

text \<open>\<open>TIOCGWINSZ\<close>: no terminal, or its rows and columns.\<close>

definition terminal_size :: "(u16 \<times> u16) option \<Rightarrow> pty_size option" where
  "terminal_size ws = (case ws of
      None \<Rightarrow> None
    | Some (r, c) \<Rightarrow> if r = 0 \<or> c = 0 then None else Some \<lparr>rows = r, cols = c\<rparr>)"

definition shell_request :: "string \<Rightarrow> pty_size \<Rightarrow> string \<Rightarrow> spawn_request" where
  "shell_request cwd sz cmd = \<lparr>req_cmd = cmd, req_args = [], req_cwd = cwd, req_env = [], req_pty = Some sz\<rparr>"

text \<open>\<open>shell_var\<close> is \<open>$SHELL\<close>, \<open>ws\<close> the size of the local terminal.\<close>

definition shell :: "exec_host \<Rightarrow> string option \<Rightarrow> (u16 \<times> u16) option \<Rightarrow> string \<Rightarrow> string \<Rightarrow> world \<Rightarrow>
    (exec_error + i32) \<times> printed list" where
  "shell H shell_var ws name cwd w =
     (let fallback = (case recorded_shell H name w of Some s \<Rightarrow> s | None \<Rightarrow> FALLBACK_SHELL);
          requested = (case shell_var of Some s \<Rightarrow> s | None \<Rightarrow> fallback);
          sz = (case terminal_size ws of Some s \<Rightarrow> s | None \<Rightarrow> \<lparr>rows = 24, cols = 80\<rparr>);
          first = connect_and_spawn H name (shell_request cwd sz requested) w
      in stream_session H (case first of
           Inl (ExecSpawnErr _) \<Rightarrow>
             if requested \<noteq> fallback then connect_and_spawn H name (shell_request cwd sz fallback) w else first
         | _ \<Rightarrow> first))"

subsection \<open>What the client sends while the session runs\<close>

text \<open>The pump of the standard input: each read gives an error, some bytes, or none at its end.\<close>

definition STDIN_BUF :: nat where
  "STDIN_BUF = 8192"

fun stdin_pump :: "(unit + bytes) list \<Rightarrow> frame list" where
  "stdin_pump [] = []"
| "stdin_pump (Inl _ # _) = [StdinClosed]"
| "stdin_pump (Inr bs # reads) = (if bs = [] then [StdinClosed] else Stdin bs # stdin_pump reads)"

definition SIGWINCH :: nat where
  "SIGWINCH = 28"

definition blocked_signals :: "bool \<Rightarrow> nat list" where
  "blocked_signals pty = [2, 15, 1] @ (if pty then [SIGWINCH] else [])"

text \<open>One turn of the forwarder: the signal received, and the size of the terminal then.\<close>

definition forward_signal :: "bool \<Rightarrow> (u16 \<times> u16) option \<Rightarrow> nat \<Rightarrow> frame option" where
  "forward_signal pty ws received =
     (if pty \<and> received = SIGWINCH then map_option Resize (terminal_size ws)
      else if received = 2 then Some (Signal SigInt)
      else if received = 15 then Some (Signal SigTerm)
      else if received = 1 then Some (Signal SigHup)
      else None)"

section \<open>Lemmas: the loop on frames\<close>

text \<open>The loop on the frames a reader delivers, with what is left unread forgotten.\<close>

fun session_output :: "frame list \<Rightarrow> printed list \<times> i32" where
  "session_output [] = ([], 1)"
| "session_output (Stdout bs # fs) = (case session_output fs of (out, code) \<Rightarrow> (ToStdout bs # out, code))"
| "session_output (Stderr bs # fs) = (case session_output fs of (out, code) \<Rightarrow> (ToStderr bs # out, code))"
| "session_output (Exit status # fs) = ([], exit_code_from status)"
| "session_output (_ # fs) = session_output fs"

lemma session_loop_frames: "session_loop L r = session_output (fst (read_frames L r))"
proof (induction L r rule: session_loop.induct)
  case (1 L r)
  show ?case
  proof (cases "read_frame L r")
    case (Inl e)
    then show ?thesis by (simp add: session_loop.simps [of L r] read_frames.simps [of L r])
  next
    case (Inr p)
    obtain f r' where "p = (f, r')" by (rule prod.exhaust)
    with Inr have "read_frame L r = Inr (f, r')" by simp
    then show ?thesis using 1
      by (cases f) (simp_all add: session_loop.simps [of L r] read_frames.simps [of L r] split: prod.splits)
  qed
qed

definition printed_out :: "printed list \<Rightarrow> bytes" where
  "printed_out ps = concat (map (\<lambda>p. case p of ToStdout bs \<Rightarrow> bs | _ \<Rightarrow> []) ps)"

definition printed_err :: "printed list \<Rightarrow> bytes" where
  "printed_err ps = concat (map (\<lambda>p. case p of ToStderr bs \<Rightarrow> bs | _ \<Rightarrow> []) ps)"

lemma session_output_streams:
  assumes "list_all is_output mid"
  shows "snd (session_output (mid @ rest)) = snd (session_output rest)"
    "printed_out (fst (session_output (mid @ rest))) = out_bytes mid @ printed_out (fst (session_output rest))"
    "printed_err (fst (session_output (mid @ rest))) = err_bytes mid @ printed_err (fst (session_output rest))"
  using assms
proof (induction mid)
  case (Cons f mid)
  {
    case 1
    then show ?case using Cons(1) by (cases f) (simp_all add: case_prod_beta)
  next
    case 2
    then show ?case using Cons(2)
      by (cases f) (simp_all add: printed_out_def out_bytes_def case_prod_beta)
  next
    case 3
    then show ?case using Cons(3)
      by (cases f) (simp_all add: printed_err_def err_bytes_def case_prod_beta)
  }
qed simp_all

lemma connect_and_spawn_ok:
  assumes "state_paths_new (eh_home H) name = Inr paths" "health_of (eh_os H) w paths = Inr (Healthy pid)"
    "eh_connect H (sp_socket paths) = Inr keeper" "write_frame (eh_serde H) (Spawn req) = Inr sent"
    "read_frames (eh_serde H) (keeper sent) = (SpawnOk sid # fs, e)"
  obtains r where "connect_and_spawn H name req w = Inr r" "fst (read_frames (eh_serde H) r) = fs"
proof -
  obtain f r where r: "read_frame (eh_serde H) (keeper sent) = Inr (f, r)" "f = SpawnOk sid"
    "fst (read_frames (eh_serde H) r) = fs"
    using assms(5) read_frames.simps [of "eh_serde H" "keeper sent"] by (auto split: sum.splits prod.splits)
  then have "connect_and_spawn H name req w = Inr r"
    using assms by (simp add: connect_and_spawn_def result_simps)
  then show ?thesis using that r by blast
qed

section \<open>Properties: a session end to end\<close>

lemma session_output_cut:
  assumes "list_all is_output mid" "prefix fs (mid @ [Exit status])"
  shows "if fs = mid @ [Exit status] then snd (session_output fs) = exit_code_from status
      \<and> printed_out (fst (session_output fs)) = out_bytes mid \<and> printed_err (fst (session_output fs)) = err_bytes mid
    else snd (session_output fs) = 1 \<and> prefix (printed_out (fst (session_output fs))) (out_bytes mid)
      \<and> prefix (printed_err (fst (session_output fs))) (err_bytes mid)"
proof (cases "fs = mid @ [Exit status]")
  case True
  then show ?thesis
    using session_output_streams [OF assms(1), of "[Exit status]"] by (simp add: printed_out_def printed_err_def)
next
  case False
  then obtain rest where mid: "mid = fs @ rest" using assms(2) by (metis prefixE prefix_snoc)
  then have "list_all is_output fs" using assms(1) by simp
  from session_output_streams [OF this, of "[]"] show ?thesis
    using False by (simp add: mid printed_out_def printed_err_def)
qed

text \<open>
  C2: a command run through \<open>exec\<close> in a healthy sandbox, over a connection whose keeper side is the
  model of theory \<open>Connection\<close> and has sent its exit status: when all the bytes the keeper wrote
  arrive, \<open>exec\<close> returns the code of that status, and has printed on each stream everything the
  session wrote to it, unless that stream's pump met an error. When the connection is cut at any
  earlier byte, \<open>exec\<close> fails with a protocol error or returns 1, and what it has printed is a
  prefix of the session's output.
\<close>

theorem exec_end_to_end:
  assumes lib: "serde_lib_ok (eh_serde H)"
    and run: "conn_run backend sid c" "Exit status \<in> set (c_wire c)"
    and wire: "write_frames (eh_serde H) (c_wire c) = Inr bs"
    and up: "state_paths_new (eh_home H) name = Inr paths" "health_of (eh_os H) w paths = Inr (Healthy pid)"
    and req: "write_frame (eh_serde H) (Spawn (exec_spawn_request req)) = Inr sent"
    and keeper: "eh_connect H (sp_socket paths) = Inr keeper" "prefix (keeper sent) bs"
  shows "if keeper sent = bs then
      fst (exec H name req w) = Inr (exit_code_from status)
      \<and> (\<not> st_failed (c_out c) \<longrightarrow> printed_out (snd (exec H name req w)) = st_produced (c_out c))
      \<and> (\<not> st_failed (c_err c) \<longrightarrow> printed_err (snd (exec H name req w)) = st_produced (c_err c))
    else (fst (exec H name req w) = Inl (ExecProtocol UnexpectedEof) \<or> fst (exec H name req w) = Inr 1)
      \<and> prefix (printed_out (snd (exec H name req w))) (out_bytes (c_wire c))
      \<and> prefix (printed_err (snd (exec H name req w))) (err_bytes (c_wire c))"
proof -
  obtain mid where mid: "c_wire c = SpawnOk sid # mid @ [Exit status]" "list_all is_output mid"
    and produced: "\<not> st_failed (c_out c) \<longrightarrow> out_bytes (c_wire c) = st_produced (c_out c)"
      "\<not> st_failed (c_err c) \<longrightarrow> err_bytes (c_wire c) = st_produced (c_err c)"
    using exited_wire [OF run] by blast
  obtain got where got: "prefix got (c_wire c)" "read_frames (eh_serde H) (keeper sent) = (got, UnexpectedEof)"
    "keeper sent = bs \<longleftrightarrow> got = c_wire c"
    using read_frames_prefix [OF lib wire keeper(2)] by blast
  show ?thesis
  proof (cases got)
    case Nil
    then have "read_frame (eh_serde H) (keeper sent) = Inl UnexpectedEof"
      using got(2) read_frames.simps [of "eh_serde H" "keeper sent"] by (auto split: sum.splits prod.splits)
    then have "exec H name req w = (Inl (ExecProtocol UnexpectedEof), [])"
      using up req keeper(1) by (simp add: exec_def stream_session_def connect_and_spawn_def result_simps)
    then show ?thesis using got(3) mid(1) Nil by (simp add: printed_out_def printed_err_def)
  next
    case (Cons f fs)
    then have fs: "read_frames (eh_serde H) (keeper sent) = (SpawnOk sid # fs, UnexpectedEof)"
      "prefix fs (mid @ [Exit status])" "keeper sent = bs \<longleftrightarrow> fs = mid @ [Exit status]"
      using got mid(1) by auto
    obtain r where "connect_and_spawn H name (exec_spawn_request req) w = Inr r"
      "fst (read_frames (eh_serde H) r) = fs"
      using connect_and_spawn_ok [OF up keeper(1) req fs(1)] by blast
    then have "exec H name req w = (Inr (snd (session_output fs)), fst (session_output fs))"
      by (simp add: exec_def stream_session_def session_loop_frames case_prod_beta)
    then show ?thesis
      using session_output_cut [OF mid(2) fs(2)] fs(3) produced mid(1) payload_simps(1,2) [of "[SpawnOk sid]"]
      by (cases "keeper sent = bs") auto
  qed
qed

definition sample_exec_serde :: serde_lib where
  "sample_exec_serde = sample_serde\<lparr>serde_spawn_ok := const_serde 1 ''1'',
     serde_spawn := const_serde (exec_spawn_request \<lparr>ex_cmd = ''ls'', ex_args = [], ex_cwd = ''/''\<rparr>) ''ls''\<rparr>"

definition sample_wire :: bytes where
  "sample_wire = [2, 0, 0, 0, 1, 49, 6, 0, 0, 0, 2, 104, 105, 10, 0, 0, 0, 8, 91, 48, 44, 110, 117, 108, 108, 93]"

definition sample_exec_host :: exec_host where
  "sample_exec_host = \<lparr>eh_os = Macos, eh_home = Some ''/h'', eh_meta = sample_meta_lib,
     eh_serde = sample_exec_serde, eh_connect = (\<lambda>_. Inr (\<lambda>_. sample_wire))\<rparr>"

definition sample_exec_state :: world where
  "sample_exec_state = \<lparr>w_fs = [(''/h/.local/share/devcroft/web/keeper.pid'', FileNode ''42 0'')],
     w_view = (\<lambda>_. sample_view), w_now = 0, w_accepts = (\<lambda>_. True), w_signals = [], w_ran = []\<rparr>"

theorem exec_end_to_end_witness:
  "fst (exec sample_exec_host ''web'' \<lparr>ex_cmd = ''ls'', ex_args = [], ex_cwd = ''/''\<rparr> sample_exec_state) = Inr 0
   \<and> printed_out (snd (exec sample_exec_host ''web'' \<lparr>ex_cmd = ''ls'', ex_args = [], ex_cwd = ''/''\<rparr> sample_exec_state))
      = [104, 105]"
proof -
  let ?req = "\<lparr>ex_cmd = ''ls'', ex_args = [], ex_cwd = ''/''\<rparr>"
  let ?paths = sample_paths
  have lib: "serde_lib_ok (eh_serde sample_exec_host)"
    using sample_serde_ok by (simp add: serde_lib_ok_def sample_exec_serde_def sample_exec_host_def)
  have max: "unat MAX_FRAME_LEN = 16777216" by (simp add: MAX_FRAME_LEN_def)
  have raw: "write_raw tag payload = Inr ([tag] @ to_be_bytes (word_of_nat (length payload)) @ payload)"
    if "length payload < 10" for tag payload
    using that by (simp add: write_raw_def max)
  have "write_frame (eh_serde sample_exec_host) (SpawnOk 1) = Inr [2, 0, 0, 0, 1, 49]"
    "write_frame (eh_serde sample_exec_host) (Stdout [104, 105]) = Inr [6, 0, 0, 0, 2, 104, 105]"
    "write_frame (eh_serde sample_exec_host) (Exit \<lparr>exit_code = Some 0, exit_signal = None\<rparr>)
      = Inr [10, 0, 0, 0, 8, 91, 48, 44, 110, 117, 108, 108, 93]"
    by (simp_all add: write_json_def raw sample_exec_host_def sample_exec_serde_def sample_serde_def const_serde_def
        result_simps tag_defs to_be_bytes_def)
  note frames = this
  have exited_frames: "c_wire sample_exited
      = [SpawnOk 1, Stdout [104, 105], Exit \<lparr>exit_code = Some 0, exit_signal = None\<rparr>]"
    by (simp add: sample_exited_def)
  from frames have wire: "write_frames (eh_serde sample_exec_host) (c_wire sample_exited) = Inr sample_wire"
    unfolding exited_frames by (simp add: write_frames_def sample_wire_def del: write_frame.simps)
  have healthy: "health_of Macos sample_exec_state ?paths = Inr (Healthy 42)"
  proof -
    have "sp_pidfile ?paths = ''/h/.local/share/devcroft/web/keeper.pid''"
      by (simp add: sample_paths_def in_dir_def path_join_def starts_with_def)
    moreover have "split_whitespace ''42 0'' = [''42'', ''0'']" by code_simp
    moreover have "parse_i32 ''42'' = Some 42" "parse_u64 ''0'' = Some 0"
      by (simp_all add: parse_i32_def parse_u64_def parse_unsigned_def is_ascii_digit_def)
    ultimately show ?thesis
      by (simp add: health_of_def read_pidfile_def read_to_string_def parse_pidfile_def is_same_process_def
          is_process_alive_def sample_exec_state_def sample_view_def)
  qed
  have sent: "write_frame (eh_serde sample_exec_host) (Spawn (exec_spawn_request ?req)) = Inr [1, 0, 0, 0, 2, 108, 115]"
    by (simp add: write_json_def raw sample_exec_host_def sample_exec_serde_def const_serde_def result_simps
        tag_defs to_be_bytes_def)
  have exited: "Exit \<lparr>exit_code = Some 0, exit_signal = None\<rparr> \<in> set (c_wire sample_exited)"
    by (simp add: sample_exited_def)
  have "eh_connect sample_exec_host (sp_socket ?paths) = Inr (\<lambda>_. sample_wire)" "prefix sample_wire sample_wire"
    by (simp_all add: sample_exec_host_def)
  from exec_end_to_end [OF lib sample_exited_run exited wire _ _ sent this, of "''web''" sample_exec_state 42]
  show ?thesis
    using sample_paths healthy
    by (simp add: sample_exec_host_def sample_exited_def sample_stopped_def exit_code_from_def)
qed

section \<open>Properties: input and signals\<close>

definition typed :: "(unit + bytes) list \<Rightarrow> bytes" where
  "typed reads = concat (map projr (takeWhile (\<lambda>r. r \<noteq> Inr [] \<and> \<not> isl r) reads))"

lemma stdin_pump_fed:
  assumes "c_stdin c"
  shows "c_fed (foldl (\<lambda>c f. client_frame True f c) c (stdin_pump reads)) = c_fed c @ typed reads
    \<and> (c_stdin (foldl (\<lambda>c f. client_frame True f c) c (stdin_pump reads))
        = list_all (\<lambda>r. r \<noteq> Inr [] \<and> \<not> isl r) reads)"
  using assms
proof (induction reads arbitrary: c rule: stdin_pump.induct)
  case (3 bs reads)
  show ?case
  proof (cases "bs = []")
    case False
    then show ?thesis using 3(1) [OF False, of "c\<lparr>c_fed := c_fed c @ bs\<rparr>"] 3(2) by (simp add: typed_def)
  qed (simp add: typed_def)
qed (simp_all add: typed_def)

lemma stdin_pump_written:
  assumes "serde_lib_ok L" and "list_all (\<lambda>r. case r of Inr bs \<Rightarrow> length bs \<le> STDIN_BUF | Inl _ \<Rightarrow> True) reads"
  shows "\<exists>bs. codec.encodes (write_frame L) (stdin_pump reads) bs"
  using assms(2)
proof (induction reads rule: stdin_pump.induct)
  case (3 bs reads)
  then show ?case
    by (auto simp: codec.encodes.simps [OF frame_codec [OF assms(1)]] write_raw_def MAX_FRAME_LEN_def STDIN_BUF_def)
qed (auto simp: codec.encodes.simps [OF frame_codec [OF assms(1)]] write_raw_def MAX_FRAME_LEN_def)

text \<open>
  What the client reads from its standard input, in reads of at most its buffer, can always be
  framed; the keeper that reads the frames back and can write to the session's standard input
  feeds it exactly the bytes read up to the end of the input or its first error, and closes it
  exactly when one of the two was met.
\<close>

theorem stdin_reaches_child:
  assumes "serde_lib_ok L" and "list_all (\<lambda>r. case r of Inr bs \<Rightarrow> length bs \<le> STDIN_BUF | Inl _ \<Rightarrow> True) reads"
    and "c_stdin c"
  shows "\<exists>bs. write_frames L (stdin_pump reads) = Inr bs
    \<and> c_fed (foldl (\<lambda>c f. client_frame True f c) c (fst (read_frames L bs))) = c_fed c @ typed reads
    \<and> (c_stdin (foldl (\<lambda>c f. client_frame True f c) c (fst (read_frames L bs)))
        \<longleftrightarrow> list_all (\<lambda>r. r \<noteq> Inr [] \<and> \<not> isl r) reads)"
proof -
  obtain bs where "codec.encodes (write_frame L) (stdin_pump reads) bs"
    using stdin_pump_written [OF assms(1,2)] by blast
  then have wf: "write_frames L (stdin_pump reads) = Inr bs"
    using write_frames_fold [OF assms(1), of "[]"] by (simp add: write_frames_def)
  then have "fst (read_frames L bs) = stdin_pump reads"
    using read_frames_prefix [OF assms(1) wf prefix_order.refl] by auto
  then show ?thesis using wf stdin_pump_fed [OF assms(3)] by simp
qed

theorem stdin_reaches_child_witness:
  "\<exists>bs. write_frames sample_serde (stdin_pump [Inr [104], Inr [105], Inr [], Inr [120]]) = Inr bs
    \<and> c_fed (foldl (\<lambda>c f. client_frame True f c) (sample_conn\<lparr>c_stdin := True\<rparr>) (fst (read_frames sample_serde bs)))
        = [104, 105]"
proof -
  have "list_all (\<lambda>r. case r of Inr bs \<Rightarrow> length bs \<le> STDIN_BUF | Inl _ \<Rightarrow> True)
      [Inr [104], Inr [105], Inr [], Inr [120] :: unit + bytes]"
    by (simp add: STDIN_BUF_def)
  from stdin_reaches_child [OF sample_serde_ok this, of "sample_conn\<lparr>c_stdin := True\<rparr>"] show ?thesis
    by (auto simp: typed_def sample_conn_def conn_init_def)
qed

text \<open>
  Every signal the client blocks is forwarded with its own number, except that a change of the
  window size is forwarded as the new size, and not at all without a terminal; nothing else is
  ever forwarded.
\<close>

theorem forward_signal_table:
  "(case forward_signal pty ws s of
      Some (Signal sig) \<Rightarrow> s \<in> set (blocked_signals pty) \<and> as_libc sig = s \<and> s \<noteq> SIGWINCH
    | Some (Resize sz) \<Rightarrow> pty \<and> s = SIGWINCH \<and> ws = Some (rows sz, cols sz) \<and> rows sz \<noteq> 0 \<and> cols sz \<noteq> 0
    | Some _ \<Rightarrow> False
    | None \<Rightarrow> s \<notin> set (blocked_signals pty) \<or> s = SIGWINCH \<and> terminal_size ws = None)"
  by (auto simp: forward_signal_def blocked_signals_def SIGWINCH_def terminal_size_def split: option.splits prod.splits)

end
