(* ===== verification/SshRelay.thy ===== *)
theory SshRelay
  imports Exec
begin

text \<open>
  How the output and the end of a session reach an ssh channel (\<open>src/ssh/server.rs\<close>): the threads and
  the task of \<open>relay_session_to_channel\<close> as a step relation over the streams of theory \<open>Connection\<close>,
  and the wrapper that withholds the end of an sftp stream, \<open>NotifyOnEof\<close>. RlSending on the channel
  is russh's; a message handed to it counts as sent.
\<close>

section \<open>The relay\<close>

datatype ssh_message = MData bytes | MStderr bytes | MExit u32 | MEof | MClose

definition ssh_exit_code :: "exit_status \<Rightarrow> u32" where
  "ssh_exit_code status = (case exit_code status of
      Some code \<Rightarrow> code
    | None \<Rightarrow> (case map_option (\<lambda>s. 128 + s) (exit_signal status) of Some c \<Rightarrow> c | None \<Rightarrow> 1))"

fun message_of :: "frame \<Rightarrow> ssh_message" where
  "message_of (Stdout bs) = MData bs"
| "message_of (Stderr bs) = MStderr bs"
| "message_of (Exit status) = MExit (ssh_exit_code status)"
| "message_of _ = MEof"

definition RELAY_QUEUE :: nat where
  "RELAY_QUEUE = 64"

datatype relay_pc = RlJoinOut | RlJoinErr | RlWaiting | RlSending exit_status | RlWaitDone

text \<open>The events are frames of the wire protocol with the same contents; \<open>rl_events\<close> is a history
  variable, all events ever put into the queue.\<close>

record relay_state =
  rl_out :: stream
  rl_err :: stream
  rl_child :: child_state
  rl_wait :: relay_pc
  rl_queue :: "frame list"
  rl_events :: "frame list"
  rl_sent :: "ssh_message list"
  rl_done :: bool

definition enqueue :: "frame list \<Rightarrow> relay_state \<Rightarrow> relay_state" where
  "enqueue fs r = r\<lparr>rl_queue := rl_queue r @ fs, rl_events := rl_events r @ fs\<rparr>"

text \<open>What the session does.\<close>

inductive relay_env :: "relay_state \<Rightarrow> relay_state \<Rightarrow> bool" where
  child_out: "produce (rl_out r) st \<Longrightarrow> relay_env r (r\<lparr>rl_out := st\<rparr>)"
| child_err: "produce (rl_err r) st \<Longrightarrow> relay_env r (r\<lparr>rl_err := st\<rparr>)"
| child_exit: "rl_child r = Alive \<Longrightarrow> relay_env r (r\<lparr>rl_child := Zombie status\<rparr>)"

text \<open>What the relay does: the two pumps, the thread that waits, the task that sends.\<close>

inductive relay_internal :: "relay_state \<Rightarrow> relay_state \<Rightarrow> bool" where
  pump_out: "\<lbrakk>pump_step True Stdout (rl_out r) fs st; length (rl_queue r @ fs) \<le> RELAY_QUEUE\<rbrakk> \<Longrightarrow>
    relay_internal r (enqueue fs (r\<lparr>rl_out := st\<rparr>))"
| pump_err: "\<lbrakk>pump_step True Stderr (rl_err r) fs st; length (rl_queue r @ fs) \<le> RELAY_QUEUE\<rbrakk> \<Longrightarrow>
    relay_internal r (enqueue fs (r\<lparr>rl_err := st\<rparr>))"
| join_out: "\<lbrakk>rl_wait r = RlJoinOut; \<not> st_running (rl_out r)\<rbrakk> \<Longrightarrow> relay_internal r (r\<lparr>rl_wait := RlJoinErr\<rparr>)"
| join_err: "\<lbrakk>rl_wait r = RlJoinErr; \<not> st_running (rl_err r)\<rbrakk> \<Longrightarrow> relay_internal r (r\<lparr>rl_wait := RlWaiting\<rparr>)"
| reap: "\<lbrakk>rl_wait r = RlWaiting; rl_child r = Zombie status\<rbrakk> \<Longrightarrow>
    relay_internal r (r\<lparr>rl_child := Reaped, rl_wait := RlSending (to_exit_status (Inr status))\<rparr>)"
| wait_error: "rl_wait r = RlWaiting \<Longrightarrow> relay_internal r (r\<lparr>rl_wait := RlSending (to_exit_status (Inl e))\<rparr>)"
| send_exit: "\<lbrakk>rl_wait r = RlSending status; length (rl_queue r) < RELAY_QUEUE\<rbrakk> \<Longrightarrow>
    relay_internal r (enqueue [Exit status] (r\<lparr>rl_wait := RlWaitDone\<rparr>))"
| forward: "\<lbrakk>rl_queue r = f # fs; \<not> rl_done r\<rbrakk> \<Longrightarrow>
    relay_internal r (r\<lparr>rl_queue := fs, rl_sent := rl_sent r @ [message_of f]\<rparr>)"
| finish: "\<lbrakk>rl_queue r = []; \<not> st_running (rl_out r); \<not> st_running (rl_err r); rl_wait r = RlWaitDone; \<not> rl_done r\<rbrakk> \<Longrightarrow>
    relay_internal r (r\<lparr>rl_sent := rl_sent r @ [MEof, MClose], rl_done := True\<rparr>)"

definition relay_init :: "spawned_session \<Rightarrow> relay_state" where
  "relay_init spawned = \<lparr>rl_out = new_stream True, rl_err = new_stream (sp_stderr spawned \<noteq> None), rl_child = Alive,
     rl_wait = RlJoinOut, rl_queue = [], rl_events = [], rl_sent = [], rl_done = False\<rparr>"

inductive relay_run :: "spawned_session \<Rightarrow> relay_state \<Rightarrow> bool" for spawned where
  init: "relay_run spawned (relay_init spawned)"
| env: "\<lbrakk>relay_run spawned r; relay_env r r'\<rbrakk> \<Longrightarrow> relay_run spawned r'"
| internal: "\<lbrakk>relay_run spawned r; relay_internal r r'\<rbrakk> \<Longrightarrow> relay_run spawned r'"

section \<open>The end of an sftp stream\<close>

datatype eof_state = EofPending | EofSending | EofDone

text \<open>A poll of a stream: nothing yet, some bytes, its end (a read that fills nothing), an error.\<close>

datatype stream_poll = PollPending | PollData bytes | PollEnd | PollError

text \<open>\<open>inner\<close> is the answer of the wrapped stream, \<open>ready\<close> whether the notification, once begun, is
  complete in this poll; the messages are those of a completed notification.\<close>

definition poll_read :: "stream_poll \<Rightarrow> bool \<Rightarrow> eof_state \<Rightarrow> stream_poll \<times> ssh_message list \<times> eof_state" where
  "poll_read inner ready st =
     (if st = EofSending then (if ready then (PollEnd, [MExit 0, MEof], EofDone) else (PollPending, [], EofSending))
      else if inner = PollEnd \<and> st = EofPending then
        (if ready then (PollEnd, [MExit 0, MEof], EofDone) else (PollPending, [], EofSending))
      else (inner, [], st))"

fun polls :: "(stream_poll \<times> bool) list \<Rightarrow> eof_state \<Rightarrow> stream_poll list \<times> ssh_message list \<times> eof_state" where
  "polls [] st = ([], [], st)"
| "polls ((inner, ready) # ps) st =
     (case poll_read inner ready st of (r, ms, st) \<Rightarrow>
      (case polls ps st of (rs, later, st) \<Rightarrow> (r # rs, ms @ later, st)))"

section \<open>Lemmas: the order of messages\<close>

lemma enqueue_fields [simp]:
  "rl_out (enqueue fs r) = rl_out r" "rl_err (enqueue fs r) = rl_err r" "rl_child (enqueue fs r) = rl_child r"
  "rl_wait (enqueue fs r) = rl_wait r" "rl_sent (enqueue fs r) = rl_sent r" "rl_done (enqueue fs r) = rl_done r"
  "rl_queue (enqueue fs r) = rl_queue r @ fs" "rl_events (enqueue fs r) = rl_events r @ fs"
  by (simp_all add: enqueue_def)

definition relay_streams :: "relay_state \<Rightarrow> bool" where
  "relay_streams r \<longleftrightarrow> stream_ok (out_bytes (rl_events r)) (rl_out r) \<and> stream_ok (err_bytes (rl_events r)) (rl_err r)
     \<and> (rl_wait r \<noteq> RlJoinOut \<longrightarrow> \<not> st_running (rl_out r))
     \<and> (rl_wait r \<noteq> RlJoinOut \<and> rl_wait r \<noteq> RlJoinErr \<longrightarrow> \<not> st_running (rl_err r))"

definition relay_events_ok :: "relay_state \<Rightarrow> bool" where
  "relay_events_ok r \<longleftrightarrow> (\<exists>mid ex. rl_events r = mid @ ex \<and> list_all is_output mid
     \<and> (if rl_wait r = RlWaitDone then \<exists>status. ex = [Exit status] else ex = []))"

definition relay_sent_ok :: "relay_state \<Rightarrow> bool" where
  "relay_sent_ok r \<longleftrightarrow> (\<exists>forwarded. rl_events r = forwarded @ rl_queue r
        \<and> rl_sent r = map message_of forwarded @ (if rl_done r then [MEof, MClose] else []))
     \<and> (rl_done r \<longrightarrow> rl_queue r = [] \<and> rl_wait r = RlWaitDone \<and> \<not> st_running (rl_out r) \<and> \<not> st_running (rl_err r))"

lemma relay_streams_internal:
  assumes "relay_internal r r'" "relay_streams r"
  shows "relay_streams r'"
  using assms
proof cases
  case (pump_out fs st)
  then show ?thesis
    using assms(2) pump_stream_ok [OF pump_out(2), of "out_bytes (rl_events r)" out_bytes]
      pump_step_sends [OF pump_out(2)] pump_stays_stopped [OF pump_out(2)] by (auto simp: relay_streams_def)
next
  case (pump_err fs st)
  then show ?thesis
    using assms(2) pump_stream_ok [OF pump_err(2), of "err_bytes (rl_events r)" err_bytes]
      pump_step_sends [OF pump_err(2)] pump_stays_stopped [OF pump_err(2)] by (auto simp: relay_streams_def)
qed (use assms(2) in \<open>auto simp: relay_streams_def\<close>)

lemma relay_events_internal:
  assumes "relay_internal r r'" "relay_streams r" "relay_events_ok r"
  shows "relay_events_ok r'"
  using assms
proof cases
  case (pump_out fs st)
  then have "rl_wait r \<noteq> RlWaitDone" "list_all is_output fs"
    using assms(2) pump_step_sends [OF pump_out(2)] by (auto simp: relay_streams_def)
  then show ?thesis using assms(3) pump_out by (auto simp: relay_events_ok_def)
next
  case (pump_err fs st)
  then have "rl_wait r \<noteq> RlWaitDone" "list_all is_output fs"
    using assms(2) pump_step_sends [OF pump_err(2)] by (auto simp: relay_streams_def)
  then show ?thesis using assms(3) pump_err by (auto simp: relay_events_ok_def)
qed (use assms(3) in \<open>auto simp: relay_events_ok_def\<close>)

lemma relay_sent_internal:
  assumes "relay_internal r r'" "relay_sent_ok r"
  shows "relay_sent_ok r'"
  using assms
proof cases
  case (pump_out fs st)
  then have "\<not> rl_done r" using assms(2) pump_step_sends [OF pump_out(2)] by (auto simp: relay_sent_ok_def)
  then show ?thesis using assms(2) pump_out by (auto simp: relay_sent_ok_def)
next
  case (pump_err fs st)
  then have "\<not> rl_done r" using assms(2) pump_step_sends [OF pump_err(2)] by (auto simp: relay_sent_ok_def)
  then show ?thesis using assms(2) pump_err by (auto simp: relay_sent_ok_def)
qed (use assms(2) in \<open>auto simp: relay_sent_ok_def\<close>)

lemma relay_env_fields:
  assumes "relay_env r r'"
  shows "rl_wait r' = rl_wait r" "rl_queue r' = rl_queue r" "rl_events r' = rl_events r" "rl_sent r' = rl_sent r"
    "rl_done r' = rl_done r" "st_running (rl_out r') = st_running (rl_out r)"
    "st_running (rl_err r') = st_running (rl_err r)"
  using assms by (cases; simp add: produce_running)+

lemma relay_run_invariants:
  "relay_run spawned r \<Longrightarrow> relay_streams r \<and> relay_events_ok r \<and> relay_sent_ok r"
proof (induction rule: relay_run.induct)
  case init
  then show ?case
    by (auto simp: relay_streams_def relay_events_ok_def relay_sent_ok_def relay_init_def stream_ok_def new_stream_def)
next
  case (env r r')
  from env.hyps(2) have "relay_streams r'"
    by cases (use env.IH in \<open>auto simp: relay_streams_def produce_stream_ok produce_running\<close>)
  then show ?case
    using env.IH relay_env_fields [OF env.hyps(2)] by (auto simp: relay_events_ok_def relay_sent_ok_def)
next
  case (internal r r')
  then show ?case using relay_streams_internal relay_events_internal relay_sent_internal by blast
qed


section \<open>Lemmas: the relay ends\<close>

fun wait_weight :: "relay_pc \<Rightarrow> nat" where
  "wait_weight RlJoinOut = 8"
| "wait_weight RlJoinErr = 6"
| "wait_weight RlWaiting = 4"
| "wait_weight (RlSending _) = 2"
| "wait_weight RlWaitDone = 0"

definition stream_weight :: "stream \<Rightarrow> nat" where
  "stream_weight st = 2 * length (st_buf st) + (if st_running st then 1 else 0)"

definition relay_measure :: "relay_state \<Rightarrow> nat" where
  "relay_measure r = stream_weight (rl_out r) + stream_weight (rl_err r) + wait_weight (rl_wait r)
     + length (rl_queue r) + (if rl_done r then 0 else 1)"

lemma pump_step_weight: "pump_step True wrap st fs st' \<Longrightarrow> stream_weight st' + length fs < stream_weight st"
  by (erule pump_step.cases) (auto simp: stream_weight_def neq_Nil_conv)

lemma relay_internal_decreases:
  assumes "relay_internal r r'"
  shows "relay_measure r' < relay_measure r"
  using assms
proof cases
  case (pump_out fs st)
  then show ?thesis using pump_step_weight [OF pump_out(2)] by (simp add: relay_measure_def)
next
  case (pump_err fs st)
  then show ?thesis using pump_step_weight [OF pump_err(2)] by (simp add: relay_measure_def)
qed (simp_all add: relay_measure_def)

text \<open>The session is over: its process has ended and nothing holds its streams open.\<close>

definition session_over :: "relay_state \<Rightarrow> bool" where
  "session_over r \<longleftrightarrow> rl_child r \<noteq> Alive \<and> st_eof (rl_out r) \<and> st_eof (rl_err r)"

lemma pump_step_eof: "pump_step rcv wrap st fs st' \<Longrightarrow> st_eof st' = st_eof st"
  by (erule pump_step.cases) auto

lemma session_over_internal: "relay_internal r r' \<Longrightarrow> session_over r \<Longrightarrow> session_over r'"
  by (erule relay_internal.cases) (auto simp: session_over_def pump_step_eof)

lemma pump_can_step:
  assumes "st_running st" "st_eof st"
  shows "\<exists>fs st'. pump_step True wrap st fs st' \<and> length fs \<le> 1"
proof (cases "st_buf st")
  case Nil
  then show ?thesis using pump_step.end_of_stream [of st True wrap] assms by fastforce
next
  case (Cons b bs)
  have "pump_step True wrap st [wrap [b]] (st\<lparr>st_buf := bs\<rparr>)"
    using pump_step.chunk [of st "[b]" bs True wrap] assms Cons by (simp add: PUMP_BUF_def)
  then show ?thesis by fastforce
qed

lemma relay_progress:
  assumes "relay_run spawned r" "session_over r" "\<not> rl_done r"
  shows "\<exists>r'. relay_internal r r'"
proof (cases "rl_queue r")
  case (Cons f fs)
  then show ?thesis using assms(3) relay_internal.forward by blast
next
  case Nil
  have room: "length (rl_queue r @ fs) \<le> RELAY_QUEUE" if "length fs \<le> 1" for fs
    using that Nil by (simp add: RELAY_QUEUE_def)
  show ?thesis
  proof (cases "st_running (rl_out r) \<or> st_running (rl_err r)")
    case True
    then show ?thesis
      using pump_can_step [of "rl_out r" Stdout] pump_can_step [of "rl_err r" Stderr] assms(2) room
        relay_internal.pump_out relay_internal.pump_err by (auto simp: session_over_def) blast+
  next
    case False
    then show ?thesis
      using Nil assms relay_internal.join_out [of r] relay_internal.join_err [of r] relay_internal.wait_error [of r]
        relay_internal.send_exit [of r] relay_internal.finish [of r]
      by (cases "rl_wait r") (auto simp: RELAY_QUEUE_def)
  qed
qed

text \<open>
  C18: the channel of a session is always closed. Once the session's process has ended and its streams
  are at their end, the relay can take only finitely many more steps, at most its measure, which
  counts the bytes still to be read; and wherever it can take no more, it has sent the exit status,
  the end of file and the close.
\<close>

theorem ssh_relay_closes:
  assumes "relay_run spawned r" and "session_over r" and "(relay_internal ^^ n) r r'"
  shows "n + relay_measure r' \<le> relay_measure r
    \<and> ((\<nexists>r''. relay_internal r' r'') \<longrightarrow> MClose \<in> set (rl_sent r'))"
proof -
  have "n + relay_measure r' \<le> relay_measure r \<and> relay_run spawned r' \<and> session_over r'"
    using assms(3)
  proof (induction n arbitrary: r')
    case 0
    then show ?case using assms by simp
  next
    case (Suc n)
    then obtain m where m: "(relay_internal ^^ n) r m" "relay_internal m r'" by auto
    then show ?case
      using Suc.IH [OF m(1)] relay_internal_decreases [OF m(2)] session_over_internal [OF m(2)]
        relay_run.internal [OF _ m(2)] by fastforce
  qed
  moreover from this have "\<not> rl_done r' \<Longrightarrow> \<exists>r''. relay_internal r' r''" using relay_progress by blast
  moreover have "rl_done r' \<Longrightarrow> MClose \<in> set (rl_sent r')"
    using calculation(1) relay_run_invariants [of spawned r'] by (auto simp: relay_sent_ok_def)
  ultimately show ?thesis by blast
qed

lemma polls_sent:
  "(case polls ps st of (rs, ms, st') \<Rightarrow>
      (st = EofDone \<longrightarrow> ms = [] \<and> st' = EofDone)
    \<and> (st \<noteq> EofDone \<longrightarrow> ms = (if PollEnd \<in> set rs then [MExit 0, MEof] else [])
        \<and> (st' = EofDone \<longleftrightarrow> PollEnd \<in> set rs)))"
proof (induction ps st rule: polls.induct)
  case (2 inner ready ps st)
  show ?case
  proof (cases "poll_read inner ready st")
    case (fields r ms st1)
    then show ?thesis using 2 [OF fields [symmetric] refl]
      by (cases st) (auto simp: poll_read_def split: prod.splits if_splits)
  qed
qed simp

text \<open>
  The end of an sftp stream is withheld until the exit status is on its way: over any sequence of
  polls the end is reported only if the exit status and the end of file have been sent, once and in
  this order, and they are never sent otherwise.
\<close>

theorem sftp_end_follows_exit_status:
  "fst (snd (polls ps EofPending)) = (if PollEnd \<in> set (fst (polls ps EofPending)) then [MExit 0, MEof] else [])"
  using polls_sent [of EofPending ps] by (simp add: case_prod_beta)

section \<open>A session\<close>

definition sample_relay :: spawned_session where
  "sample_relay = \<lparr>sp_pgid = 7, sp_stdin = None, sp_stdout = Pipe, sp_stderr = None, sp_resize = None\<rparr>"

text \<open>A session that writes nothing and exits with code 3.\<close>

definition sample_over :: relay_state where
  "sample_over = (relay_init sample_relay)\<lparr>rl_child := Zombie \<lparr>os_code = Some 3, os_signal = None\<rparr>,
     rl_out := (new_stream True)\<lparr>st_eof := True\<rparr>\<rparr>"

lemma sample_over_run: "relay_run sample_relay sample_over"
proof -
  define r1 where "r1 = (relay_init sample_relay)\<lparr>rl_child := Zombie \<lparr>os_code = Some 3, os_signal = None\<rparr>\<rparr>"
  have "relay_run sample_relay r1"
    unfolding r1_def by (rule relay_run.env [OF relay_run.init relay_env.child_exit]) (simp add: relay_init_def)
  moreover have "produce (rl_out r1) ((new_stream True)\<lparr>st_eof := True\<rparr>)"
    using produce.hang_up [of "rl_out r1"] by (simp add: r1_def relay_init_def)
  ultimately have "relay_run sample_relay (r1\<lparr>rl_out := (new_stream True)\<lparr>st_eof := True\<rparr>\<rparr>)"
    by (rule relay_run.env [OF _ relay_env.child_out])
  then show ?thesis by (simp add: sample_over_def r1_def)
qed

definition sample_status :: exit_status where
  "sample_status = \<lparr>exit_code = Some 3, exit_signal = None\<rparr>"

definition sample_closed :: relay_state where
  "sample_closed = sample_over\<lparr>rl_out := (new_stream True)\<lparr>st_eof := True, st_running := False\<rparr>, rl_child := Reaped,
     rl_wait := RlWaitDone, rl_events := [Exit sample_status], rl_sent := [MExit 3, MEof, MClose], rl_done := True\<rparr>"

lemma sample_closed_steps: "(relay_internal ^^ 7) sample_over sample_closed"
proof -
  define r1 where "r1 = sample_over\<lparr>rl_out := (new_stream True)\<lparr>st_eof := True, st_running := False\<rparr>\<rparr>"
  define r2 where "r2 = r1\<lparr>rl_wait := RlJoinErr\<rparr>"
  define r3 where "r3 = r2\<lparr>rl_wait := RlWaiting\<rparr>"
  define r4 where "r4 = r3\<lparr>rl_child := Reaped, rl_wait := RlSending sample_status\<rparr>"
  define r5 where "r5 = enqueue [Exit sample_status] (r4\<lparr>rl_wait := RlWaitDone\<rparr>)"
  define r6 where "r6 = r5\<lparr>rl_queue := [], rl_sent := rl_sent r5 @ [message_of (Exit sample_status)]\<rparr>"
  note defs = r1_def r2_def r3_def r4_def r5_def r6_def sample_over_def relay_init_def sample_relay_def new_stream_def
    sample_status_def
  have "pump_step True Stdout (rl_out sample_over) [] ((new_stream True)\<lparr>st_eof := True, st_running := False\<rparr>)"
    using pump_step.end_of_stream [of "rl_out sample_over" True Stdout] by (simp add: sample_over_def new_stream_def)
  from relay_internal.pump_out [OF this] have 1: "relay_internal sample_over r1"
    by (simp add: enqueue_def defs RELAY_QUEUE_def)
  have 2: "relay_internal r1 r2" unfolding r2_def by (rule relay_internal.join_out) (simp_all add: defs)
  have 3: "relay_internal r2 r3" unfolding r3_def by (rule relay_internal.join_err) (simp_all add: defs)
  have 4: "relay_internal r3 r4"
    using relay_internal.reap [of r3 "\<lparr>os_code = Some 3, os_signal = None\<rparr>"]
    by (simp add: defs to_exit_status_def)
  have 5: "relay_internal r4 r5" unfolding r5_def
    by (rule relay_internal.send_exit) (simp_all add: defs RELAY_QUEUE_def)
  have 6: "relay_internal r5 r6" unfolding r6_def by (rule relay_internal.forward) (simp_all add: defs enqueue_def)
  have 7: "relay_internal r6 (r6\<lparr>rl_sent := rl_sent r6 @ [MEof, MClose], rl_done := True\<rparr>)"
    by (rule relay_internal.finish) (simp_all add: defs enqueue_def)
  moreover have "r6\<lparr>rl_sent := rl_sent r6 @ [MEof, MClose], rl_done := True\<rparr> = sample_closed"
    by (simp add: sample_closed_def defs enqueue_def ssh_exit_code_def)
  ultimately have "relay_internal r6 sample_closed" by simp
  then show ?thesis using 1 2 3 4 5 6 by (auto simp: eval_nat_numeral relpowp.simps intro!: relcomppI)
qed

lemma sample_closed_run: "relay_run sample_relay sample_closed"
proof -
  have "relay_run sample_relay r'" if "(relay_internal ^^ n) sample_over r'" for n r'
    using that by (induction n arbitrary: r') (auto intro: sample_over_run relay_run.internal)
  then show ?thesis using sample_closed_steps by blast
qed


lemma sample_closed_stuck: "\<nexists>r''. relay_internal sample_closed r''"
proof (rule notI, elim exE)
  fix r''
  assume "relay_internal sample_closed r''"
  then show False
    by cases (auto simp: sample_closed_def sample_over_def relay_init_def sample_relay_def new_stream_def
        elim: pump_step.cases)
qed

theorem ssh_relay_closes_witness:
  "7 + relay_measure sample_closed \<le> relay_measure sample_over \<and> MClose \<in> set (rl_sent sample_closed)"
proof -
  have "session_over sample_over"
    by (simp add: session_over_def sample_over_def relay_init_def new_stream_def sample_relay_def)
  from ssh_relay_closes [OF sample_over_run this sample_closed_steps] sample_closed_stuck show ?thesis
    by blast
qed

end
