(* ===== verification/Sftp.thy ===== *)
theory Sftp
  imports Registry
begin

text \<open>
  The file-transfer subsystem of the ssh server (\<open>src/ssh/sftp.rs\<close>). Every request is a call of the
  file system; what the handler adds is a table of handles and the order of the calls. The file
  system is a parameter: the result of each call, given the calls made before it. A directory that is
  being read is the list of what its iterator has yet to yield, each entry with the result of reading
  its metadata. The conversions of the protocol library (open flags to options, metadata to
  attributes) belong to those parameters.
\<close>

section \<open>Model\<close>

datatype io_kind = IoNotFound | IoPermissionDenied | IoOther

datatype status_code = StOk | StEof | StNoSuchFile | StPermissionDenied | StFailure | StOpUnsupported

fun map_io_err :: "io_kind \<Rightarrow> status_code" where
  "map_io_err IoNotFound = StNoSuchFile"
| "map_io_err IoPermissionDenied = StPermissionDenied"
| "map_io_err IoOther = StFailure"

datatype fs_call =
    FsOpen u32 string | FsClose nat | FsSeek nat u64 | FsRead nat nat | FsWriteAll nat bytes
  | FsSymlinkMetadata string | FsFileMetadata nat | FsSetLen nat u64 | FsReadDir string
  | FsRemoveFile string | FsCreateDir string | FsRemoveDir string | FsCanonicalize string
  | FsMetadata string | FsRename string string | FsReadLink string | FsSymlink string string

type_synonym 'm dir_item = "io_kind + string \<times> (io_kind + 'm)"

record 'm sftp_os =
  os_open :: "fs_call list \<Rightarrow> fs_call \<Rightarrow> io_kind + nat"
  os_unit :: "fs_call list \<Rightarrow> fs_call \<Rightarrow> io_kind + unit"
  os_read :: "fs_call list \<Rightarrow> fs_call \<Rightarrow> io_kind + bytes"
  os_meta :: "fs_call list \<Rightarrow> fs_call \<Rightarrow> io_kind + 'm"
  os_dir :: "fs_call list \<Rightarrow> fs_call \<Rightarrow> io_kind + 'm dir_item list"
  os_path :: "fs_call list \<Rightarrow> fs_call \<Rightarrow> io_kind + string"

text \<open>\<open>FsHandler\<close>, with the calls made so far.\<close>

record 'm sftp =
  open_files :: "string \<rightharpoonup> nat"
  open_dirs :: "string \<rightharpoonup> 'm dir_item list"
  next_handle :: u64
  fs_calls :: "fs_call list"

definition sftp_new :: "'m sftp" where
  "sftp_new = \<lparr>open_files = Map.empty, open_dirs = Map.empty, next_handle = 0, fs_calls = []\<rparr>"

datatype 'm sftp_reply =
    RVersion
  | RHandle u32 string
  | RStatus u32 status_code
  | RData u32 bytes
  | RAttrs u32 'm
  | RName u32 "(string \<times> 'm option) list"

type_synonym 'm sftp_result = "(status_code + 'm sftp_reply) \<times> 'm sftp"

definition alloc_handle :: "'m sftp \<Rightarrow> string \<times> 'm sftp" where
  "alloc_handle s = (show_nat (unat (next_handle s)), s\<lparr>next_handle := next_handle s + 1\<rparr>)"

definition ok_status :: "u32 \<Rightarrow> 'm sftp_reply" where
  "ok_status rid = RStatus rid StOk"

definition READDIR_BATCH :: nat where
  "READDIR_BATCH = 256"

text \<open>A call, with its error mapped and the rest of the handler run on its value.\<close>

definition fs_then ::
  "(fs_call list \<Rightarrow> fs_call \<Rightarrow> io_kind + 'a) \<Rightarrow> fs_call \<Rightarrow> ('a \<Rightarrow> 'm sftp \<Rightarrow> 'm sftp_result) \<Rightarrow> 'm sftp \<Rightarrow> 'm sftp_result"
where
  "fs_then os c k s =
     (let s' = s\<lparr>fs_calls := fs_calls s @ [c]\<rparr> in
      case os (fs_calls s) c of Inl e \<Rightarrow> (Inl (map_io_err e), s') | Inr a \<Rightarrow> k a s')"

definition sftp_open :: "'m sftp_os \<Rightarrow> u32 \<Rightarrow> string \<Rightarrow> u32 \<Rightarrow> 'm sftp \<Rightarrow> 'm sftp_result" where
  "sftp_open os rid filename pflags =
     fs_then (os_open os) (FsOpen pflags filename) (\<lambda>f s.
       case alloc_handle s of (h, s) \<Rightarrow> (Inr (RHandle rid h), s\<lparr>open_files := (open_files s)(h \<mapsto> f)\<rparr>))"

definition sftp_close :: "u32 \<Rightarrow> string \<Rightarrow> 'm sftp \<Rightarrow> 'm sftp_result" where
  "sftp_close rid h s =
     (Inr (ok_status rid),
      s\<lparr>open_files := (open_files s)(h := None), open_dirs := (open_dirs s)(h := None),
        fs_calls := fs_calls s @ (case open_files s h of None \<Rightarrow> [] | Some f \<Rightarrow> [FsClose f])\<rparr>)"

definition sftp_read :: "'m sftp_os \<Rightarrow> u32 \<Rightarrow> string \<Rightarrow> u64 \<Rightarrow> u32 \<Rightarrow> 'm sftp \<Rightarrow> 'm sftp_result" where
  "sftp_read os rid h offset len s =
     (case open_files s h of
        None \<Rightarrow> (Inl StFailure, s)
      | Some f \<Rightarrow>
          fs_then (os_unit os) (FsSeek f offset) (\<lambda>_.
            fs_then (os_read os) (FsRead f (unat len)) (\<lambda>buf s.
              if buf = [] then (Inl StEof, s) else (Inr (RData rid buf), s))) s)"

definition sftp_write :: "'m sftp_os \<Rightarrow> u32 \<Rightarrow> string \<Rightarrow> u64 \<Rightarrow> bytes \<Rightarrow> 'm sftp \<Rightarrow> 'm sftp_result" where
  "sftp_write os rid h offset data s =
     (case open_files s h of
        None \<Rightarrow> (Inl StFailure, s)
      | Some f \<Rightarrow>
          fs_then (os_unit os) (FsSeek f offset) (\<lambda>_.
            fs_then (os_unit os) (FsWriteAll f data) (\<lambda>_ s. (Inr (ok_status rid), s))) s)"

definition sftp_lstat :: "'m sftp_os \<Rightarrow> u32 \<Rightarrow> string \<Rightarrow> 'm sftp \<Rightarrow> 'm sftp_result" where
  "sftp_lstat os rid path = fs_then (os_meta os) (FsSymlinkMetadata path) (\<lambda>m s. (Inr (RAttrs rid m), s))"

definition sftp_fstat :: "'m sftp_os \<Rightarrow> u32 \<Rightarrow> string \<Rightarrow> 'm sftp \<Rightarrow> 'm sftp_result" where
  "sftp_fstat os rid h s =
     (case open_files s h of
        None \<Rightarrow> (Inl StFailure, s)
      | Some f \<Rightarrow> fs_then (os_meta os) (FsFileMetadata f) (\<lambda>m s. (Inr (RAttrs rid m), s)) s)"

text \<open>Of the attributes a client sets on a handle only the size is looked at.\<close>

definition sftp_fsetstat :: "'m sftp_os \<Rightarrow> u32 \<Rightarrow> string \<Rightarrow> u64 option \<Rightarrow> 'm sftp \<Rightarrow> 'm sftp_result" where
  "sftp_fsetstat os rid h attrs_size s =
     (case attrs_size of
        None \<Rightarrow> (Inr (ok_status rid), s)
      | Some n \<Rightarrow>
          (case open_files s h of
             None \<Rightarrow> (Inl StFailure, s)
           | Some f \<Rightarrow> fs_then (os_unit os) (FsSetLen f n) (\<lambda>_ s. (Inr (ok_status rid), s)) s))"

definition sftp_opendir :: "'m sftp_os \<Rightarrow> u32 \<Rightarrow> string \<Rightarrow> 'm sftp \<Rightarrow> 'm sftp_result" where
  "sftp_opendir os rid path =
     fs_then (os_dir os) (FsReadDir path) (\<lambda>entries s.
       case alloc_handle s of (h, s) \<Rightarrow> (Inr (RHandle rid h), s\<lparr>open_dirs := (open_dirs s)(h \<mapsto> entries)\<rparr>))"

text \<open>The loop over at most a batch of entries: what was read, or the first error, and what is left.\<close>

fun readdir_loop ::
  "nat \<Rightarrow> 'm dir_item list \<Rightarrow> (string \<times> 'm option) list \<Rightarrow> (status_code + (string \<times> 'm option) list) \<times> 'm dir_item list"
where
  "readdir_loop 0 entries files = (Inr files, entries)"
| "readdir_loop (Suc n) [] files = (Inr files, [])"
| "readdir_loop (Suc n) (Inl e # entries) files = (Inl (map_io_err e), entries)"
| "readdir_loop (Suc n) (Inr (name, Inl e) # entries) files = (Inl (map_io_err e), entries)"
| "readdir_loop (Suc n) (Inr (name, Inr m) # entries) files =
     readdir_loop n entries (files @ [(from_utf8_lossy name, Some m)])"

definition sftp_readdir :: "u32 \<Rightarrow> string \<Rightarrow> 'm sftp \<Rightarrow> 'm sftp_result" where
  "sftp_readdir rid h s =
     (case open_dirs s h of
        None \<Rightarrow> (Inl StFailure, s)
      | Some entries \<Rightarrow>
          (case readdir_loop READDIR_BATCH entries [] of
             (r, rest) \<Rightarrow>
               (case r of
                  Inl e \<Rightarrow> Inl e
                | Inr files \<Rightarrow> if files = [] then Inl StEof else Inr (RName rid files),
                s\<lparr>open_dirs := (open_dirs s)(h \<mapsto> rest)\<rparr>)))"

text \<open>The requests that are one call with nothing to return: remove, mkdir, rmdir, rename, symlink.\<close>

definition sftp_remove :: "'m sftp_os \<Rightarrow> u32 \<Rightarrow> string \<Rightarrow> 'm sftp \<Rightarrow> 'm sftp_result" where
  "sftp_remove os rid filename = fs_then (os_unit os) (FsRemoveFile filename) (\<lambda>_ s. (Inr (ok_status rid), s))"

definition sftp_mkdir :: "'m sftp_os \<Rightarrow> u32 \<Rightarrow> string \<Rightarrow> 'm sftp \<Rightarrow> 'm sftp_result" where
  "sftp_mkdir os rid path = fs_then (os_unit os) (FsCreateDir path) (\<lambda>_ s. (Inr (ok_status rid), s))"

definition sftp_rmdir :: "'m sftp_os \<Rightarrow> u32 \<Rightarrow> string \<Rightarrow> 'm sftp \<Rightarrow> 'm sftp_result" where
  "sftp_rmdir os rid path = fs_then (os_unit os) (FsRemoveDir path) (\<lambda>_ s. (Inr (ok_status rid), s))"

definition sftp_rename :: "'m sftp_os \<Rightarrow> u32 \<Rightarrow> string \<Rightarrow> string \<Rightarrow> 'm sftp \<Rightarrow> 'm sftp_result" where
  "sftp_rename os rid oldpath newpath =
     fs_then (os_unit os) (FsRename oldpath newpath) (\<lambda>_ s. (Inr (ok_status rid), s))"

definition sftp_symlink :: "'m sftp_os \<Rightarrow> u32 \<Rightarrow> string \<Rightarrow> string \<Rightarrow> 'm sftp \<Rightarrow> 'm sftp_result" where
  "sftp_symlink os rid linkpath targetpath =
     fs_then (os_unit os) (FsSymlink targetpath linkpath) (\<lambda>_ s. (Inr (ok_status rid), s))"

definition sftp_stat :: "'m sftp_os \<Rightarrow> u32 \<Rightarrow> string \<Rightarrow> 'm sftp \<Rightarrow> 'm sftp_result" where
  "sftp_stat os rid path = fs_then (os_meta os) (FsMetadata path) (\<lambda>m s. (Inr (RAttrs rid m), s))"

definition sftp_readlink :: "'m sftp_os \<Rightarrow> u32 \<Rightarrow> string \<Rightarrow> 'm sftp \<Rightarrow> 'm sftp_result" where
  "sftp_readlink os rid path =
     fs_then (os_path os) (FsReadLink path) (\<lambda>target s. (Inr (RName rid [(from_utf8_lossy target, None)]), s))"

text \<open>A path that cannot be resolved is answered as it was asked.\<close>

definition sftp_realpath :: "'m sftp_os \<Rightarrow> u32 \<Rightarrow> string \<Rightarrow> 'm sftp \<Rightarrow> 'm sftp_result" where
  "sftp_realpath os rid path s =
     (let resolved = (case os_path os (fs_calls s) (FsCanonicalize path) of Inl _ \<Rightarrow> path | Inr p \<Rightarrow> p) in
      (Inr (RName rid [(from_utf8_lossy resolved, None)]), s\<lparr>fs_calls := fs_calls s @ [FsCanonicalize path]\<rparr>))"

datatype sftp_request =
    RqInit | RqOpen u32 string u32 | RqClose u32 string | RqRead u32 string u64 u32
  | RqWrite u32 string u64 bytes | RqLstat u32 string | RqFstat u32 string | RqFsetstat u32 string "u64 option"
  | RqOpendir u32 string | RqReaddir u32 string | RqRemove u32 string | RqMkdir u32 string | RqRmdir u32 string
  | RqRealpath u32 string | RqStat u32 string | RqRename u32 string string | RqReadlink u32 string
  | RqSymlink u32 string string | RqOther u32

text \<open>The handler as the library calls it; what it does not implement is refused.\<close>

fun sftp_handle :: "'m sftp_os \<Rightarrow> sftp_request \<Rightarrow> 'm sftp \<Rightarrow> 'm sftp_result" where
  "sftp_handle os RqInit s = (Inr RVersion, s)"
| "sftp_handle os (RqOpen rid filename pflags) s = sftp_open os rid filename pflags s"
| "sftp_handle os (RqClose rid h) s = sftp_close rid h s"
| "sftp_handle os (RqRead rid h offset len) s = sftp_read os rid h offset len s"
| "sftp_handle os (RqWrite rid h offset data) s = sftp_write os rid h offset data s"
| "sftp_handle os (RqLstat rid path) s = sftp_lstat os rid path s"
| "sftp_handle os (RqFstat rid h) s = sftp_fstat os rid h s"
| "sftp_handle os (RqFsetstat rid h n) s = sftp_fsetstat os rid h n s"
| "sftp_handle os (RqOpendir rid path) s = sftp_opendir os rid path s"
| "sftp_handle os (RqReaddir rid h) s = sftp_readdir rid h s"
| "sftp_handle os (RqRemove rid path) s = sftp_remove os rid path s"
| "sftp_handle os (RqMkdir rid path) s = sftp_mkdir os rid path s"
| "sftp_handle os (RqRmdir rid path) s = sftp_rmdir os rid path s"
| "sftp_handle os (RqRealpath rid path) s = sftp_realpath os rid path s"
| "sftp_handle os (RqStat rid path) s = sftp_stat os rid path s"
| "sftp_handle os (RqRename rid oldpath newpath) s = sftp_rename os rid oldpath newpath s"
| "sftp_handle os (RqReadlink rid path) s = sftp_readlink os rid path s"
| "sftp_handle os (RqSymlink rid linkpath targetpath) s = sftp_symlink os rid linkpath targetpath s"
| "sftp_handle os (RqOther rid) s = (Inl StOpUnsupported, s)"

fun sftp_run :: "'m sftp_os \<Rightarrow> sftp_request list \<Rightarrow> 'm sftp \<Rightarrow> (status_code + 'm sftp_reply) list \<times> 'm sftp" where
  "sftp_run os [] s = ([], s)"
| "sftp_run os (rq # rqs) s =
     (case sftp_handle os rq s of (r, s') \<Rightarrow> (case sftp_run os rqs s' of (rs, s'') \<Rightarrow> (r # rs, s'')))"

lemmas sftp_defs = fs_then_def alloc_handle_def sftp_open_def sftp_close_def sftp_read_def sftp_write_def
  sftp_lstat_def sftp_fstat_def sftp_fsetstat_def sftp_opendir_def sftp_readdir_def sftp_remove_def
  sftp_mkdir_def sftp_rmdir_def sftp_rename_def sftp_symlink_def sftp_stat_def sftp_readlink_def
  sftp_realpath_def Let_def

section \<open>Handles\<close>

fun handle_of :: "status_code + 'm sftp_reply \<Rightarrow> string option" where
  "handle_of (Inr (RHandle rid h)) = Some h"
| "handle_of _ = None"

definition handles_of :: "(status_code + 'm sftp_reply) list \<Rightarrow> string list" where
  "handles_of rs = List.map_filter handle_of rs"

lemma handles_of_Cons:
  "handles_of [] = []"
  "handles_of (r # rs) = (case handle_of r of None \<Rightarrow> handles_of rs | Some h \<Rightarrow> h # handles_of rs)"
  by (simp_all add: handles_of_def map_filter_simps split: option.splits)

definition open_handles :: "'m sftp \<Rightarrow> string set" where
  "open_handles s = dom (open_files s) \<union> dom (open_dirs s)"

definition issued_handles :: "'m sftp \<Rightarrow> string set" where
  "issued_handles s = show_nat ` {..<unat (next_handle s)}"

definition handles_left :: "'m sftp \<Rightarrow> bool" where
  "handles_left s = (next_handle s \<noteq> - 1)"

lemma show_nat_inject [simp]: "show_nat m = show_nat n \<longleftrightarrow> m = n"
  by (metis option.inject parse_show_nat)

lemma unat_next_handle: "handles_left s \<Longrightarrow> unat (next_handle s + 1) = Suc (unat (next_handle s))"
proof -
  assume "handles_left s"
  then have "1 + next_handle s \<noteq> 0" by (simp add: handles_left_def add_eq_0_iff)
  from unatSuc [OF this] show ?thesis by (simp add: add.commute)
qed

definition table_insert :: "nat + 'm dir_item list \<Rightarrow> 'm sftp \<Rightarrow> string \<times> 'm sftp" where
  "table_insert x s = (case alloc_handle s of (h, s') \<Rightarrow>
     (h, case x of Inl f \<Rightarrow> s'\<lparr>open_files := (open_files s')(h \<mapsto> f)\<rparr>
               | Inr entries \<Rightarrow> s'\<lparr>open_dirs := (open_dirs s')(h \<mapsto> entries)\<rparr>))"

interpretation handles: session_registry table_insert "\<lambda>h s. snd (sftp_close 0 h s)" "\<lambda>s h. h \<in> open_handles s"
  issued_handles handles_left
proof unfold_locales
  fix s :: "'m sftp" and x h s'
  assume ins: "table_insert x s = (h, s')"
  show "j \<in> open_handles s' \<longleftrightarrow> j = h \<or> j \<in> open_handles s" for j
    using ins by (auto simp: table_insert_def alloc_handle_def open_handles_def split: sum.splits if_splits)
  assume "handles_left s"
  note nxt = unat_next_handle [OF this]
  have h: "h = show_nat (unat (next_handle s))" "next_handle s' = next_handle s + 1"
    using ins by (auto simp: table_insert_def alloc_handle_def split: sum.splits)
  then show "h \<notin> issued_handles s" by (auto simp: issued_handles_def)
  show "issued_handles s' = insert h (issued_handles s)"
    using h nxt by (auto simp: issued_handles_def lessThan_Suc)
next
  show "issued_handles (snd (sftp_close 0 i s)) = issued_handles s" for i and s :: "'m sftp"
    by (simp add: sftp_close_def issued_handles_def)
  show "j \<in> open_handles (snd (sftp_close 0 i s)) \<longleftrightarrow> j \<noteq> i \<and> j \<in> open_handles s" for i j and s :: "'m sftp"
    by (auto simp: sftp_close_def open_handles_def)
qed

definition tables_wf :: "'m sftp \<Rightarrow> bool" where
  "tables_wf s \<longleftrightarrow> dom (open_files s) \<inter> dom (open_dirs s) = {} \<and> open_handles s \<subseteq> issued_handles s"

lemma sftp_handle_tables:
  assumes "sftp_handle os rq s = (r, s')"
  shows "case handle_of r of
      Some h \<Rightarrow> (\<forall>rid h'. rq \<noteq> RqClose rid h') \<and> (\<exists>x calls. table_insert x (s\<lparr>fs_calls := calls\<rparr>) = (h, s'))
    | None \<Rightarrow> next_handle s' = next_handle s \<and> (case rq of
          RqClose rid h \<Rightarrow> dom (open_files s') = dom (open_files s) - {h} \<and> dom (open_dirs s') = dom (open_dirs s) - {h}
        | _ \<Rightarrow> dom (open_files s') = dom (open_files s) \<and> dom (open_dirs s') = dom (open_dirs s))"
proof (cases rq)
  case (RqOpen rid filename pflags)
  then show ?thesis using assms
    by (auto simp: sftp_defs table_insert_def split: sum.splits intro!: exI [of _ "Inl _"] exI [of _ "fs_calls s @ _"])
next
  case (RqOpendir rid path)
  then show ?thesis using assms
    by (auto simp: sftp_defs table_insert_def split: sum.splits intro!: exI [of _ "Inr _"] exI [of _ "fs_calls s @ _"])
next
  case (RqReaddir rid h)
  then show ?thesis using assms
    by (auto simp: sftp_defs split: option.splits prod.splits sum.splits if_splits)
qed (use assms in \<open>auto simp: sftp_defs ok_status_def split: option.splits sum.splits if_splits\<close>)

lemma table_insert_next: "table_insert x s = (h, s') \<Longrightarrow> next_handle s' = next_handle s + 1"
  by (auto simp: table_insert_def alloc_handle_def split: sum.splits)

text \<open>The handles a client holds: those it was given and has not closed since.\<close>

fun live_handles :: "sftp_request list \<Rightarrow> (status_code + 'm sftp_reply) list \<Rightarrow> string set \<Rightarrow> string set" where
  "live_handles (rq # rqs) (r # rs) L =
     live_handles rqs rs (case handle_of r of
         Some h \<Rightarrow> insert h L
       | None \<Rightarrow> (case rq of RqClose rid h \<Rightarrow> L - {h} | _ \<Rightarrow> L))"
| "live_handles _ _ L = L"

lemma sftp_handle_wf:
  assumes run: "sftp_handle os rq s = (r, s')" and wf: "tables_wf s" and room: "handles_left s"
  shows "tables_wf s'"
    and "open_handles s' = (case handle_of r of
         Some h \<Rightarrow> insert h (open_handles s)
       | None \<Rightarrow> (case rq of RqClose rid h \<Rightarrow> open_handles s - {h} | _ \<Rightarrow> open_handles s))"
    and "unat (next_handle s') = unat (next_handle s) + (case handle_of r of None \<Rightarrow> 0 | Some h \<Rightarrow> 1)"
    and "handle_of r = Some h \<Longrightarrow> h = show_nat (unat (next_handle s))"
proof -
  note tables = sftp_handle_tables [OF run]
  have "tables_wf s' \<and> open_handles s' = (case handle_of r of
         Some h \<Rightarrow> insert h (open_handles s)
       | None \<Rightarrow> (case rq of RqClose rid h \<Rightarrow> open_handles s - {h} | _ \<Rightarrow> open_handles s))
     \<and> unat (next_handle s') = unat (next_handle s) + (case handle_of r of None \<Rightarrow> 0 | Some h \<Rightarrow> 1)
     \<and> (handle_of r = Some h \<longrightarrow> h = show_nat (unat (next_handle s)))"
  proof (cases "handle_of r")
    case None
    then show ?thesis using tables wf
      by (cases rq) (auto simp: tables_wf_def open_handles_def issued_handles_def)
  next
    case (Some h')
    then obtain x calls where ins: "table_insert x (s\<lparr>fs_calls := calls\<rparr>) = (h', s')" using tables by auto
    have room': "handles_left (s\<lparr>fs_calls := calls\<rparr>)" using room by (simp add: handles_left_def)
    have same: "open_handles (s\<lparr>fs_calls := calls\<rparr>) = open_handles s"
      "issued_handles (s\<lparr>fs_calls := calls\<rparr>) = issued_handles s" by (simp_all add: open_handles_def issued_handles_def)
    have op: "open_handles s' = insert h' (open_handles s)" using handles.ins_mem [OF ins] same by blast
    have iss: "issued_handles s' = insert h' (issued_handles s)" "h' \<notin> issued_handles s"
      using handles.ins_issued [OF room' ins] handles.ins_fresh [OF room' ins] same by simp_all
    have "h' = show_nat (unat (next_handle s))" "next_handle s' = next_handle s + 1"
      using ins by (auto simp: table_insert_def alloc_handle_def split: sum.splits)
    moreover have "dom (open_files s') \<inter> dom (open_dirs s') = {}"
    proof -
      have "h' \<notin> dom (open_files s)" "h' \<notin> dom (open_dirs s)" "dom (open_files s) \<inter> dom (open_dirs s) = {}"
        using wf iss(2) by (auto simp: tables_wf_def open_handles_def)
      moreover have "open_files s' = (open_files s)(h' \<mapsto> f) \<and> open_dirs s' = open_dirs s" if "x = Inl f" for f
        using ins that by (auto simp: table_insert_def alloc_handle_def)
      moreover have "open_dirs s' = (open_dirs s)(h' \<mapsto> entries) \<and> open_files s' = open_files s" if "x = Inr entries" for entries
        using ins that by (auto simp: table_insert_def alloc_handle_def)
      ultimately show ?thesis by (cases x) auto
    qed
    ultimately show ?thesis using Some wf op iss unat_next_handle [OF room]
      by (auto simp: tables_wf_def)
  qed
  then show "tables_wf s'"
    and "open_handles s' = (case handle_of r of
         Some h \<Rightarrow> insert h (open_handles s)
       | None \<Rightarrow> (case rq of RqClose rid h \<Rightarrow> open_handles s - {h} | _ \<Rightarrow> open_handles s))"
    and "unat (next_handle s') = unat (next_handle s) + (case handle_of r of None \<Rightarrow> 0 | Some h \<Rightarrow> 1)"
    and "handle_of r = Some h \<Longrightarrow> h = show_nat (unat (next_handle s))"
    by blast+
qed

lemma handles_left_iff: "handles_left s \<longleftrightarrow> Suc (unat (next_handle s)) < 2 ^ 64"
proof -
  have "unat (next_handle s) < 2 ^ 64" using unsigned_less [of "next_handle s"] by simp
  moreover have "handles_left s \<longleftrightarrow> unat (next_handle s) \<noteq> 2 ^ 64 - 1"
    by (simp add: handles_left_def word_unat_eq_iff unat_max_id)
  ultimately show ?thesis by auto
qed

lemma sftp_run_tables:
  assumes "tables_wf s" and "unat (next_handle s) + length rqs < 2 ^ 64"
  shows "tables_wf (snd (sftp_run os rqs s))
    \<and> open_handles (snd (sftp_run os rqs s)) = live_handles rqs (fst (sftp_run os rqs s)) (open_handles s)
    \<and> (\<exists>n. handles_of (fst (sftp_run os rqs s)) = map show_nat [unat (next_handle s) ..< unat (next_handle s) + n])"
  using assms
proof (induction rqs arbitrary: s)
  case Nil
  have "handles_of (fst (sftp_run os [] s)) = map show_nat [unat (next_handle s) ..< unat (next_handle s) + 0]"
    by (simp add: handles_of_Cons)
  with Nil show ?case by (simp del: add_0_right) blast
next
  case (Cons rq rqs)
  obtain r s' where run: "sftp_handle os rq s = (r, s')" by fastforce
  have room: "handles_left s" using Cons.prems(2) by (simp add: handles_left_iff)
  note step = sftp_handle_wf [OF run Cons.prems(1) room]
  have "unat (next_handle s') + length rqs < 2 ^ 64"
    using Cons.prems(2) step(3) by (auto split: option.splits)
  note IH = Cons.IH [OF step(1) this]
  obtain n where n: "handles_of (fst (sftp_run os rqs s')) = map show_nat [unat (next_handle s') ..< unat (next_handle s') + n]"
    using IH by blast
  have "handles_of (r # fst (sftp_run os rqs s')) =
      map show_nat [unat (next_handle s) ..< unat (next_handle s) + (n + (case handle_of r of None \<Rightarrow> 0 | Some h \<Rightarrow> 1))]"
    using n step(3,4) by (auto simp: handles_of_Cons upt_conv_Cons split: option.splits)
  then have "\<exists>n. handles_of (r # fst (sftp_run os rqs s')) =
      map show_nat [unat (next_handle s) ..< unat (next_handle s) + n]" by blast
  then show ?case using IH step(2) run by (simp add: case_prod_beta)
qed

text \<open>
  C28: in a file-transfer session of fewer than \<open>2 ^ 64\<close> requests, whatever the requests and
  whatever the file system answers, the handles given out are 0, 1, 2, ... in order, so that no handle is
  given out twice, no handle names both a file and a directory, and the handles open at the end are
  exactly those the client was given and has not closed.
\<close>

theorem sftp_handles_are_clients:
  assumes "length rqs < 2 ^ 64" and "sftp_run os rqs sftp_new = (rs, s)"
  shows "(\<exists>n. handles_of rs = map show_nat [0..<n])
    \<and> distinct (handles_of rs)
    \<and> dom (open_files s) \<inter> dom (open_dirs s) = {}
    \<and> dom (open_files s) \<union> dom (open_dirs s) = live_handles rqs rs {}"
proof -
  have "tables_wf sftp_new" by (simp add: tables_wf_def sftp_new_def open_handles_def)
  from sftp_run_tables [OF this, of rqs os] assms
  have run: "tables_wf s" "open_handles s = live_handles rqs rs {}" "\<exists>n. handles_of rs = map show_nat [0..<n]"
    by (simp_all add: sftp_new_def open_handles_def)
  then show ?thesis by (auto simp: tables_wf_def open_handles_def distinct_map inj_on_def)
qed

section \<open>Listing a directory\<close>

text \<open>Entries of which the metadata can be read, and how they are listed.\<close>

definition readable :: "(string \<times> 'm) list \<Rightarrow> 'm dir_item list" where
  "readable es = map (\<lambda>(name, m). Inr (name, Inr m)) es"

definition listed :: "(string \<times> 'm) list \<Rightarrow> (string \<times> 'm option) list" where
  "listed es = map (\<lambda>(name, m). (from_utf8_lossy name, Some m)) es"

fun entries_of :: "status_code + 'm sftp_reply \<Rightarrow> status_code + (string \<times> 'm option) list" where
  "entries_of (Inr (RName rid files)) = Inr files"
| "entries_of (Inr _) = Inr []"
| "entries_of (Inl e) = Inl e"

fun readdir_on :: "string \<Rightarrow> sftp_request \<Rightarrow> bool" where
  "readdir_on h (RqReaddir rid h') = (h' = h)"
| "readdir_on h _ = False"

fun closes :: "string \<Rightarrow> sftp_request \<Rightarrow> bool" where
  "closes h (RqClose rid h') = (h' = h)"
| "closes h _ = False"

text \<open>The answers to the readdir requests on one handle, in order, whatever is interleaved with them.\<close>

definition listing :: "string \<Rightarrow> sftp_request list \<Rightarrow> (status_code + 'm sftp_reply) list
    \<Rightarrow> (status_code + (string \<times> 'm option) list) list" where
  "listing h rqs rs = map (entries_of \<circ> snd) (filter (readdir_on h \<circ> fst) (zip rqs rs))"

definition chunk :: "(string \<times> 'm) list \<Rightarrow> nat \<Rightarrow> status_code + (string \<times> 'm option) list" where
  "chunk es j = (if READDIR_BATCH * j < length es
     then Inr (listed (take READDIR_BATCH (drop (READDIR_BATCH * j) es))) else Inl StEof)"

lemma readdir_loop_readable:
  "readdir_loop n (readable es @ tl_items) files =
     (if n \<le> length es then (Inr (files @ listed (take n es)), readable (drop n es) @ tl_items)
      else readdir_loop (n - length es) tl_items (files @ listed es))"
proof (induction es arbitrary: n files)
  case Nil
  then show ?case by (cases n) (simp_all add: readable_def listed_def)
next
  case (Cons e es)
  obtain name m where e: "e = (name, m)" by fastforce
  show ?case
  proof (cases n)
    case 0
    then show ?thesis by (simp add: readable_def listed_def)
  next
    case (Suc k)
    then show ?thesis using Cons.IH [of k "files @ [(from_utf8_lossy name, Some m)]"]
      by (simp add: e readable_def listed_def)
  qed
qed

lemma readdir_loop_nil [simp]: "readdir_loop n [] files = (Inr files, [])"
  by (cases n) simp_all

lemma readdir_loop_all:
  "readdir_loop n (readable es) files = (Inr (files @ listed (take n es)), readable (drop n es))"
  using readdir_loop_readable [of n es "[]" files] by (simp add: readable_def)

lemma sftp_readdir_readable:
  assumes "open_dirs s h = Some (readable es)"
  shows "entries_of (fst (sftp_readdir rid h s)) = chunk es 0"
    and "snd (sftp_readdir rid h s) = s\<lparr>open_dirs := (open_dirs s)(h \<mapsto> readable (drop READDIR_BATCH es))\<rparr>"
  using assms by (auto simp: sftp_readdir_def readdir_loop_all chunk_def listed_def READDIR_BATCH_def)

lemma chunk_drop: "chunk (drop READDIR_BATCH es) j = chunk es (Suc j)"
  by (simp add: chunk_def add.commute less_diff_conv)

lemma sftp_handle_other_dirs:
  assumes "sftp_handle os rq s = (r, s')" and "\<not> closes h rq" and "\<not> readdir_on h rq"
    and "h \<in> issued_handles s" and "handles_left s"
  shows "open_dirs s' h = open_dirs s h"
proof -
  have "h \<noteq> show_nat (unat (next_handle s))" using assms(4) by (auto simp: issued_handles_def)
  then show ?thesis using assms(1-3)
    by (cases rq) (auto simp: sftp_defs split: option.splits sum.splits prod.splits if_splits)
qed

lemma sftp_handle_issued:
  assumes "sftp_handle os rq s = (r, s')" and "handles_left s"
  shows "issued_handles s \<subseteq> issued_handles s'" and "unat (next_handle s') \<le> Suc (unat (next_handle s))"
proof -
  have "unat (next_handle s) \<le> unat (next_handle s') \<and> unat (next_handle s') \<le> Suc (unat (next_handle s))"
    using sftp_handle_tables [OF assms(1)] unat_next_handle [OF assms(2)]
    by (auto dest!: table_insert_next split: option.splits)
  then show "issued_handles s \<subseteq> issued_handles s'" and "unat (next_handle s') \<le> Suc (unat (next_handle s))"
    by (auto simp: issued_handles_def)
qed

lemma sftp_run_listing:
  assumes "open_dirs s h = Some (readable es)" and "h \<in> issued_handles s"
    and "unat (next_handle s) + length rqs < 2 ^ 64" and "list_all (\<lambda>rq. \<not> closes h rq) rqs"
  shows "listing h rqs (fst (sftp_run os rqs s)) = map (chunk es) [0 ..< length (filter (readdir_on h) rqs)]"
  using assms
proof (induction rqs arbitrary: s es)
  case Nil
  then show ?case by (simp add: listing_def)
next
  case (Cons rq rqs)
  obtain r s' where run: "sftp_handle os rq s = (r, s')" by fastforce
  have room: "handles_left s" using Cons.prems(3) by (simp add: handles_left_iff)
  note iss = sftp_handle_issued [OF run room]
  have rest: "h \<in> issued_handles s'" "unat (next_handle s') + length rqs < 2 ^ 64" "list_all (\<lambda>rq. \<not> closes h rq) rqs"
    using Cons.prems iss by auto
  show ?case
  proof (cases "readdir_on h rq")
    case True
    then obtain rid where rq: "rq = RqReaddir rid h" by (cases rq) auto
    have r: "entries_of r = chunk es 0" "open_dirs s' h = Some (readable (drop READDIR_BATCH es))"
      using sftp_readdir_readable [OF Cons.prems(1), of rid] run rq by auto
    have "listing h (rq # rqs) (fst (sftp_run os (rq # rqs) s)) = entries_of r # listing h rqs (fst (sftp_run os rqs s'))"
      using run True by (simp add: listing_def case_prod_beta)
    also have "\<dots> = chunk es 0 # map (\<lambda>j. chunk es (Suc j)) [0 ..< length (filter (readdir_on h) rqs)]"
      using Cons.IH [OF r(2) rest] r(1) by (simp add: chunk_drop cong: map_cong)
    also have "\<dots> = map (chunk es) [0 ..< Suc (length (filter (readdir_on h) rqs))]"
      by (simp add: map_upt_Suc del: upt_Suc)
    finally show ?thesis using True by simp
  next
    case False
    have "open_dirs s' h = Some (readable es)"
      using sftp_handle_other_dirs [OF run _ False Cons.prems(2) room] Cons.prems(1,4) by simp
    from Cons.IH [OF this rest] show ?thesis
      using run False by (simp add: listing_def case_prod_beta)
  qed
qed

lemma concat_chunks:
  "concat (map (\<lambda>j. case chunk es j of Inl e \<Rightarrow> [] | Inr files \<Rightarrow> files) [0..<k]) = listed (take (READDIR_BATCH * k) es)"
proof (induction k)
  case 0
  then show ?case by (simp add: listed_def)
next
  case (Suc k)
  have "take (READDIR_BATCH * Suc k) es = take (READDIR_BATCH * k) es @ take READDIR_BATCH (drop (READDIR_BATCH * k) es)"
    using take_add [of "READDIR_BATCH * k" READDIR_BATCH es] by (simp only: mult_Suc_right add.commute)
  then have "listed (take (READDIR_BATCH * Suc k) es)
      = listed (take (READDIR_BATCH * k) es) @ (case chunk es k of Inl e \<Rightarrow> [] | Inr files \<Rightarrow> files)"
    by (simp add: listed_def chunk_def)
  then show ?case using Suc.IH by simp
qed

text \<open>
  C19: a client that opens a directory of which every entry can be read, and reads the handle until it is told
  that there is no more, gets every entry once, in order and in batches, and is told so at request
  number \<open>length es div READDIR_BATCH + 2\<close> at the latest, whatever other requests are interleaved, as long as it does
  not close the handle.
\<close>

theorem sftp_listing_complete:
  assumes opened: "sftp_opendir os rid path s = (Inr (RHandle rid h), s1)"
    and content: "os_dir os (fs_calls s) (FsReadDir path) = Inr (readable es)"
    and room: "unat (next_handle s) + Suc (length rqs) < 2 ^ 64"
    and kept: "list_all (\<lambda>rq. \<not> closes h rq) rqs"
    and run: "sftp_run os rqs s1 = (rs, s2)" and k: "length (filter (readdir_on h) rqs) = k"
  shows "listing h rqs rs = map (chunk es) [0..<k]
    \<and> concat (map (\<lambda>r. case r of Inl e \<Rightarrow> [] | Inr files \<Rightarrow> files) (listing h rqs rs)) = listed (take (READDIR_BATCH * k) es)
    \<and> (length es div READDIR_BATCH + 2 \<le> k \<longrightarrow> Inl StEof \<in> set (listing h rqs rs) \<and> take (READDIR_BATCH * k) es = es)"
proof (intro conjI impI)
  have left: "handles_left s" using room by (simp add: handles_left_iff)
  have h: "h = show_nat (unat (next_handle s))" "open_dirs s1 h = Some (readable es)" "next_handle s1 = next_handle s + 1"
    using opened content by (auto simp: sftp_defs)
  then have "h \<in> issued_handles s1" "unat (next_handle s1) + length rqs < 2 ^ 64"
    using room unat_next_handle [OF left] by (auto simp: issued_handles_def)
  from sftp_run_listing [OF h(2) this kept, of os] run k
  show listing: "listing h rqs rs = map (chunk es) [0..<k]" by simp
  then show "concat (map (\<lambda>r. case r of Inl e \<Rightarrow> [] | Inr files \<Rightarrow> files) (listing h rqs rs)) = listed (take (READDIR_BATCH * k) es)"
    using concat_chunks [of es k] by (simp add: comp_def)
  assume le: "length es div READDIR_BATCH + 2 \<le> k"
  define j where "j = Suc (length es div READDIR_BATCH)"
  have less: "length es < READDIR_BATCH * j"
    using dividend_less_times_div [of READDIR_BATCH "length es"] by (simp add: j_def READDIR_BATCH_def)
  have "j < k" using le by (simp add: j_def)
  then have "READDIR_BATCH * j \<le> READDIR_BATCH * k" by (meson less_imp_le mult_le_mono2)
  with less have "length es \<le> READDIR_BATCH * k" by linarith
  then show "take (READDIR_BATCH * k) es = es" by simp
  have "chunk es j = Inl StEof" using less by (simp add: chunk_def)
  then show "Inl StEof \<in> set (listing h rqs rs)" using listing \<open>j < k\<close> by (auto intro!: image_eqI [of _ _ j])
qed

text \<open>
  An entry of which the metadata cannot be read (one removed since the directory was read) ends the
  batch it is in: the request fails, and the entries already taken for that batch are in no later
  answer, which goes on after the entry.
\<close>

theorem sftp_readdir_loses_batch:
  assumes "open_dirs s h = Some (readable es @ Inr (name, Inl e) # readable es')"
    and "length es < READDIR_BATCH" and "length es' \<le> READDIR_BATCH" and "es' \<noteq> []"
    and "sftp_run os [RqReaddir rid h, RqReaddir rid h, RqReaddir rid h] s = (rs, s')"
  shows "listing h [RqReaddir rid h, RqReaddir rid h, RqReaddir rid h] rs = [Inl (map_io_err e), Inr (listed es'), Inl StEof]"
proof -
  obtain k where k: "READDIR_BATCH - length es = Suc k" using assms(2) by (metis Suc_diff_Suc)
  have 1: "sftp_readdir rid h s = (Inl (map_io_err e), s\<lparr>open_dirs := (open_dirs s)(h \<mapsto> readable es')\<rparr>)"
    using assms(1,2) k by (simp add: sftp_readdir_def readdir_loop_readable)
  define s1 where "s1 = s\<lparr>open_dirs := (open_dirs s)(h \<mapsto> readable es')\<rparr>"
  define s2 where "s2 = snd (sftp_readdir rid h s1)"
  have r2: "entries_of (fst (sftp_readdir rid h s1)) = Inr (listed es')" and d2: "open_dirs s2 h = Some (readable [])"
    using sftp_readdir_readable [of s1 h es' rid] assms(3,4) by (simp_all add: s1_def s2_def chunk_def)
  have r3: "entries_of (fst (sftp_readdir rid h s2)) = Inl StEof"
    using sftp_readdir_readable(1) [OF d2, of rid] by (simp add: chunk_def)
  show ?thesis using 1 r2 r3 assms(5)
    by (auto simp: listing_def s1_def [symmetric] s2_def case_prod_beta)
qed

section \<open>The calls made\<close>

fun call_fd :: "fs_call \<Rightarrow> nat option" where
  "call_fd (FsClose f) = Some f"
| "call_fd (FsSeek f _) = Some f"
| "call_fd (FsRead f _) = Some f"
| "call_fd (FsWriteAll f _) = Some f"
| "call_fd (FsFileMetadata f) = Some f"
| "call_fd (FsSetLen f _) = Some f"
| "call_fd _ = None"

fun call_paths :: "fs_call \<Rightarrow> string list" where
  "call_paths (FsOpen _ p) = [p]"
| "call_paths (FsSymlinkMetadata p) = [p]"
| "call_paths (FsReadDir p) = [p]"
| "call_paths (FsRemoveFile p) = [p]"
| "call_paths (FsCreateDir p) = [p]"
| "call_paths (FsRemoveDir p) = [p]"
| "call_paths (FsCanonicalize p) = [p]"
| "call_paths (FsMetadata p) = [p]"
| "call_paths (FsRename p q) = [p, q]"
| "call_paths (FsReadLink p) = [p]"
| "call_paths (FsSymlink p q) = [p, q]"
| "call_paths _ = []"

fun request_paths :: "sftp_request \<Rightarrow> string set" where
  "request_paths (RqOpen _ p _) = {p}"
| "request_paths (RqLstat _ p) = {p}"
| "request_paths (RqOpendir _ p) = {p}"
| "request_paths (RqRemove _ p) = {p}"
| "request_paths (RqMkdir _ p) = {p}"
| "request_paths (RqRmdir _ p) = {p}"
| "request_paths (RqRealpath _ p) = {p}"
| "request_paths (RqStat _ p) = {p}"
| "request_paths (RqRename _ p q) = {p, q}"
| "request_paths (RqReadlink _ p) = {p}"
| "request_paths (RqSymlink _ p q) = {p, q}"
| "request_paths _ = {}"

definition opened :: "'m sftp_os \<Rightarrow> fs_call list \<Rightarrow> nat set" where
  "opened os calls = {f. \<exists>i<length calls. \<exists>flags p. calls ! i = FsOpen flags p \<and> os_open os (take i calls) (calls ! i) = Inr f}"

text \<open>Every call on a file is on one opened by an earlier call, every path is one of \<open>paths\<close>.\<close>

definition call_traced :: "'m sftp_os \<Rightarrow> string set \<Rightarrow> fs_call list \<Rightarrow> fs_call \<Rightarrow> bool" where
  "call_traced os paths calls c \<longleftrightarrow> (\<forall>f. call_fd c = Some f \<longrightarrow> f \<in> opened os calls) \<and> set (call_paths c) \<subseteq> paths"

definition traced :: "'m sftp_os \<Rightarrow> string set \<Rightarrow> 'm sftp \<Rightarrow> bool" where
  "traced os paths s \<longleftrightarrow> ran (open_files s) \<subseteq> opened os (fs_calls s)
    \<and> (\<forall>i<length (fs_calls s). call_traced os paths (take i (fs_calls s)) (fs_calls s ! i))"

lemma opened_snoc:
  "opened os (calls @ [c]) = opened os calls \<union> (case c of FsOpen flags p \<Rightarrow> {f. os_open os calls c = Inr f} | _ \<Rightarrow> {})"
  by (auto simp: opened_def nth_append less_Suc_eq split: fs_call.splits)

lemma traced_snoc:
  assumes "traced os paths s" and "call_traced os paths (fs_calls s) c"
  shows "traced os paths (s\<lparr>fs_calls := fs_calls s @ [c]\<rparr>)"
  using assms by (auto simp: traced_def nth_append less_Suc_eq opened_snoc)

lemma traced_tables [simp]:
  "traced os paths (s\<lparr>open_dirs := D\<rparr>) = traced os paths s"
  "traced os paths (s\<lparr>next_handle := n\<rparr>) = traced os paths s"
  by (simp_all add: traced_def)

lemma traced_open_files:
  assumes "traced os paths s" and "ran F \<subseteq> opened os (fs_calls s)"
  shows "traced os paths (s\<lparr>open_files := F\<rparr>)"
  using assms by (simp add: traced_def)

lemma fs_then_traced:
  assumes "traced os paths s" and "call_traced os paths (fs_calls s) c"
    and "\<And>a s'. sys (fs_calls s) c = Inr a \<Longrightarrow> s' = s\<lparr>fs_calls := fs_calls s @ [c]\<rparr> \<Longrightarrow> traced os paths s'
      \<Longrightarrow> traced os paths (snd (k a s'))"
  shows "traced os paths (snd (fs_then sys c k s))"
  using traced_snoc [OF assms(1,2)] assms(3) by (auto simp: fs_then_def Let_def split: sum.splits)

lemma open_file_opened:
  "traced os paths s \<Longrightarrow> open_files s h = Some f \<Longrightarrow> f \<in> opened os (fs_calls s)"
  by (auto simp: traced_def ran_def)

lemma sftp_handle_traced:
  assumes "traced os paths s" and "request_paths rq \<subseteq> paths"
  shows "traced os paths (snd (sftp_handle os rq s))"
proof (cases rq)
  case (RqOpen rid filename pflags)
  have "x \<in> opened os (fs_calls s @ [FsOpen pflags filename])"
    if "os_open os (fs_calls s) (FsOpen pflags filename) = Inr f" and "x \<in> ran ((open_files s)(h \<mapsto> f))" for h f x
    using assms(1) that by (auto simp: traced_def opened_snoc ran_def split: if_splits)
  then show ?thesis using assms RqOpen
    by (auto simp: sftp_open_def alloc_handle_def call_traced_def intro!: fs_then_traced traced_open_files)
next
  case (RqClose rid h)
  have "ran ((open_files s)(h := None)) \<subseteq> opened os (fs_calls s)"
    using assms(1) by (auto simp: traced_def ran_def split: if_splits)
  then have "traced os paths (s\<lparr>open_files := (open_files s)(h := None), open_dirs := (open_dirs s)(h := None)\<rparr>)"
    using assms(1) traced_open_files by simp
  note traced_snoc [OF this] this
  then show ?thesis using RqClose open_file_opened [OF assms(1)]
    by (auto simp: sftp_close_def call_traced_def split: option.splits)
next
  case (RqRead rid h offset len)
  then show ?thesis using assms(1) open_file_opened [OF assms(1)]
    by (auto simp: sftp_read_def call_traced_def opened_snoc split: option.splits intro!: fs_then_traced)
next
  case (RqWrite rid h offset data)
  then show ?thesis using assms(1) open_file_opened [OF assms(1)]
    by (auto simp: sftp_write_def call_traced_def opened_snoc split: option.splits intro!: fs_then_traced)
next
  case (RqFstat rid h)
  then show ?thesis using assms(1) open_file_opened [OF assms(1)]
    by (auto simp: sftp_fstat_def call_traced_def split: option.splits intro!: fs_then_traced)
next
  case (RqFsetstat rid h n)
  then show ?thesis using assms(1) open_file_opened [OF assms(1)]
    by (auto simp: sftp_fsetstat_def call_traced_def split: option.splits intro!: fs_then_traced)
next
  case (RqReaddir rid h)
  then show ?thesis using assms(1) by (auto simp: sftp_readdir_def split: option.splits prod.splits)
next
  case (RqRealpath rid path)
  then show ?thesis using assms by (auto simp: sftp_realpath_def Let_def call_traced_def intro!: traced_snoc)
next
  case (RqOpendir rid path)
  then show ?thesis using assms
    by (auto simp: sftp_opendir_def alloc_handle_def call_traced_def intro!: fs_then_traced)
qed (use assms in \<open>auto simp: sftp_lstat_def sftp_stat_def sftp_remove_def sftp_mkdir_def sftp_rmdir_def
      sftp_rename_def sftp_symlink_def sftp_readlink_def call_traced_def intro!: fs_then_traced\<close>)

lemma sftp_run_traced:
  assumes "traced os paths s" and "\<Union> (request_paths ` set rqs) \<subseteq> paths"
  shows "traced os paths (snd (sftp_run os rqs s))"
  using assms
proof (induction rqs arbitrary: s)
  case (Cons rq rqs)
  then show ?case using sftp_handle_traced [of os paths s rq] by (simp add: case_prod_beta)
qed simp

text \<open>
  In a file-transfer session every call on an open file is on a file that an earlier call of
  the same session opened, and every path given to the file system is one a request of the session
  names: the subsystem gives a client no file and no path of its own accord.
\<close>

theorem sftp_calls_follow_requests:
  assumes "sftp_run os rqs sftp_new = (rs, s)" and "i < length (fs_calls s)"
  shows "(\<forall>f. call_fd (fs_calls s ! i) = Some f \<longrightarrow> f \<in> opened os (take i (fs_calls s)))
    \<and> set (call_paths (fs_calls s ! i)) \<subseteq> \<Union> (request_paths ` set rqs)"
proof -
  have "traced os (\<Union> (request_paths ` set rqs)) sftp_new" by (simp add: traced_def sftp_new_def)
  from sftp_run_traced [OF this subset_refl] assms show ?thesis
    by (simp add: traced_def call_traced_def)
qed

section \<open>A session\<close>

text \<open>
  A file system in which every file opens as descriptor 5 and reads as one byte, and a directory has
  one file.
\<close>

definition sample_os :: "nat sftp_os" where
  "sample_os = \<lparr>os_open = (\<lambda>_ _. Inr 5), os_unit = (\<lambda>_ _. Inr ()), os_read = (\<lambda>_ _. Inr [1]), os_meta = (\<lambda>_ _. Inr 0),
     os_dir = (\<lambda>_ _. Inr [Inr (''a'', Inr 3)]), os_path = (\<lambda>_ _. Inl IoNotFound)\<rparr>"

definition sample_requests :: "sftp_request list" where
  "sample_requests = [RqOpendir 1 ''d'', RqReaddir 2 ''0'', RqOpen 3 ''d/a'' 1, RqReaddir 4 ''0'', RqRead 5 ''1'' 0 10, RqClose 6 ''1'']"

lemma show_nat_digit [simp]: "n < 10 \<Longrightarrow> show_nat n = [char_of (48 + n)]"
  by (subst show_nat.simps) simp

lemma char_of_digits: "char_of (48 :: nat) = CHR ''0''" "char_of (49 :: nat) = CHR ''1''"
  by code_simp+

lemma lossy_a: "from_utf8_lossy ''a'' = ''a''"
  by code_simp

lemma readdir_one: "readdir_loop READDIR_BATCH [Inr (''a'', Inr m)] [] = (Inr [(''a'', Some m)], [])"
proof -
  have "READDIR_BATCH = Suc 255" by (simp add: READDIR_BATCH_def)
  show ?thesis unfolding \<open>READDIR_BATCH = Suc 255\<close> readdir_loop.simps lossy_a by simp
qed

lemma sample_run:
  "fst (sftp_run sample_os sample_requests sftp_new) =
     [Inr (RHandle 1 ''0''), Inr (RName 2 [(''a'', Some 3)]), Inr (RHandle 3 ''1''), Inl StEof, Inr (RData 5 [1]), Inr (RStatus 6 StOk)]"
  "fs_calls (snd (sftp_run sample_os sample_requests sftp_new)) =
     [FsReadDir ''d'', FsOpen 1 ''d/a'', FsSeek 5 0, FsRead 5 10, FsClose 5]"
  by (simp_all add: sample_requests_def sample_os_def sftp_new_def sftp_defs ok_status_def char_of_digits
      readdir_one)

theorem sftp_handles_are_clients_witness:
  "dom (open_files (snd (sftp_run sample_os sample_requests sftp_new)))
   \<union> dom (open_dirs (snd (sftp_run sample_os sample_requests sftp_new))) = {''0''}"
proof -
  have "length sample_requests < 2 ^ 64" by (simp add: sample_requests_def)
  from sftp_handles_are_clients [OF this surjective_pairing [of "sftp_run sample_os sample_requests sftp_new"]]
  have "dom (open_files (snd (sftp_run sample_os sample_requests sftp_new)))
     \<union> dom (open_dirs (snd (sftp_run sample_os sample_requests sftp_new)))
     = live_handles sample_requests (fst (sftp_run sample_os sample_requests sftp_new)) {}"
    by (elim conjE)
  also have "\<dots> = {''0''}" unfolding sample_run(1) by (auto simp: sample_requests_def)
  finally show ?thesis .
qed

theorem sftp_calls_follow_requests_witness:
  "(5 :: nat) \<in> opened sample_os [FsReadDir ''d'', FsOpen 1 ''d/a'', FsSeek 5 0]"
  using sftp_calls_follow_requests [OF surjective_pairing [of "sftp_run sample_os sample_requests sftp_new"], of 3]
  unfolding sample_run(2) by (simp add: eval_nat_numeral)

theorem sftp_listing_complete_witness:
  "listing ''0'' [RqReaddir 2 ''0'', RqStat 3 ''x'', RqReaddir 4 ''0'']
     (fst (sftp_run sample_os [RqReaddir 2 ''0'', RqStat 3 ''x'', RqReaddir 4 ''0''] (snd (sftp_opendir sample_os 1 ''d'' sftp_new))))
   = [Inr [(''a'', Some 3)], Inl StEof]"
proof -
  have opened: "sftp_opendir sample_os 1 ''d'' sftp_new = (Inr (RHandle 1 ''0''), snd (sftp_opendir sample_os 1 ''d'' sftp_new))"
    by (simp add: sftp_new_def sample_os_def sftp_defs char_of_digits)
  have content: "os_dir sample_os (fs_calls sftp_new) (FsReadDir ''d'') = Inr (readable [(''a'', 3)])"
    by (simp add: sample_os_def readable_def)
  have chunks: "map (chunk [(''a'', 3 :: nat)]) [0..<Suc (Suc 0)] = [Inr [(''a'', Some 3)], Inl StEof]"
    by (simp add: chunk_def READDIR_BATCH_def listed_def lossy_a upt_rec del: from_utf8_lossy.simps)
  show ?thesis
    using sftp_listing_complete [OF opened content _ _ surjective_pairing refl,
        of "[RqReaddir 2 ''0'', RqStat 3 ''x'', RqReaddir 4 ''0'']"] chunks
    by (simp add: sftp_new_def del: sftp_run.simps upt_Suc)
qed

theorem sftp_readdir_loses_batch_witness:
  "let s = sftp_new\<lparr>open_dirs := [''0'' \<mapsto> [Inr (''a'', Inr (7 :: nat)), Inr (''b'', Inl IoNotFound), Inr (''a'', Inr 2)]]\<rparr>;
       rqs = [RqReaddir 1 ''0'', RqReaddir 1 ''0'', RqReaddir 1 ''0''] in
   listing ''0'' rqs (fst (sftp_run sample_os rqs s)) = [Inl StNoSuchFile, Inr [(''a'', Some 2)], Inl StEof]"
proof -
  define s where "s = sftp_new\<lparr>open_dirs := [''0'' \<mapsto> [Inr (''a'', Inr (7 :: nat)), Inr (''b'', Inl IoNotFound), Inr (''a'', Inr 2)]]\<rparr>"
  have "open_dirs s ''0'' = Some (readable [(''a'', 7)] @ Inr (''b'', Inl IoNotFound) # readable [(''a'', 2)])"
    by (simp add: s_def readable_def)
  from sftp_readdir_loses_batch [OF this _ _ _ surjective_pairing, of 1 sample_os] show ?thesis
    unfolding Let_def s_def [symmetric]
    by (simp add: READDIR_BATCH_def listed_def lossy_a del: sftp_run.simps from_utf8_lossy.simps)
qed

end
