(* ===== verification/SshServer.thy ===== *)
theory SshServer
  imports Connection
begin

text \<open>
  The handlers of one ssh connection to the keeper (\<open>src/ssh/server.rs\<close>): per-channel requests that
  are remembered until a session is started, the sessions, and their end. A connection is run on a
  list of events, each with the answer the session backend would give at that moment; what a
  handler does is the list of its effects. The protocol itself is russh's: which events it
  delivers is the argument, and that its replies can be queued is taken for granted.
\<close>

section \<open>State\<close>

definition LOGIN_SHELL :: string where
  "LOGIN_SHELL = ''sh''"

definition session_shell :: "string option \<Rightarrow> string" where
  "session_shell devcroft_shell = (case devcroft_shell of Some s \<Rightarrow> s | None \<Rightarrow> LOGIN_SHELL)"

definition env_allowed :: "string \<Rightarrow> bool" where
  "env_allowed name \<longleftrightarrow> name = ''TERM'' \<or> name = ''LANG'' \<or> starts_with ''LC_'' name"

record pending_channel =
  pc_pty :: "pty_size option"
  pc_env :: "(string, string) btmap"

definition no_pending :: pending_channel where
  "no_pending = \<lparr>pc_pty = None, pc_env = []\<rparr>"

record active_session =
  ac_stdin :: bool
  ac_resize :: bool
  ac_pgid :: nat

record ssh_server =
  ss_channels :: "nat list"
  ss_pending :: "(nat \<times> pending_channel) list"
  ss_active :: "(nat \<times> active_session) list"

definition ssh_server_new :: ssh_server where
  "ssh_server_new = \<lparr>ss_channels = [], ss_pending = [], ss_active = []\<rparr>"

text \<open>What the keeper's process gives to every connection: \<open>DEVCROFT_SHELL\<close> and its working directory.\<close>

record ssh_env =
  se_shell :: "string option"
  se_cwd :: string

datatype ssh_effect =
    Accepted nat
  | Success nat
  | Failure nat
  | SessionStarted nat spawn_request nat
  | FedStdin nat bytes
  | Resized nat pty_size
  | Terminated nat nat
  | SftpStarted nat

section \<open>Handlers\<close>

definition pending_of :: "nat \<Rightarrow> ssh_server \<Rightarrow> pending_channel" where
  "pending_of ch s = (case map_of (ss_pending s) ch of Some p \<Rightarrow> p | None \<Rightarrow> no_pending)"

definition ssh_start_session ::
  "ssh_env \<Rightarrow> (spawn_request \<Rightarrow> string + spawned_session) \<Rightarrow> nat \<Rightarrow> string \<Rightarrow> string list \<Rightarrow> ssh_server \<Rightarrow>
     ssh_effect list \<times> ssh_server" where
  "ssh_start_session E backend ch cmd args s =
     (let pending = pending_of ch s;
          s = s\<lparr>ss_pending := AList.delete ch (ss_pending s)\<rparr>;
          req = \<lparr>req_cmd = cmd, req_args = args, req_cwd = se_cwd E, req_env = pc_env pending, req_pty = pc_pty pending\<rparr>
      in case backend req of
           Inl _ \<Rightarrow> ([Failure ch], s)
         | Inr spawned \<Rightarrow>
             ([SessionStarted ch req (sp_pgid spawned), Success ch],
              s\<lparr>ss_active := AList.update ch \<lparr>ac_stdin = (sp_stdin spawned \<noteq> None),
                  ac_resize = (sp_resize spawned \<noteq> None), ac_pgid = sp_pgid spawned\<rparr> (ss_active s)\<rparr>))"

definition pty_request :: "nat \<Rightarrow> u32 \<Rightarrow> u32 \<Rightarrow> ssh_server \<Rightarrow> ssh_effect list \<times> ssh_server" where
  "pty_request ch col_width row_height s =
     ([Success ch], s\<lparr>ss_pending := AList.update ch
        ((pending_of ch s)\<lparr>pc_pty := Some \<lparr>rows = ucast row_height, cols = ucast col_width\<rparr>\<rparr>) (ss_pending s)\<rparr>)"

definition env_request :: "nat \<Rightarrow> string \<Rightarrow> string \<Rightarrow> ssh_server \<Rightarrow> ssh_effect list \<times> ssh_server" where
  "env_request ch name v s =
     (if env_allowed name then
        ([Success ch], s\<lparr>ss_pending := AList.update ch
           ((pending_of ch s)\<lparr>pc_env := bt_insert name v (pc_env (pending_of ch s))\<rparr>) (ss_pending s)\<rparr>)
      else ([Failure ch], s))"

definition ssh_shell_request :: "ssh_env \<Rightarrow> (spawn_request \<Rightarrow> string + spawned_session) \<Rightarrow> nat \<Rightarrow> ssh_server \<Rightarrow>
    ssh_effect list \<times> ssh_server" where
  "ssh_shell_request E backend ch s = ssh_start_session E backend ch (session_shell (se_shell E)) [] s"

definition ssh_exec_request :: "ssh_env \<Rightarrow> (spawn_request \<Rightarrow> string + spawned_session) \<Rightarrow> nat \<Rightarrow> string \<Rightarrow> ssh_server \<Rightarrow>
    ssh_effect list \<times> ssh_server" where
  "ssh_exec_request E backend ch command s =
     ssh_start_session E backend ch (session_shell (se_shell E)) [''-c'', from_utf8_lossy command] s"

definition window_change_request :: "nat \<Rightarrow> u32 \<Rightarrow> u32 \<Rightarrow> ssh_server \<Rightarrow> ssh_effect list \<times> ssh_server" where
  "window_change_request ch col_width row_height s = (case map_of (ss_active s) ch of
      Some a \<Rightarrow> if ac_resize a then ([Resized ch \<lparr>rows = ucast row_height, cols = ucast col_width\<rparr>], s) else ([], s)
    | None \<Rightarrow> ([], s))"

text \<open>\<open>written\<close> is whether the write to the session's standard input succeeds.\<close>

definition channel_data :: "nat \<Rightarrow> bytes \<Rightarrow> bool \<Rightarrow> ssh_server \<Rightarrow> ssh_effect list \<times> ssh_server" where
  "channel_data ch bs written s = (case map_of (ss_active s) ch of
      Some a \<Rightarrow>
        if ac_stdin a then
          (if written then ([FedStdin ch bs], s)
           else ([], s\<lparr>ss_active := AList.update ch (a\<lparr>ac_stdin := False\<rparr>) (ss_active s)\<rparr>))
        else ([], s)
    | None \<Rightarrow> ([], s))"

definition channel_eof :: "nat \<Rightarrow> ssh_server \<Rightarrow> ssh_effect list \<times> ssh_server" where
  "channel_eof ch s = (case map_of (ss_active s) ch of
      Some a \<Rightarrow> ([], s\<lparr>ss_active := AList.update ch (a\<lparr>ac_stdin := False\<rparr>) (ss_active s)\<rparr>)
    | None \<Rightarrow> ([], s))"

definition channel_close :: "nat \<Rightarrow> ssh_server \<Rightarrow> ssh_effect list \<times> ssh_server" where
  "channel_close ch s =
     ((case map_of (ss_active s) ch of Some a \<Rightarrow> [Terminated ch (ac_pgid a)] | None \<Rightarrow> []),
      s\<lparr>ss_channels := removeAll ch (ss_channels s), ss_pending := AList.delete ch (ss_pending s),
        ss_active := AList.delete ch (ss_active s)\<rparr>)"

definition channel_open_session :: "nat \<Rightarrow> ssh_server \<Rightarrow> ssh_effect list \<times> ssh_server" where
  "channel_open_session ch s = ([Accepted ch], s\<lparr>ss_channels := List.insert ch (ss_channels s)\<rparr>)"

definition subsystem_request :: "nat \<Rightarrow> string \<Rightarrow> ssh_server \<Rightarrow> ssh_effect list \<times> ssh_server" where
  "subsystem_request ch name s =
     (if name = ''sftp'' \<and> ch \<in> set (ss_channels s)
      then ([Success ch, SftpStarted ch], s\<lparr>ss_channels := removeAll ch (ss_channels s)\<rparr>)
      else ([Failure ch], s))"

definition auth_publickey :: "'key \<Rightarrow> 'key \<Rightarrow> bool" where
  "auth_publickey authorized_key public_key \<longleftrightarrow> public_key = authorized_key"

text \<open>Local forwarding: whether the channel is accepted. \<open>connects\<close> is the sandboxed \<open>connect\<close>.\<close>

definition channel_open_direct_tcpip :: "(string \<Rightarrow> u16 \<Rightarrow> bool) \<Rightarrow> string \<Rightarrow> u32 \<Rightarrow> bool" where
  "channel_open_direct_tcpip connects host port = connects host (ucast port)"

section \<open>A connection\<close>

datatype ssh_event =
    OpenSession
  | PtyRequest u32 u32
  | EnvRequest string string
  | ShellRequest
  | ExecRequest string
  | WindowChange u32 u32
  | ChannelData bytes bool
  | ChannelEof
  | ChannelClose
  | SubsystemRequest string

fun handle_event :: "ssh_env \<Rightarrow> (spawn_request \<Rightarrow> string + spawned_session) \<Rightarrow> nat \<Rightarrow> ssh_event \<Rightarrow> ssh_server \<Rightarrow>
    ssh_effect list \<times> ssh_server" where
  "handle_event E backend ch OpenSession s = channel_open_session ch s"
| "handle_event E backend ch (PtyRequest c r) s = pty_request ch c r s"
| "handle_event E backend ch (EnvRequest n v) s = env_request ch n v s"
| "handle_event E backend ch ShellRequest s = ssh_shell_request E backend ch s"
| "handle_event E backend ch (ExecRequest cmd) s = ssh_exec_request E backend ch cmd s"
| "handle_event E backend ch (WindowChange c r) s = window_change_request ch c r s"
| "handle_event E backend ch (ChannelData bs ok) s = channel_data ch bs ok s"
| "handle_event E backend ch ChannelEof s = channel_eof ch s"
| "handle_event E backend ch ChannelClose s = channel_close ch s"
| "handle_event E backend ch (SubsystemRequest n) s = subsystem_request ch n s"

type_synonym delivery = "(spawn_request \<Rightarrow> string + spawned_session) \<times> nat \<times> ssh_event"

fun run_events :: "ssh_env \<Rightarrow> delivery list \<Rightarrow> ssh_server \<Rightarrow> ssh_effect list \<times> ssh_server" where
  "run_events E [] s = ([], s)"
| "run_events E ((backend, ch, ev) # ds) s =
     (case handle_event E backend ch ev s of (out, s) \<Rightarrow>
      (case run_events E ds s of (rest, s) \<Rightarrow> (out @ rest, s)))"

section \<open>Lemmas: channels do not interfere\<close>

fun effect_channel :: "ssh_effect \<Rightarrow> nat" where
  "effect_channel (Accepted ch) = ch"
| "effect_channel (Success ch) = ch"
| "effect_channel (Failure ch) = ch"
| "effect_channel (SessionStarted ch _ _) = ch"
| "effect_channel (FedStdin ch _) = ch"
| "effect_channel (Resized ch _) = ch"
| "effect_channel (Terminated ch _) = ch"
| "effect_channel (SftpStarted ch) = ch"

text \<open>Two states that agree on a channel.\<close>

definition agree :: "nat \<Rightarrow> ssh_server \<Rightarrow> ssh_server \<Rightarrow> bool" where
  "agree ch s t \<longleftrightarrow> (ch \<in> set (ss_channels s) \<longleftrightarrow> ch \<in> set (ss_channels t))
     \<and> map_of (ss_pending s) ch = map_of (ss_pending t) ch \<and> map_of (ss_active s) ch = map_of (ss_active t) ch"

lemmas handler_defs = channel_open_session_def pty_request_def env_request_def ssh_shell_request_def
  ssh_exec_request_def ssh_start_session_def window_change_request_def channel_data_def channel_eof_def
  channel_close_def subsystem_request_def pending_of_def Let_def

lemma map_of_update_delete [simp]:
  "map_of (AList.update k v al) k' = (if k' = k then Some v else map_of al k')"
  "map_of (AList.delete k al) k' = (if k' = k then None else map_of al k')"
  by (simp_all add: update_conv' delete_conv')

lemma handle_event_own_channel:
  assumes "handle_event E backend ch ev s = (out, s')"
  shows "list_all (\<lambda>e. effect_channel e = ch) out"
    and "ch' \<noteq> ch \<Longrightarrow> agree ch' s s'"
  using assms
  by (cases ev; auto simp: handler_defs agree_def split: option.splits if_splits sum.splits)+

lemma handle_event_agree:
  assumes "agree ch s t"
  shows "fst (handle_event E backend ch ev s) = fst (handle_event E backend ch ev t)
    \<and> agree ch (snd (handle_event E backend ch ev s)) (snd (handle_event E backend ch ev t))"
  using assms
  by (cases ev) (auto simp: handler_defs agree_def split: option.splits sum.splits)

lemma run_events_projection:
  assumes "agree ch s t"
  shows "filter (\<lambda>e. effect_channel e = ch) (fst (run_events E ds s)) =
    fst (run_events E (filter (\<lambda>(_, c, _). c = ch) ds) t)"
  using assms
proof (induction ds arbitrary: s t)
  case (Cons d ds)
  obtain backend c ev where d: "d = (backend, c, ev)" by (rule prod_cases3)
  obtain out s' where step: "handle_event E backend c ev s = (out, s')" by (rule prod.exhaust)
  note own = handle_event_own_channel [OF step]
  show ?case
  proof (cases "c = ch")
    case True
    obtain out' t' where step': "handle_event E backend c ev t = (out', t')" by (rule prod.exhaust)
    then have "out' = out" "agree ch s' t'" using handle_event_agree [OF Cons.prems, of E backend ev] step True by simp_all
    moreover have "filter (\<lambda>e. effect_channel e = ch) out = out"
      using own(1) True by (simp add: filter_id_conv list_all_iff)
    ultimately show ?thesis using Cons.IH [of s' t'] d step step' True by (simp add: case_prod_beta)
  next
    case False
    then have "agree ch s' t" using own(2) [of ch] Cons.prems by (auto simp: agree_def)
    moreover have "filter (\<lambda>e. effect_channel e = ch) out = []"
      using own(1) False by (auto simp: filter_empty_conv list_all_iff)
    ultimately show ?thesis using Cons.IH [of s' t] d step False by (simp add: case_prod_beta)
  qed
qed simp


section \<open>Lemmas: the sessions\<close>

definition pending_allowed :: "ssh_server \<Rightarrow> bool" where
  "pending_allowed s \<longleftrightarrow> (\<forall>ch p. map_of (ss_pending s) ch = Some p \<longrightarrow> list_all env_allowed (map fst (pc_env p)))"

definition confined :: "ssh_env \<Rightarrow> ssh_effect \<Rightarrow> bool" where
  "confined E e = (case e of
      SessionStarted _ req _ \<Rightarrow> req_cmd req = session_shell (se_shell E) \<and> req_cwd req = se_cwd E
        \<and> (req_args req = [] \<or> (\<exists>c. req_args req = [''-c'', c])) \<and> list_all env_allowed (map fst (req_env req))
    | _ \<Rightarrow> True)"

lemma bt_insert_list_all_keys: "P k \<Longrightarrow> list_all P (map fst m) \<Longrightarrow> list_all P (map fst (bt_insert k v m))"
  by (induction k v m rule: bt_insert.induct) auto

lemma pending_of_allowed: "pending_allowed s \<Longrightarrow> list_all env_allowed (map fst (pc_env (pending_of ch s)))"
  by (auto simp: pending_allowed_def pending_of_def no_pending_def split: option.splits)

lemma handle_event_confined:
  assumes "pending_allowed s"
  shows "list_all (confined E) (fst (handle_event E backend ch ev s))
    \<and> pending_allowed (snd (handle_event E backend ch ev s))"
proof -
  note own = pending_of_allowed [OF assms, of ch]
  have start: "list_all (confined E) (fst (ssh_start_session E backend ch (session_shell (se_shell E)) args s))
      \<and> pending_allowed (snd (ssh_start_session E backend ch (session_shell (se_shell E)) args s))"
    if "args = [] \<or> (\<exists>c. args = [''-c'', c])" for args
    using that own assms by (auto simp: ssh_start_session_def confined_def pending_allowed_def Let_def split: sum.splits)
  show ?thesis
  proof (cases ev)
    case (EnvRequest n v)
    then show ?thesis
      using assms own bt_insert_list_all_keys [of env_allowed n "pc_env (pending_of ch s)" v]
      by (auto simp: env_request_def confined_def pending_allowed_def)
  next
    case (PtyRequest c r)
    then show ?thesis using assms own by (auto simp: pty_request_def confined_def pending_allowed_def)
  next
    case ShellRequest
    then show ?thesis using start [of "[]"] by (simp add: ssh_shell_request_def)
  next
    case (ExecRequest cmd)
    then show ?thesis using start [of "[''-c'', from_utf8_lossy cmd]"] by (simp add: ssh_exec_request_def)
  qed (use assms in \<open>auto simp: window_change_request_def
      channel_data_def channel_eof_def channel_close_def channel_open_session_def subsystem_request_def
      confined_def pending_allowed_def split: option.splits\<close>)
qed

text \<open>
  C14: every session an ssh client can start runs the sandbox's own shell in the project root, with
  no argument or with one command line, and of the client's environment only the variables of
  the allowlist reach it, whatever the client sends and in whatever order.
\<close>

theorem ssh_sessions_confined:
  "list_all (confined E) (fst (run_events E ds ssh_server_new))"
proof -
  have "pending_allowed s \<Longrightarrow> list_all (confined E) (fst (run_events E ds s))" for s
  proof (induction ds arbitrary: s)
    case (Cons d ds)
    obtain backend c ev where d: "d = (backend, c, ev)" by (rule prod_cases3)
    then show ?case
      using handle_event_confined [OF Cons.prems, of E backend c ev] Cons.IH by (simp add: case_prod_beta)
  qed simp
  then show ?thesis by (simp add: pending_allowed_def ssh_server_new_def)
qed

text \<open>The session of a channel that a close would terminate, according to the effects so far.\<close>

fun latest_session :: "nat \<Rightarrow> nat option \<Rightarrow> ssh_effect list \<Rightarrow> nat option" where
  "latest_session ch p [] = p"
| "latest_session ch p (SessionStarted c _ pgid # es) = latest_session ch (if c = ch then Some pgid else p) es"
| "latest_session ch p (Terminated c _ # es) = latest_session ch (if c = ch then None else p) es"
| "latest_session ch p (_ # es) = latest_session ch p es"

lemma latest_session_append: "latest_session ch p (es @ fs) = latest_session ch (latest_session ch p es) fs"
  by (induction ch p es rule: latest_session.induct) simp_all

abbreviation active_pgid :: "nat \<Rightarrow> ssh_server \<Rightarrow> nat option" where
  "active_pgid ch s \<equiv> map_option ac_pgid (map_of (ss_active s) ch)"

lemma handle_event_latest:
  "active_pgid ch (snd (handle_event E backend c ev s)) =
     latest_session ch (active_pgid ch s) (fst (handle_event E backend c ev s))"
  by (cases ev) (auto simp: handler_defs split: option.splits sum.splits)

lemma run_events_latest:
  "active_pgid ch (snd (run_events E ds s)) = latest_session ch (active_pgid ch s) (fst (run_events E ds s))"
proof (induction ds arbitrary: s)
  case (Cons d ds)
  obtain backend c ev where "d = (backend, c, ev)" by (rule prod_cases3)
  then show ?case using Cons.IH handle_event_latest by (simp add: case_prod_beta latest_session_append)
qed simp

text \<open>
  Closing a channel terminates the process group of the session started on it last, if it has not
  been terminated before, and no other; and only a close terminates anything.
\<close>

theorem ssh_close_terminates_latest:
  "fst (handle_event E backend ch ev (snd (run_events E ds ssh_server_new))) =
     (case (ev, latest_session ch None (fst (run_events E ds ssh_server_new))) of
        (ChannelClose, Some pgid) \<Rightarrow> [Terminated ch pgid]
      | (ChannelClose, None) \<Rightarrow> []
      | _ \<Rightarrow> filter (\<lambda>e. case e of Terminated _ _ \<Rightarrow> False | _ \<Rightarrow> True)
               (fst (handle_event E backend ch ev (snd (run_events E ds ssh_server_new)))))"
proof (cases "ev = ChannelClose")
  case True
  have "latest_session ch None (fst (run_events E ds ssh_server_new)) =
      active_pgid ch (snd (run_events E ds ssh_server_new))"
    using run_events_latest [where s = ssh_server_new and ch = ch and E = E and ds = ds]
    by (simp add: ssh_server_new_def)
  then show ?thesis by (cases "map_of (ss_active (snd (run_events E ds ssh_server_new))) ch")
    (simp_all add: True channel_close_def)
next
  case False
  then show ?thesis by (cases ev) (auto simp: handler_defs split: option.splits sum.splits)
qed

definition sample_ssh_backend :: "nat \<Rightarrow> spawn_request \<Rightarrow> string + spawned_session" where
  "sample_ssh_backend pgid _ = Inr \<lparr>sp_pgid = pgid, sp_stdin = None, sp_stdout = Pipe, sp_stderr = None, sp_resize = None\<rparr>"

text \<open>
  A second session on a channel takes the place of the first in the table of sessions: after a
  client has started two and closed its channel, the connection remembers nothing, and the first
  session's process group has never been signalled.
\<close>

theorem ssh_second_session_orphans_first:
  "\<exists>ds effects req. run_events \<lparr>se_shell = None, se_cwd = ''/p''\<rparr> ds ssh_server_new = (effects, ssh_server_new)
     \<and> SessionStarted 0 req 11 \<in> set effects
     \<and> filter (\<lambda>e. case e of Terminated _ _ \<Rightarrow> True | _ \<Rightarrow> False) effects = [Terminated 0 12]"
  by (intro exI [of _ "[(sample_ssh_backend 11, 0, ExecRequest ''sleep 100''), (sample_ssh_backend 12, 0, ShellRequest),
       (sample_ssh_backend 12, 0, ChannelClose)]"])
     (simp add: handler_defs sample_ssh_backend_def ssh_server_new_def)

end
