(* ===== verification/Capability.thy ===== *)
theory Capability
  imports Policy
begin

text \<open>
  The projection of a compiled policy onto the sandboxing library
  (\<open>src/policy/capability_set.rs\<close>).  The library (\<open>nono\<close>) and the file-system
  probes are parameters; \<open>call_log\<close> instantiates the library by the list of calls made,
  which is how the properties speak about what reaches the backend.
\<close>

section \<open>Model: the plan\<close>

record capability_plan =
  plan_filesystem_allow :: "string list"
  plan_filesystem_read :: "string list"
  plan_filesystem_deny :: "string list"
  plan_network_block :: bool
  plan_network_ports :: "16 word list"
  plan_network_proxy_port :: "16 word option"
  plan_unix_socket_bind :: "string list"
  plan_signal_mode :: string

definition to_capability_plan :: "compiled_policy \<Rightarrow> capability_plan" where
  "to_capability_plan c =
     \<lparr>plan_filesystem_allow = map av_value (filesystem_allow c),
      plan_filesystem_read = map av_value (filesystem_read c),
      plan_filesystem_deny = map av_value (filesystem_deny c),
      plan_network_block = network_block c,
      plan_network_ports = map ap_value (network_ports c),
      plan_network_proxy_port = network_proxy_port c,
      plan_unix_socket_bind = map av_value (unix_socket_bind c),
      plan_signal_mode = signal_mode c\<rparr>"

section \<open>Model: the backend library and the host\<close>

datatype access_mode = ReadAccess | ReadWriteAccess

text \<open>The builder operations of \<open>nono::CapabilitySet\<close> that are used.\<close>

record ('c, 'e) nono_lib =
  caps_new :: 'c
  allow_path :: "'c \<Rightarrow> string \<Rightarrow> access_mode \<Rightarrow> 'e + 'c"
  allow_file :: "'c \<Rightarrow> string \<Rightarrow> access_mode \<Rightarrow> 'e + 'c"
  proxy_only :: "'c \<Rightarrow> 16 word \<Rightarrow> 'c"
  block_network :: "'c \<Rightarrow> 'c"
  allow_all_network :: "'c \<Rightarrow> 'c"
  allow_localhost_port :: "'c \<Rightarrow> 16 word \<Rightarrow> 'c"
  allow_unix_socket :: "'c \<Rightarrow> string \<Rightarrow> 'e + 'c"
  set_signal_isolated :: "'c \<Rightarrow> 'c"

record host_paths =
  hp_exists :: "string \<Rightarrow> bool"
  hp_is_dir :: "string \<Rightarrow> bool"
  hp_canonicalize :: "string \<Rightarrow> string + string"
  hp_home :: "string option"

datatype 'e capability_set_error =
    DenyOverlapsAllow string string
  | SymlinkEscapesProjectRoot string string
  | Canonicalize string string
  | Backend 'e

section \<open>Model: the projection\<close>

definition check_no_deny_overlaps_allow :: "capability_plan \<Rightarrow> 'e capability_set_error + unit" where
  "check_no_deny_overlaps_allow plan =
     try_each
       (\<lambda>deny. try_each
          (\<lambda>allow. if is_within deny allow then Inl (DenyOverlapsAllow deny allow) else Inr ())
          (plan_filesystem_allow plan @ plan_filesystem_read plan))
       (plan_filesystem_deny plan)"

definition resolve :: "host_paths \<Rightarrow> string \<Rightarrow> string \<Rightarrow> string \<times> bool" where
  "resolve host v project_root =
     (let home = (case hp_home host of None \<Rightarrow> [] | Some h \<Rightarrow> h)
      in if v = ''~'' then (home, False)
         else case strip_prefix ''~/'' v of
             Some rest \<Rightarrow> (path_join home rest, False)
           | None \<Rightarrow>
               if starts_with ''/'' v then (v, False)
               else (path_join project_root v, True))"

text \<open>\<open>Path::starts_with\<close> on canonical (absolute) paths: component-wise.\<close>

definition path_starts_with :: "string \<Rightarrow> string \<Rightarrow> bool" where
  "path_starts_with p base =
     (starts_with ''/'' p = starts_with ''/'' base \<and>
      starts_with (filter (\<lambda>c. c \<noteq> [] \<and> c \<noteq> ''.'') (split_on CHR ''/'' base))
        (filter (\<lambda>c. c \<noteq> [] \<and> c \<noteq> ''.'') (split_on CHR ''/'' p)))"

definition check_symlink_escape ::
  "host_paths \<Rightarrow> string \<Rightarrow> string \<Rightarrow> string \<Rightarrow> 'e capability_set_error + unit" where
  "check_symlink_escape host v resolved project_root =
     rbind (map_err (Canonicalize v) (hp_canonicalize host resolved)) (\<lambda>canonical_target.
     rbind (map_err (Canonicalize ''.'') (hp_canonicalize host project_root)) (\<lambda>canonical_root.
     if \<not> path_starts_with canonical_target canonical_root
     then Inl (SymlinkEscapesProjectRoot v canonical_target) else Inr ()))"

definition grant ::
  "('c, 'e) nono_lib \<Rightarrow> host_paths \<Rightarrow> string \<Rightarrow> access_mode \<Rightarrow> 'c \<Rightarrow> string \<Rightarrow>
   'e capability_set_error + 'c" where
  "grant lib host project_root acc caps v =
     (let (resolved, is_project_relative) = resolve host v project_root
      in if \<not> hp_exists host resolved then Inr caps
         else rbind (if is_project_relative
                     then check_symlink_escape host v resolved project_root else Inr ()) (\<lambda>_.
           map_err Backend
             (if hp_is_dir host resolved then allow_path lib caps resolved acc
              else allow_file lib caps resolved acc)))"

text \<open>
  The result is \<open>None\<close> where the source panics: its \<open>unreachable!\<close> on a signal mode other
  than \<open>isolated\<close>.
\<close>

definition to_capability_set ::
  "('c, 'e) nono_lib \<Rightarrow> host_paths \<Rightarrow> capability_plan \<Rightarrow> string \<Rightarrow>
   ('e capability_set_error + 'c) option" where
  "to_capability_set lib host plan project_root =
     (case (rbind (check_no_deny_overlaps_allow plan) (\<lambda>_.
            rbind (try_fold (grant lib host project_root ReadWriteAccess) (caps_new lib)
                     (plan_filesystem_allow plan)) (\<lambda>caps.
            rbind (try_fold (grant lib host project_root ReadAccess) caps
                     (plan_filesystem_read plan)) (\<lambda>caps.
            let caps = (case plan_network_proxy_port plan of
                    Some port \<Rightarrow> proxy_only lib caps port
                  | None \<Rightarrow> if plan_network_block plan then block_network lib caps
                           else allow_all_network lib caps);
                caps = foldl (allow_localhost_port lib) caps (plan_network_ports plan)
            in try_fold (\<lambda>caps socket. map_err Backend (allow_unix_socket lib caps socket)) caps
                 (plan_unix_socket_bind plan))))) of
        Inl e \<Rightarrow> Some (Inl e)
      | Inr caps \<Rightarrow>
          if plan_signal_mode plan = ''isolated'' then Some (Inr (set_signal_isolated lib caps))
          else None)"

section \<open>The call log of the backend\<close>

datatype cap_call =
    AllowPath string access_mode
  | AllowFile string access_mode
  | ProxyOnly "16 word"
  | BlockNetwork
  | AllowAllNetwork
  | AllowLocalhostPort "16 word"
  | AllowUnixSocket string
  | SignalIsolated

definition call_log :: "(cap_call list, unit) nono_lib" where
  "call_log =
     \<lparr>caps_new = [],
      allow_path = (\<lambda>c p acc. Inr (c @ [AllowPath p acc])),
      allow_file = (\<lambda>c p acc. Inr (c @ [AllowFile p acc])),
      proxy_only = (\<lambda>c p. c @ [ProxyOnly p]),
      block_network = (\<lambda>c. c @ [BlockNetwork]),
      allow_all_network = (\<lambda>c. c @ [AllowAllNetwork]),
      allow_localhost_port = (\<lambda>c p. c @ [AllowLocalhostPort p]),
      allow_unix_socket = (\<lambda>c s. Inr (c @ [AllowUnixSocket s])),
      set_signal_isolated = (\<lambda>c. c @ [SignalIsolated])\<rparr>"

lemma call_log_simps [simp]:
  "caps_new call_log = []"
  "allow_path call_log c p acc = Inr (c @ [AllowPath p acc])"
  "allow_file call_log c p acc = Inr (c @ [AllowFile p acc])"
  "proxy_only call_log c port = c @ [ProxyOnly port]"
  "block_network call_log c = c @ [BlockNetwork]"
  "allow_all_network call_log c = c @ [AllowAllNetwork]"
  "allow_localhost_port call_log c port = c @ [AllowLocalhostPort port]"
  "allow_unix_socket call_log c sock = Inr (c @ [AllowUnixSocket sock])"
  "set_signal_isolated call_log c = c @ [SignalIsolated]"
  by (simp_all add: call_log_def)

section \<open>Lemmas: deny and allow\<close>

lemma check_no_deny_overlaps_Ok_iff:
  "check_no_deny_overlaps_allow plan = Inr () \<longleftrightarrow>
     (\<forall>d \<in> set (plan_filesystem_deny plan).
        \<not> path_containment.covered (plan_filesystem_allow plan @ plan_filesystem_read plan) d)"
  by (auto simp: check_no_deny_overlaps_allow_def result_simps path_containment.covered_def
      list_ex_iff split: if_splits simp del: set_append)

lemma to_capability_set_Inr:
  assumes "to_capability_set lib host plan root = Some (Inr caps)"
  shows "check_no_deny_overlaps_allow plan = (Inr () :: 'e capability_set_error + unit)"
    and "plan_signal_mode plan = ''isolated''"
  using assms
  by (auto simp: to_capability_set_def check_no_deny_overlaps_Ok_iff result_simps
      split: sum.splits if_splits)

text \<open>The plan only ever sees the one signal mode, so the panic branch is dead.\<close>

lemma to_capability_set_no_panic:
  "plan_signal_mode plan = ''isolated'' \<Longrightarrow> to_capability_set lib host plan root \<noteq> None"
  by (auto simp: to_capability_set_def split: sum.splits)

lemma plan_of_policy [simp]:
  "plan_filesystem_allow (to_capability_plan c) = values_of (filesystem_allow c)"
  "plan_filesystem_read (to_capability_plan c) = values_of (filesystem_read c)"
  "plan_filesystem_deny (to_capability_plan c) = values_of (filesystem_deny c)"
  "plan_network_block (to_capability_plan c) = network_block c"
  "plan_network_ports (to_capability_plan c) = map ap_value (network_ports c)"
  "plan_network_proxy_port (to_capability_plan c) = network_proxy_port c"
  "plan_unix_socket_bind (to_capability_plan c) = values_of (unix_socket_bind c)"
  "plan_signal_mode (to_capability_plan c) = signal_mode c"
  by (simp_all add: to_capability_plan_def)

section \<open>Lemmas: what reaches the backend\<close>

definition grant_calls :: "host_paths \<Rightarrow> string \<Rightarrow> access_mode \<Rightarrow> string \<Rightarrow> cap_call list" where
  "grant_calls host root acc v =
     (let p = fst (resolve host v root)
      in if \<not> hp_exists host p then []
         else if hp_is_dir host p then [AllowPath p acc] else [AllowFile p acc])"

definition network_calls :: "capability_plan \<Rightarrow> cap_call list" where
  "network_calls plan =
     (case plan_network_proxy_port plan of
        Some port \<Rightarrow> [ProxyOnly port]
      | None \<Rightarrow> if plan_network_block plan then [BlockNetwork] else [AllowAllNetwork])"

definition plan_calls :: "host_paths \<Rightarrow> capability_plan \<Rightarrow> string \<Rightarrow> cap_call list" where
  "plan_calls host plan root =
     concat (map (grant_calls host root ReadWriteAccess) (plan_filesystem_allow plan))
     @ concat (map (grant_calls host root ReadAccess) (plan_filesystem_read plan))
     @ network_calls plan
     @ map AllowLocalhostPort (plan_network_ports plan)
     @ map AllowUnixSocket (plan_unix_socket_bind plan)
     @ [SignalIsolated]"

lemma grant_call_log:
  "grant call_log host root acc caps v = Inr caps' \<Longrightarrow> caps' = caps @ grant_calls host root acc v"
  by (auto simp: grant_def grant_calls_def result_simps split: prod.splits if_splits)

lemma foldl_log_ports:
  "foldl (allow_localhost_port call_log) caps ps = caps @ map AllowLocalhostPort ps"
  by (induction ps arbitrary: caps) simp_all

lemma try_fold_log_sockets:
  "try_fold (\<lambda>caps socket. map_err Backend (allow_unix_socket call_log caps socket)) caps ss =
     Inr (caps @ map AllowUnixSocket ss)"
  by (induction ss arbitrary: caps) simp_all

lemma projection_log:
  assumes "to_capability_set call_log host plan root = Some (Inr log)"
  shows "log = plan_calls host plan root"
proof -
  obtain c1 c2 where
    c1: "try_fold (grant call_log host root ReadWriteAccess) [] (plan_filesystem_allow plan) = Inr c1" and
    c2: "try_fold (grant call_log host root ReadAccess) c1 (plan_filesystem_read plan) = Inr c2" and
    log: "log = c2 @ network_calls plan @ map AllowLocalhostPort (plan_network_ports plan)
       @ map AllowUnixSocket (plan_unix_socket_bind plan) @ [SignalIsolated]"
    using assms
    by (auto simp: to_capability_set_def result_simps foldl_log_ports try_fold_log_sockets Let_def
        network_calls_def simp del: call_log_simps(8) split: sum.splits if_splits option.splits)
  have "c1 = concat (map (grant_calls host root ReadWriteAccess) (plan_filesystem_allow plan))"
    using try_fold_appends [OF grant_call_log c1] by simp
  moreover have "c2 = c1 @ concat (map (grant_calls host root ReadAccess) (plan_filesystem_read plan))"
    using try_fold_appends [OF grant_call_log c2] by simp
  ultimately show ?thesis by (simp add: log plan_calls_def)
qed

text \<open>
  C6: when the projection succeeds, the calls made to the sandboxing library are exactly one
  grant for each allowed and readable path that exists on the host (read-write and read-only
  respectively), one network mode, the declared ports, the supervisor sockets and the signal
  mode, in that order, and no other.
\<close>

theorem to_capability_set_calls:
  assumes "to_capability_set call_log host plan root = Some (Inr log)"
  shows "log = plan_calls host plan root"
  using assms by (rule projection_log)

definition sample_host :: host_paths where
  "sample_host =
     \<lparr>hp_exists = (\<lambda>p. List.member [''/work/p/.'', ''/dev/null'', ''/home/u/.local/share/devcroft/other''] p),
      hp_is_dir = (\<lambda>p. p \<noteq> ''/dev/null''),
      hp_canonicalize = (\<lambda>p. Inr (if p = ''/work/p/.'' then ''/work/p'' else p)),
      hp_home = Some ''/home/u''\<rparr>"

definition sample_plan :: capability_plan where
  "sample_plan = to_capability_plan (compile Linux sample_manifest)"

lemma sample_plan_projects:
  "to_capability_set call_log sample_host sample_plan ''/work/p'' =
     Some (Inr [AllowPath ''/work/p/.'' ReadWriteAccess, AllowFile ''/dev/null'' ReadWriteAccess,
       BlockNetwork, SignalIsolated])"
  by code_simp

theorem to_capability_set_calls_witness:
  "plan_calls sample_host sample_plan ''/work/p'' =
     [AllowPath ''/work/p/.'' ReadWriteAccess, AllowFile ''/dev/null'' ReadWriteAccess,
      BlockNetwork, SignalIsolated]"
  using to_capability_set_calls [OF sample_plan_projects] by simp

lemma grant_symlink_safe:
  assumes "grant lib host root acc caps v = Inr caps'"
    and "resolve host v root = (resolved, True)" and "hp_exists host resolved"
  shows "\<exists>target base. hp_canonicalize host resolved = Inr target
    \<and> hp_canonicalize host root = Inr base \<and> path_starts_with target base"
  using assms
  by (auto simp: grant_def check_symlink_escape_def result_simps split: if_splits)

text \<open>
  C12: whenever the projection succeeds, with any backend library, each project-relative grant
  that exists resolves, once symbolic links are followed, to a place at or below the canonical
  project root.
\<close>

theorem granted_paths_stay_in_project:
  assumes "to_capability_set lib host plan root = Some (Inr caps)"
    and "v \<in> set (plan_filesystem_allow plan @ plan_filesystem_read plan)"
    and "resolve host v root = (resolved, True)" and "hp_exists host resolved"
  shows "\<exists>target base. hp_canonicalize host resolved = Inr target
    \<and> hp_canonicalize host root = Inr base \<and> path_starts_with target base"
proof -
  obtain c1 c2 where
    "try_fold (grant lib host root ReadWriteAccess) (caps_new lib) (plan_filesystem_allow plan) = Inr c1"
    "try_fold (grant lib host root ReadAccess) c1 (plan_filesystem_read plan) = Inr c2"
    using assms(1)
    by (auto simp: to_capability_set_def result_simps split: sum.splits)
  then obtain acc s s' where "grant lib host root acc s v = Inr s'"
    using assms(2) try_fold_each by (metis Un_iff set_append)
  then show ?thesis using assms(3,4) by (rule grant_symlink_safe)
qed

theorem granted_paths_stay_in_project_witness:
  "\<exists>target base. hp_canonicalize sample_host ''/work/p/.'' = Inr target
    \<and> hp_canonicalize sample_host ''/work/p'' = Inr base \<and> path_starts_with target base"
proof (rule granted_paths_stay_in_project [OF sample_plan_projects])
  show "''.'' \<in> set (plan_filesystem_allow sample_plan @ plan_filesystem_read sample_plan)"
    by code_simp
  show "resolve sample_host ''.'' ''/work/p'' = (''/work/p/.'', True)" by code_simp
  show "hp_exists sample_host ''/work/p/.''" by code_simp
qed

text \<open>
  A sandbox whose manifest denies network by default never gets the unrestricted network
  mode: with a proxy port the backend is told to admit that port only, without one it is told
  to block the network; and a sandbox that allows network by default has no proxy.
\<close>

theorem network_gate_matches_policy:
  assumes "to_capability_set call_log host (to_capability_plan c) root = Some (Inr log)"
    and "network_proxy_port c = (if wants_egress_proxy c then Some port else None)"
  shows "(AllowAllNetwork \<in> set log \<longleftrightarrow> \<not> network_block c)
    \<and> (BlockNetwork \<in> set log \<longleftrightarrow> network_block c \<and> network_allow_domain c = [])
    \<and> (\<forall>p. ProxyOnly p \<in> set log \<longleftrightarrow> network_block c \<and> network_allow_domain c \<noteq> [] \<and> p = port)"
proof -
  have grants: "AllowAllNetwork \<notin> set (grant_calls host root acc v)"
    "BlockNetwork \<notin> set (grant_calls host root acc v)"
    "ProxyOnly p \<notin> set (grant_calls host root acc v)" for acc v p
    by (auto simp: grant_calls_def Let_def)
  show ?thesis
    unfolding projection_log [OF assms(1)]
    using assms(2) grants
    by (auto simp: plan_calls_def network_calls_def wants_egress_proxy_def split: if_splits)
qed

theorem network_gate_matches_policy_witness:
  "BlockNetwork \<in> set [AllowPath ''/work/p/.'' ReadWriteAccess, AllowFile ''/dev/null'' ReadWriteAccess,
       BlockNetwork, SignalIsolated]
   \<and> network_block (compile Linux sample_manifest)"
proof -
  have "network_proxy_port (compile Linux sample_manifest) =
      (if wants_egress_proxy (compile Linux sample_manifest) then Some 0 else None)"
    by code_simp
  then show ?thesis
    using network_gate_matches_policy [OF sample_plan_projects [unfolded sample_plan_def], of 0]
    by simp
qed

end
