(* ===== verification/Services.thy ===== *)
theory Services
  imports Terminate HttpRequest "HOL-Library.Multiset"
begin

text \<open>
  Services of a sandbox (\<open>src/services/mod.rs\<close>): where their files are, the configuration written for
  the supervisor (process-compose), how its answer is read and bounded, what each entry of it
  means, and the reconciliation with what the provider declared. The JSON printer and parser are
  parameters; the supervisor is the list of the reads of its socket, each with the time it took.
\<close>

section \<open>Files\<close>

definition socket_path :: "string \<Rightarrow> string \<Rightarrow> string" where
  "socket_path root name = path_join (artifact_dir root name) ''services.sock''"

definition config_path :: "string \<Rightarrow> string \<Rightarrow> string" where
  "config_path root name = path_join (artifact_dir root name) ''services.yaml''"

definition log_path :: "string \<Rightarrow> string \<Rightarrow> string" where
  "log_path root name = path_join (artifact_dir root name) ''services.log''"

definition MAX_SOCKET_PATH :: nat where
  "MAX_SOCKET_PATH = 103"

definition resolve_in_env :: "(string \<Rightarrow> bool) \<Rightarrow> (string, string) btmap \<Rightarrow> string option" where
  "resolve_in_env is_regular_file e = (case bt_get e ''PATH'' of
      None \<Rightarrow> None
    | Some path \<Rightarrow> find is_regular_file
        (map (\<lambda>d. path_join d ''process-compose'') (filter (\<lambda>d. d \<noteq> []) (split_on CHR '':'' path))))"

section \<open>The supervisor's configuration\<close>

text \<open>\<open>serde_json::Value\<close>, objects with sorted keys; a number that is no integer is \<open>JFloat\<close>.\<close>

datatype json =
    JNull | JBool bool | JNum int | JFloat string | JString string
  | JArray "json list" | JObject "(string \<times> json) list"

definition SHUTDOWN_TIMEOUT_SECS :: nat where
  "SHUTDOWN_TIMEOUT_SECS = 1"

definition service_entry :: "service_decl \<Rightarrow> json" where
  "service_entry svc =
     (let p = bt_insert ''command'' (JString (sd_command svc)) [];
          p = (if sd_vars svc = [] then p else bt_insert ''environment''
                 (JArray (map (\<lambda>(k, v). JString (k @ ''='' @ v)) (sd_vars svc))) p);
          p = bt_insert ''availability'' (JObject [(''restart'', JString ''no'')]) p;
          shutdown = bt_insert ''timeout'' (JNum (int SHUTDOWN_TIMEOUT_SECS)) [];
          p = (if sd_is_daemon svc then bt_insert ''is_daemon'' (JBool True) p else p);
          shutdown = (if sd_is_daemon svc then
                 (case sd_shutdown_command svc of None \<Rightarrow> shutdown
                  | Some cmd \<Rightarrow> bt_insert ''command'' (JString cmd) shutdown)
               else shutdown)
      in JObject (bt_insert ''shutdown'' (JObject shutdown) p))"

definition render_config :: "service_decl list \<Rightarrow> string \<Rightarrow> json" where
  "render_config services shell =
     (let processes = foldl (\<lambda>ps svc. bt_insert (sd_name svc) (service_entry svc) ps) [] services
      in JObject (bt_extend []
           [(''version'', JString ''0.5''),
            (''shell'', JObject (bt_extend [] [(''shell_command'', JString shell), (''shell_argument'', JString ''-c'')])),
            (''processes'', JObject processes)]))"

section \<open>The state of a service\<close>

datatype service_health = Running | Failed int | Exited | NotStarted | Pending | Skipped

record service_state =
  ss_name :: string
  ss_health :: service_health
  ss_pid :: "int option"

definition health_label :: "service_health \<Rightarrow> string" where
  "health_label h = (case h of
      Running \<Rightarrow> ''running'' | Failed code \<Rightarrow> ''failed (exit '' @ show_int code @ '')''
    | Exited \<Rightarrow> ''exited'' | NotStarted \<Rightarrow> ''not started'' | Pending \<Rightarrow> ''pending''
    | Skipped \<Rightarrow> ''skipped (dependency failed)'')"

definition is_failure :: "service_health \<Rightarrow> bool" where
  "is_failure h = (case h of Failed _ \<Rightarrow> True | _ \<Rightarrow> False)"

definition is_healthy :: "service_health \<Rightarrow> bool" where
  "is_healthy h = (h = Running \<or> h = Exited \<or> h = Pending)"

definition json_get :: "string \<Rightarrow> json \<Rightarrow> json option" where
  "json_get k v = (case v of JObject kvs \<Rightarrow> map_of kvs k | _ \<Rightarrow> None)"

definition as_str :: "json \<Rightarrow> string option" where
  "as_str v = (case v of JString s \<Rightarrow> Some s | _ \<Rightarrow> None)"

definition as_bool :: "json \<Rightarrow> bool option" where
  "as_bool v = (case v of JBool b \<Rightarrow> Some b | _ \<Rightarrow> None)"

definition as_i64 :: "json \<Rightarrow> int option" where
  "as_i64 v = (case v of JNum i \<Rightarrow> if - (2 ^ 63) \<le> i \<and> i < 2 ^ 63 then Some i else None | _ \<Rightarrow> None)"

definition as_array :: "json \<Rightarrow> json list option" where
  "as_array v = (case v of JArray vs \<Rightarrow> Some vs | _ \<Rightarrow> None)"

definition health_of_entry :: "string option \<Rightarrow> bool option \<Rightarrow> int option \<Rightarrow> service_health" where
  "health_of_entry status is_running exited_with =
     (if status = Some ''Pending'' then Pending
      else if status = Some ''Skipped'' then Skipped
      else if is_running = Some True then Running
      else case exited_with of
        Some code \<Rightarrow> if code \<noteq> 0 then Failed code
          else if is_running = Some False then Exited else NotStarted
      | None \<Rightarrow> if is_running = Some False then Exited else NotStarted)"

definition state_from_json :: "json \<Rightarrow> service_state option" where
  "state_from_json v = (case Option.bind (json_get ''name'' v) as_str of
      None \<Rightarrow> None
    | Some name \<Rightarrow> Some
        \<lparr>ss_name = name,
         ss_health = health_of_entry (Option.bind (json_get ''status'' v) as_str)
           (Option.bind (json_get ''is_running'' v) as_bool) (Option.bind (json_get ''exit_code'' v) as_i64),
         ss_pid = (case Option.bind (json_get ''pid'' v) as_i64 of
             Some p \<Rightarrow> if p > 0 then Some p else None | None \<Rightarrow> None)\<rparr>)"

section \<open>Asking the supervisor\<close>

datatype unreachable = NoSocket | Unusable string

definition show_unreachable :: "unreachable \<Rightarrow> string" where
  "show_unreachable u = (case u of NoSocket \<Rightarrow> ''no supervisor socket'' | Unusable why \<Rightarrow> why)"

definition MAX_RESPONSE :: nat where
  "MAX_RESPONSE = 4 * 1024 * 1024"

text \<open>In milliseconds.\<close>

definition QUERY_DEADLINE :: nat where
  "QUERY_DEADLINE = 5000"

text \<open>What is at the socket's path: its owner if it is a socket; the error of connecting and writing
  to it, if any; the reads, with the milliseconds each blocks.\<close>

datatype socket_file = Absent | OtherFile | SocketOf nat

record supervisor =
  sv_path :: string
  sv_file :: socket_file
  sv_uid :: nat
  sv_refused :: "string option"
  sv_reads :: "(nat \<times> string) list"

text \<open>\<open>read_to_end\<close> on \<open>Take\<close> with the read timeout: the time it took, and the bytes or the timeout.\<close>

fun read_to_end :: "nat \<Rightarrow> nat \<Rightarrow> string \<Rightarrow> (nat \<times> string) list \<Rightarrow> nat \<times> (string + string)" where
  "read_to_end limit t acc [] = (t, Inr acc)"
| "read_to_end limit t acc ((delay, bytes) # reads) =
     (if limit = 0 then (t, Inr acc)
      else if delay > QUERY_DEADLINE then (t + QUERY_DEADLINE, Inl ''read: Resource temporarily unavailable'')
      else read_to_end (limit - length bytes) (t + delay) (acc @ take limit bytes) reads)"

text \<open>The first occurrence of a text, as what follows it.\<close>

fun after_text :: "string \<Rightarrow> string \<Rightarrow> string option" where
  "after_text p [] = (if p = [] then Some [] else None)"
| "after_text p (c # cs) = (case strip_prefix p (c # cs) of Some r \<Rightarrow> Some r | None \<Rightarrow> after_text p cs)"

text \<open>\<open>lossy\<close> is \<open>String::from_utf8_lossy\<close>, \<open>parse_json\<close> is \<open>serde_json::from_str\<close>.\<close>

record json_lib =
  lossy :: "string \<Rightarrow> string"
  parse_json :: "string \<Rightarrow> string + json"

definition parse_response :: "json_lib \<Rightarrow> string \<Rightarrow> unreachable + service_state list" where
  "parse_response J raw =
     (if length raw \<ge> MAX_RESPONSE
        then Inl (Unusable (''response exceeded '' @ show_nat MAX_RESPONSE @ '' bytes''))
      else case after_text (crlf @ crlf) (lossy J raw) of
        None \<Rightarrow> Inl (Unusable ''no HTTP body in response'')
      | Some body \<Rightarrow>
          let doc = dropWhile (\<lambda>c. c \<noteq> CHR ''{'') body in
          if doc = [] then Inl (Unusable ''no JSON in response body'')
          else rbind (map_err (\<lambda>e. Unusable (''malformed JSON: '' @ e)) (parse_json J doc)) (\<lambda>parsed.
            case Option.bind (json_get ''data'' parsed) as_array of
              None \<Rightarrow> Inl (Unusable (''response JSON has no '' @ [CHR 0x60] @ ''data'' @ [CHR 0x60] @ '' array''))
            | Some items \<Rightarrow> Inr (sort_key ss_name (List.map_filter state_from_json items))))"

text \<open>The result of a query, with the time it took. The deadline is looked at once, after the last read.\<close>

definition query :: "json_lib \<Rightarrow> supervisor \<Rightarrow> nat \<times> (unreachable + service_state list)" where
  "query J sv = (case sv_file sv of
      Absent \<Rightarrow> (0, Inl NoSocket)
    | OtherFile \<Rightarrow> (0, Inl (Unusable (sv_path sv @ '' exists but is not a socket'')))
    | SocketOf owner \<Rightarrow>
        if owner \<noteq> sv_uid sv then (0, Inl (Unusable (sv_path sv @ '' is owned by uid '' @ show_nat owner
            @ '', not '' @ show_nat (sv_uid sv))))
        else (case sv_refused sv of
            Some e \<Rightarrow> (0, Inl (Unusable e))
          | None \<Rightarrow> (case read_to_end MAX_RESPONSE 0 [] (sv_reads sv) of
              (t, Inl e) \<Rightarrow> (t, Inl (Unusable e))
            | (t, Inr raw) \<Rightarrow>
                if t > QUERY_DEADLINE then (t, Inl (Unusable ''supervisor did not answer within the deadline''))
                else (t, parse_response J raw))))"

section \<open>The report\<close>

record services_report =
  sr_states :: "service_state list"
  sr_error :: "string option"

definition report_is_empty :: "services_report \<Rightarrow> bool" where
  "report_is_empty r = (sr_states r = [] \<and> sr_error r = None)"

definition not_started :: "string \<Rightarrow> service_state" where
  "not_started name = \<lparr>ss_name = name, ss_health = NotStarted, ss_pid = None\<rparr>"

definition add_missing :: "string list \<Rightarrow> service_state list \<Rightarrow> service_state list" where
  "add_missing declared_names states =
     foldl (\<lambda>states name. if list_ex (\<lambda>s. ss_name s = name) states then states else states @ [not_started name])
       states declared_names"

definition reconcile :: "string list \<Rightarrow> unreachable + service_state list \<Rightarrow> services_report" where
  "reconcile declared_names queried = (case queried of
      Inr states \<Rightarrow> \<lparr>sr_states = sort_key ss_name (add_missing declared_names states), sr_error = None\<rparr>
    | Inl why \<Rightarrow>
        if why = NoSocket \<and> declared_names = [] then \<lparr>sr_states = [], sr_error = None\<rparr>
        else \<lparr>sr_states = map not_started declared_names,
              sr_error = Some (''supervisor unreachable: '' @ show_unreachable why)\<rparr>)"

section \<open>Lemmas: the report\<close>

lemma add_missing_shape:
  "\<exists>added. add_missing names states = states @ map not_started added \<and> distinct added
     \<and> set added = set names - ss_name ` set states"
proof (induction names arbitrary: states)
  case Nil
  then show ?case by (simp add: add_missing_def)
next
  case (Cons n names)
  show ?case
  proof (cases "n \<in> ss_name ` set states")
    case True
    then have "add_missing (n # names) states = add_missing names states"
      by (auto simp: add_missing_def list_ex_iff)
    then show ?thesis using Cons [of states] True by auto
  next
    case False
    then have "add_missing (n # names) states = add_missing names (states @ [not_started n])"
      by (auto simp: add_missing_def list_ex_iff)
    moreover obtain added where "add_missing names (states @ [not_started n]) =
        (states @ [not_started n]) @ map not_started added" "distinct added"
      "set added = set names - ss_name ` set (states @ [not_started n])"
      using Cons by blast
    ultimately show ?thesis using False
      by (intro exI [of _ "n # added"]) (auto simp: not_started_def)
  qed
qed

text \<open>
  Nothing declared goes unreported. When the supervisor answers, the report is its answer
  unchanged together with exactly one entry, not started, for each declared service it does not
  know, sorted by name; when it does not, every declared service is reported not started and
  the reason is given; and a report is empty only if no service is declared and either there is
  no supervisor or it knows of none.
\<close>

theorem reconcile_accounts_for_declared:
  "(case queried of
      Inr states \<Rightarrow> (\<exists>added. mset (sr_states (reconcile names queried)) = mset states + mset (map not_started added)
          \<and> distinct added \<and> set added = set names - ss_name ` set states
          \<and> sorted (map ss_name (sr_states (reconcile names queried))) \<and> sr_error (reconcile names queried) = None)
    | Inl why \<Rightarrow> sr_states (reconcile names queried) = map not_started names
          \<and> (sr_error (reconcile names queried) = None \<longleftrightarrow> why = NoSocket \<and> names = []))
   \<and> (report_is_empty (reconcile names queried) \<longleftrightarrow> names = [] \<and> (queried = Inl NoSocket \<or> queried = Inr []))"
proof (cases queried)
  case (Inl why)
  then show ?thesis by (auto simp: reconcile_def report_is_empty_def)
next
  case (Inr states)
  obtain added where added: "add_missing names states = states @ map not_started added" "distinct added"
    "set added = set names - ss_name ` set states"
    using add_missing_shape by blast
  have "mset (sr_states (reconcile names queried)) = mset states + mset (map not_started added)"
    by (simp add: reconcile_def Inr added(1))
  moreover have "sr_states (reconcile names queried) = [] \<longleftrightarrow> states = [] \<and> added = []"
    by (simp add: reconcile_def Inr added(1) flip: set_empty)
  ultimately show ?thesis
    using added by (auto simp: Inr reconcile_def report_is_empty_def intro!: exI [of _ added])
qed

text \<open>
  A service is reported failed exactly when the supervisor says it is neither waiting nor
  skipped nor running and gives a non-zero exit code, which is the one reported; a service that
  never ran is never reported failed or exited, and one the supervisor calls running is.
\<close>

theorem health_of_entry_table:
  "(health_of_entry status is_running exited_with = Failed code \<longleftrightarrow>
      status \<noteq> Some ''Pending'' \<and> status \<noteq> Some ''Skipped'' \<and> is_running \<noteq> Some True
      \<and> exited_with = Some code \<and> code \<noteq> 0)
   \<and> (health_of_entry status is_running exited_with = Exited \<longleftrightarrow>
      status \<noteq> Some ''Pending'' \<and> status \<noteq> Some ''Skipped'' \<and> is_running = Some False
      \<and> (exited_with = None \<or> exited_with = Some 0))
   \<and> (is_healthy (health_of_entry status is_running exited_with) \<longleftrightarrow>
      status = Some ''Pending'' \<or> (status \<noteq> Some ''Skipped'' \<and>
        (is_running = Some True \<or> is_running = Some False \<and> (exited_with = None \<or> exited_with = Some 0))))"
  by (auto simp: health_of_entry_def is_healthy_def split: option.splits)

section \<open>Lemmas: the time of a query\<close>

lemma read_to_end_time:
  assumes "list_all (\<lambda>(_, bytes). bytes \<noteq> []) reads"
  shows "fst (read_to_end limit t acc reads) \<le> t + (limit + 1) * QUERY_DEADLINE"
  using assms
proof (induction limit t acc reads rule: read_to_end.induct)
  case (2 limit t acc delay bytes reads)
  show ?case
  proof (cases "limit = 0 \<or> delay > QUERY_DEADLINE")
    case False
    then have "fst (read_to_end limit t acc ((delay, bytes) # reads)) \<le>
        (t + delay) + (limit - length bytes + 1) * QUERY_DEADLINE"
      using 2 by simp
    also have "\<dots> \<le> t + (1 + (limit - length bytes + 1)) * QUERY_DEADLINE"
      using False by (simp add: algebra_simps)
    also have "\<dots> \<le> t + (limit + 1) * QUERY_DEADLINE"
      using False 2(2) by (intro add_left_mono mult_right_mono) (cases bytes; auto)+
    finally show ?thesis .
  qed auto
qed simp

lemma read_to_end_drip:
  "n \<le> limit \<Longrightarrow> fst (read_to_end limit t acc (replicate n (QUERY_DEADLINE, ''x''))) = t + n * QUERY_DEADLINE"
  by (induction n arbitrary: limit t acc) auto

text \<open>
  How long \<open>status\<close> can be kept waiting by a sandbox's supervisor. A query always ends, within
  one deadline per byte of the largest response; and the deadline documented for the whole
  exchange is not one, since it is compared only after the last read: a peer that sends one byte
  just within each read's timeout holds the caller for as many deadlines as it sends bytes.
\<close>

theorem query_time:
  assumes "list_all (\<lambda>(_, bytes). bytes \<noteq> []) (sv_reads sv)"
  shows "fst (query J sv) \<le> (MAX_RESPONSE + 1) * QUERY_DEADLINE
    \<and> (\<exists>slow. sv_file slow = SocketOf (sv_uid slow) \<and> length (sv_reads slow) = MAX_RESPONSE
         \<and> list_all (\<lambda>(delay, bytes). delay \<le> QUERY_DEADLINE \<and> bytes \<noteq> []) (sv_reads slow)
         \<and> fst (query J slow) = MAX_RESPONSE * QUERY_DEADLINE)"
proof
  have "fst (read_to_end MAX_RESPONSE 0 [] (sv_reads sv)) \<le> (MAX_RESPONSE + 1) * QUERY_DEADLINE"
    using read_to_end_time [OF assms, of MAX_RESPONSE 0 "[]"] by simp
  then show "fst (query J sv) \<le> (MAX_RESPONSE + 1) * QUERY_DEADLINE"
    by (auto simp: query_def split: socket_file.split option.split prod.splits sum.split)
  let ?slow = "\<lparr>sv_path = [], sv_file = SocketOf 0, sv_uid = 0, sv_refused = None,
    sv_reads = replicate MAX_RESPONSE (QUERY_DEADLINE, ''x'')\<rparr>"
  have "fst (query J ?slow) = fst (read_to_end MAX_RESPONSE 0 [] (replicate MAX_RESPONSE (QUERY_DEADLINE, ''x'')))"
    by (auto simp: query_def split: prod.splits sum.split)
  then show "\<exists>slow. sv_file slow = SocketOf (sv_uid slow) \<and> length (sv_reads slow) = MAX_RESPONSE
         \<and> list_all (\<lambda>(delay, bytes). delay \<le> QUERY_DEADLINE \<and> bytes \<noteq> []) (sv_reads slow)
         \<and> fst (query J slow) = MAX_RESPONSE * QUERY_DEADLINE"
    by (intro exI [of _ ?slow]) (simp add: read_to_end_drip list_all_iff)
qed

theorem query_time_witness:
  "fst (query \<lparr>lossy = id, parse_json = (\<lambda>_. Inr JNull)\<rparr>
     \<lparr>sv_path = ''/p/.devcroft/web/services.sock'', sv_file = SocketOf 501, sv_uid = 501, sv_refused = None,
      sv_reads = [(10, ''HTTP/1.1 200 OK'')]\<rparr>) \<le> (MAX_RESPONSE + 1) * QUERY_DEADLINE"
  by (rule query_time [THEN conjunct1]) simp

end
