(* ===== verification/KeeperMain.thy ===== *)
theory KeeperMain
  imports SshServer Capability Services
begin

text \<open>
  The keeper's process (\<open>keeper_main\<close> and what it calls in \<open>src/bin/devcroft.rs\<close>, \<open>Keeper\<close> in
  \<open>src/keeper/mod.rs\<close>, \<open>start_from_env\<close> in \<open>src/ssh/mod.rs\<close>): the order in which it binds, restricts
  itself, starts threads and services, and what its shutdown thread signals, when. The environment,
  the sandboxing library, the system calls and the supervisor are parameters.
\<close>

section \<open>Startup\<close>

record ('c, 'e) keeper_host =
  kh_env :: "string \<Rightarrow> string option"
  kh_cwd :: "string + string"
  kh_plan :: "string \<Rightarrow> string + capability_plan"
  kh_nono :: "('c, 'e) nono_lib"
  kh_paths :: host_paths
  kh_apply :: "'c \<Rightarrow> bool"
  kh_bind :: "u16 \<Rightarrow> bool"
  kh_sigmask :: bool
  kh_spawn :: "spawn_request \<Rightarrow> string + spawned_session"
  kh_ssh_keys :: "string \<Rightarrow> string \<Rightarrow> bool"
  kh_now :: int

text \<open>A process that has got this far: its relay listener, the restriction in force, whether the shutdown
  signals are blocked in its main thread, the threads it started with whether they inherited that
  block, its registry, and the processes it started with the restriction they inherited.\<close>

record 'c keeper_state =
  ks_relay :: "(u16 \<times> string) option"
  ks_restricted :: "'c option"
  ks_blocked :: bool
  ks_threads :: "(string \<times> bool) list"
  ks_registry :: registry
  ks_spawned :: "(spawn_request \<times> 'c option) list"

definition keeper_new :: "'c keeper_state" where
  "keeper_new = \<lparr>ks_relay = None, ks_restricted = None, ks_blocked = False, ks_threads = [],
     ks_registry = registry_new, ks_spawned = []\<rparr>"

definition start_thread :: "string \<Rightarrow> 'c keeper_state \<Rightarrow> 'c keeper_state" where
  "start_thread name s = s\<lparr>ks_threads := ks_threads s @ [(name, ks_blocked s)]\<rparr>"

definition bind_relay :: "('c, 'e) keeper_host \<Rightarrow> 'c keeper_state \<Rightarrow> 'c keeper_state" where
  "bind_relay H s =
     (case (Option.bind (kh_env H ''DEVCROFT_PROXY_RELAY_PORT'') parse_u16, kh_env H ''DEVCROFT_PROXY_SOCKET'') of
        (Some port, Some sock) \<Rightarrow> if kh_bind H port then s\<lparr>ks_relay := Some (port, sock)\<rparr> else s
      | _ \<Rightarrow> s)"

text \<open>Every failure ends the process: with code 1, or a panic (101).\<close>

definition self_restrict :: "('c, 'e) keeper_host \<Rightarrow> 'c keeper_state \<Rightarrow> nat + 'c keeper_state" where
  "self_restrict H s = (case kh_env H ''DEVCROFT_CAPABILITY_PLAN'' of
      None \<Rightarrow> Inl 1
    | Some plan_json \<Rightarrow> (case kh_plan H plan_json of
        Inl _ \<Rightarrow> Inl 1
      | Inr plan \<Rightarrow> (case kh_cwd H of
          Inl _ \<Rightarrow> Inl 1
        | Inr root \<Rightarrow> (case to_capability_set (kh_nono H) (kh_paths H) plan root of
            None \<Rightarrow> Inl 101
          | Some (Inl _) \<Rightarrow> Inl 1
          | Some (Inr caps) \<Rightarrow> if kh_apply H caps then Inr (s\<lparr>ks_restricted := Some caps\<rparr>) else Inl 1))))"

definition install_shutdown_handler :: "('c, 'e) keeper_host \<Rightarrow> 'c keeper_state \<Rightarrow> nat + 'c keeper_state" where
  "install_shutdown_handler H s =
     (if kh_sigmask H then Inr (start_thread ''shutdown'' (s\<lparr>ks_blocked := True\<rparr>)) else Inl 101)"

definition services_requested :: "(string \<Rightarrow> string option) \<Rightarrow> bool" where
  "services_requested getenv = (getenv ''DEVCROFT_START_SERVICES'' = Some ''1'')"

definition services_root :: "(string \<Rightarrow> string option) \<Rightarrow> string" where
  "services_root getenv = (case getenv ''DEVCROFT_SERVICES_ROOT'' of Some r \<Rightarrow> r | None \<Rightarrow> ''.'')"

definition services_name :: "(string \<Rightarrow> string option) \<Rightarrow> string" where
  "services_name getenv = (case getenv ''DEVCROFT_SANDBOX_NAME'' of Some n \<Rightarrow> n | None \<Rightarrow> [])"

definition services_request :: "(string \<Rightarrow> string option) \<Rightarrow> spawn_request" where
  "services_request getenv =
     (let root = services_root getenv; name = services_name getenv in
      \<lparr>req_cmd = ''process-compose'',
       req_args = [''up'', ''-f'', config_path root name, ''-t=false'', ''-L'', log_path root name,
         ''-u'', socket_path root name, ''--keep-project''],
       req_cwd = root, req_env = [], req_pty = None\<rparr>)"

definition start_services_if_requested :: "('c, 'e) keeper_host \<Rightarrow> 'c keeper_state \<Rightarrow> 'c keeper_state" where
  "start_services_if_requested H s =
     (if \<not> services_requested (kh_env H) then s
      else let req = services_request (kh_env H) in
        case kh_spawn H req of
          Inl _ \<Rightarrow> s
        | Inr spawned \<Rightarrow>
            s\<lparr>ks_registry := snd (registry_insert (sp_pgid spawned) ''process-compose (services)'' (kh_now H) (ks_registry s)),
              ks_spawned := ks_spawned s @ [(req, ks_restricted s)]\<rparr>)"

definition start_from_env :: "('c, 'e) keeper_host \<Rightarrow> 'c keeper_state \<Rightarrow> 'c keeper_state" where
  "start_from_env H s = (case (kh_env H ''DEVCROFT_SSH_HOST_KEY'', kh_env H ''DEVCROFT_SSH_AUTHORIZED_KEY'') of
      (Some host_key, Some authorized_key) \<Rightarrow> if kh_ssh_keys H host_key authorized_key then start_thread ''ssh'' s else s
    | _ \<Rightarrow> s)"

text \<open>Up to the accept loop.\<close>

definition keeper_main :: "('c, 'e) keeper_host \<Rightarrow> nat + 'c keeper_state" where
  "keeper_main H =
     rbind (self_restrict H (bind_relay H keeper_new)) (\<lambda>s.
     let s = (if ks_relay s \<noteq> None then start_thread ''relay'' s else s) in
     rbind (install_shutdown_handler H s) (\<lambda>s.
     Inr (start_from_env H (start_services_if_requested H s))))"

text \<open>The accept loop: one thread per connection, until accepting fails.\<close>

definition serve :: "nat \<Rightarrow> 'c keeper_state \<Rightarrow> 'c keeper_state" where
  "serve connections s = (start_thread ''connection'' ^^ connections) s"

section \<open>Shutdown\<close>

text \<open>\<open>DEFAULT_GRACE_PERIOD\<close>, and the time \<open>down\<close> leaves the keeper, in milliseconds.\<close>

definition DEFAULT_GRACE_PERIOD :: nat where
  "DEFAULT_GRACE_PERIOD = 2000"

definition OUTER_GRACE :: nat where
  "OUTER_GRACE = GRACE_PERIOD * 50"

text \<open>\<open>pid as libc::pid_t\<close> keeps the low 32 bits.\<close>

definition service_process_groups ::
  "(string \<Rightarrow> string option) \<Rightarrow> json_lib \<Rightarrow> (string \<Rightarrow> supervisor) \<Rightarrow> nat \<times> i32 list" where
  "service_process_groups getenv J supervisor_at =
     (if \<not> services_requested getenv then (0, [])
      else case query J (supervisor_at (socket_path (services_root getenv) (services_name getenv))) of
        (t, Inl _) \<Rightarrow> (t, [])
      | (t, Inr states) \<Rightarrow>
          (t, map word_of_int (filter (\<lambda>pid. pid > 0) (List.map_filter ss_pid states))))"

text \<open>A signal sent by \<open>kill\<close>: when, the (negated) argument, which. The sessions are those the registry has
  at each of the two moments.\<close>

definition group_signals :: "nat \<Rightarrow> nat \<Rightarrow> registry \<Rightarrow> i32 list \<Rightarrow> (nat \<times> int \<times> nat) list" where
  "group_signals t sig reg groups =
     map (\<lambda>(_, info). (t, - int (si_pgid info), sig)) (snapshot reg) @ map (\<lambda>g. (t, sint (- g), sig)) groups"

definition shutdown :: "(string \<Rightarrow> string option) \<Rightarrow> json_lib \<Rightarrow> (string \<Rightarrow> supervisor) \<Rightarrow> registry \<Rightarrow> registry \<Rightarrow>
    (nat \<times> int \<times> nat) list" where
  "shutdown getenv J supervisor_at reg later =
     (case service_process_groups getenv J supervisor_at of (t, groups) \<Rightarrow>
        group_signals t 15 reg groups @ group_signals (t + DEFAULT_GRACE_PERIOD) 9 later groups)"

text \<open>What is done before \<open>down\<close> kills the keeper itself.\<close>

definition before_kill :: "(nat \<times> int \<times> nat) list \<Rightarrow> (nat \<times> int \<times> nat) list" where
  "before_kill log = filter (\<lambda>(t, _). t < OUTER_GRACE) log"

section \<open>Lemmas\<close>

lemma self_restrict_Inr:
  "self_restrict H s = Inr s' \<longleftrightarrow> (\<exists>plan_json plan root caps. kh_env H ''DEVCROFT_CAPABILITY_PLAN'' = Some plan_json
     \<and> kh_plan H plan_json = Inr plan \<and> kh_cwd H = Inr root
     \<and> to_capability_set (kh_nono H) (kh_paths H) plan root = Some (Inr caps) \<and> kh_apply H caps
     \<and> s' = s\<lparr>ks_restricted := Some caps\<rparr>)"
  by (auto simp: self_restrict_def split: option.splits sum.splits)

text \<open>What the later steps keep.\<close>

lemma later_steps:
  "ks_restricted (start_thread n s) = ks_restricted s" "ks_spawned (start_thread n s) = ks_spawned s"
  "ks_relay (start_thread n s) = ks_relay s" "ks_registry (start_thread n s) = ks_registry s"
  "ks_blocked (start_thread n s) = ks_blocked s" "ks_threads (start_thread n s) = ks_threads s @ [(n, ks_blocked s)]"
  "ks_restricted (start_from_env H s) = ks_restricted s" "ks_spawned (start_from_env H s) = ks_spawned s"
  "ks_relay (start_from_env H s) = ks_relay s" "ks_registry (start_from_env H s) = ks_registry s"
  "ks_blocked (start_from_env H s) = ks_blocked s"
  "ks_restricted (start_services_if_requested H s) = ks_restricted s"
  "ks_relay (start_services_if_requested H s) = ks_relay s"
  "ks_threads (start_services_if_requested H s) = ks_threads s"
  "ks_blocked (start_services_if_requested H s) = ks_blocked s"
  by (simp_all add: start_thread_def start_from_env_def start_services_if_requested_def Let_def
      split: option.split sum.split)

lemma serve_fields:
  "ks_restricted (serve n s) = ks_restricted s" "ks_spawned (serve n s) = ks_spawned s"
  "ks_relay (serve n s) = ks_relay s" "ks_blocked (serve n s) = ks_blocked s"
  "ks_threads (serve n s) = ks_threads s @ replicate n (''connection'', ks_blocked s)"
proof -
  have "ks_restricted (serve n s) = ks_restricted s \<and> ks_spawned (serve n s) = ks_spawned s
      \<and> ks_relay (serve n s) = ks_relay s \<and> ks_blocked (serve n s) = ks_blocked s
      \<and> ks_threads (serve n s) = ks_threads s @ replicate n (''connection'', ks_blocked s)"
    unfolding serve_def
  proof (induction n)
    case (Suc n)
    then show ?case by (simp add: later_steps replicate_append_same)
  qed simp
  then show "ks_restricted (serve n s) = ks_restricted s" "ks_spawned (serve n s) = ks_spawned s"
    "ks_relay (serve n s) = ks_relay s" "ks_blocked (serve n s) = ks_blocked s"
    "ks_threads (serve n s) = ks_threads s @ replicate n (''connection'', ks_blocked s)" by blast+
qed

lemma bind_relay_fields:
  "ks_restricted (bind_relay H s) = ks_restricted s" "ks_spawned (bind_relay H s) = ks_spawned s"
  "ks_blocked (bind_relay H s) = ks_blocked s"
  "ks_threads (bind_relay H s) = ks_threads s" "ks_registry (bind_relay H s) = ks_registry s"
  by (simp_all add: bind_relay_def split: option.split)

lemma services_spawned:
  "ks_spawned (start_services_if_requested H s) = ks_spawned s
   \<or> ks_spawned (start_services_if_requested H s) = ks_spawned s @ [(services_request (kh_env H), ks_restricted s)]"
  by (simp add: start_services_if_requested_def Let_def split: sum.split)

text \<open>
  C4: nothing that a project supplies runs before the keeper has restricted itself: a keeper that reaches
  its accept loop, whatever it serves there, has applied the capability set built from the plan it was
  handed, and every process it started inherited exactly that restriction.
\<close>

theorem keeper_restricts_before_spawning:
  assumes "keeper_main H = Inr s"
  shows "\<exists>plan_json plan root caps. kh_env H ''DEVCROFT_CAPABILITY_PLAN'' = Some plan_json
    \<and> kh_plan H plan_json = Inr plan \<and> kh_cwd H = Inr root
    \<and> to_capability_set (kh_nono H) (kh_paths H) plan root = Some (Inr caps) \<and> kh_apply H caps
    \<and> ks_restricted (serve n s) = Some caps \<and> list_all (\<lambda>(_, r). r = Some caps) (ks_spawned (serve n s))"
proof -
  obtain s1 where s1: "self_restrict H (bind_relay H keeper_new) = Inr s1"
    using assms by (auto simp: keeper_main_def result_simps)
  then obtain plan_json plan root caps where plan: "kh_env H ''DEVCROFT_CAPABILITY_PLAN'' = Some plan_json"
      "kh_plan H plan_json = Inr plan" "kh_cwd H = Inr root"
      "to_capability_set (kh_nono H) (kh_paths H) plan root = Some (Inr caps)" "kh_apply H caps"
    and s1_eq: "s1 = (bind_relay H keeper_new)\<lparr>ks_restricted := Some caps\<rparr>"
    by (auto simp: self_restrict_Inr)
  define s2 where "s2 = (if ks_relay s1 \<noteq> None then start_thread ''relay'' s1 else s1)"
  have s: "s = start_from_env H (start_services_if_requested H (start_thread ''shutdown'' (s2\<lparr>ks_blocked := True\<rparr>)))"
    using assms s1 by (auto simp: keeper_main_def result_simps install_shutdown_handler_def s2_def Let_def split: if_splits)
  have "ks_restricted s = Some caps" and "ks_spawned s2 = []"
    unfolding s by (simp_all add: later_steps s2_def s1_eq bind_relay_fields keeper_new_def)
  moreover from this have "list_all (\<lambda>(_, r). r = Some caps) (ks_spawned s)"
    using services_spawned [of H "start_thread ''shutdown'' (s2\<lparr>ks_blocked := True\<rparr>)"]
    unfolding s by (auto simp: later_steps)
  ultimately show ?thesis using plan by (auto simp: serve_fields)
qed

text \<open>
  The shutdown signals are to be blocked in every thread but the one that waits for them. They are,
  exactly when the keeper has no egress relay: the relay's thread is started before the block, so in
  a sandbox with an isolated network a signal can end the process without a shutdown.
\<close>

theorem shutdown_signals_blocked_iff_no_relay:
  assumes "keeper_main H = Inr s"
  shows "list_all snd (ks_threads (serve n s)) \<longleftrightarrow> ks_relay s = None"
proof -
  obtain s1 where s1: "self_restrict H (bind_relay H keeper_new) = Inr s1"
    using assms by (auto simp: keeper_main_def result_simps)
  then have fresh: "ks_threads s1 = []" "ks_blocked s1 = False"
    by (auto simp: self_restrict_Inr bind_relay_fields) (simp_all add: keeper_new_def)
  define s2 where "s2 = (if ks_relay s1 \<noteq> None then start_thread ''relay'' s1 else s1)"
  have s: "s = start_from_env H (start_services_if_requested H (start_thread ''shutdown'' (s2\<lparr>ks_blocked := True\<rparr>)))"
    using assms s1 by (auto simp: keeper_main_def result_simps install_shutdown_handler_def s2_def Let_def split: if_splits)
  have kept: "ks_relay s = ks_relay s1" "ks_blocked s" unfolding s by (simp_all add: later_steps s2_def)
  have "\<exists>rest. ks_threads s = ks_threads s2 @ [(''shutdown'', True)] @ rest \<and> list_all snd rest"
    unfolding s start_from_env_def by (auto simp: later_steps split: option.split)
  moreover have "list_all snd (ks_threads s2) \<longleftrightarrow> ks_relay s1 = None"
    using fresh by (cases "ks_relay s1") (simp_all add: s2_def later_steps)
  moreover have "list_all snd (replicate n (''connection'', True))" by (simp add: list_all_iff)
  ultimately show ?thesis using kept by (auto simp: serve_fields)
qed

text \<open>A keeper of an isolated sandbox.\<close>

definition sample_keeper :: "(cap_call list, unit) keeper_host" where
  "sample_keeper = \<lparr>kh_env = map_of [(''DEVCROFT_PROXY_RELAY_PORT'', ''3128''), (''DEVCROFT_PROXY_SOCKET'', ''/s/proxy.sock''),
       (''DEVCROFT_CAPABILITY_PLAN'', ''plan'')],
     kh_cwd = Inr ''/work/p'', kh_plan = (\<lambda>_. Inr sample_plan), kh_nono = call_log, kh_paths = sample_host,
     kh_apply = (\<lambda>_. True), kh_bind = (\<lambda>_. True), kh_sigmask = True, kh_spawn = (\<lambda>_. Inl ''no''),
     kh_ssh_keys = (\<lambda>_ _. True), kh_now = 0\<rparr>"

lemma sample_keeper_plan: "\<exists>caps. to_capability_set call_log sample_host sample_plan ''/work/p'' = Some (Inr caps)"
proof -
  have "case to_capability_set call_log sample_host sample_plan ''/work/p'' of Some (Inr _) \<Rightarrow> True | _ \<Rightarrow> False"
    by code_simp
  then show ?thesis by (auto split: option.splits sum.splits)
qed

lemma sample_keeper_runs: "\<exists>s. keeper_main sample_keeper = Inr s \<and> ks_relay s \<noteq> None"
proof -
  have "parse_u16 ''3128'' = Some 3128" by (simp add: parse_u16_def parse_unsigned_def is_ascii_digit_def)
  then have "ks_relay (bind_relay sample_keeper keeper_new) = Some (3128, ''/s/proxy.sock'')"
    by (simp add: bind_relay_def sample_keeper_def)
  moreover obtain caps where "to_capability_set call_log sample_host sample_plan ''/work/p'' = Some (Inr caps)"
    using sample_keeper_plan by blast
  then have "self_restrict sample_keeper s = Inr (s\<lparr>ks_restricted := Some caps\<rparr>)" for s
    by (simp add: self_restrict_def sample_keeper_def)
  moreover have "kh_sigmask sample_keeper" by (simp add: sample_keeper_def)
  ultimately show ?thesis by (simp add: keeper_main_def install_shutdown_handler_def later_steps)
qed

theorem keeper_restricts_before_spawning_witness:
  "\<exists>s caps. keeper_main sample_keeper = Inr s \<and> ks_restricted (serve 2 s) = Some caps"
proof -
  obtain s where run: "keeper_main sample_keeper = Inr s" using sample_keeper_runs by blast
  show ?thesis using keeper_restricts_before_spawning [OF run, of 2] run by blast
qed

theorem shutdown_signals_blocked_iff_no_relay_witness:
  "\<exists>s. keeper_main sample_keeper = Inr s \<and> \<not> list_all snd (ks_threads (serve 2 s))"
proof -
  obtain s where run: "keeper_main sample_keeper = Inr s" "ks_relay s \<noteq> None" using sample_keeper_runs by blast
  show ?thesis using shutdown_signals_blocked_iff_no_relay [OF run(1), of 2] run by blast
qed

section \<open>Theorems: shutdown\<close>


lemma keeper_registry:
  assumes "keeper_main H = Inr s" and "\<not> services_requested (kh_env H)"
  shows "ks_registry s = registry_new"
proof -
  obtain s1 where s1: "self_restrict H (bind_relay H keeper_new) = Inr s1"
    using assms by (auto simp: keeper_main_def result_simps)
  then have "ks_registry s1 = registry_new"
    by (auto simp: self_restrict_Inr bind_relay_fields) (simp add: keeper_new_def)
  then show ?thesis
    using assms s1
    by (auto simp: keeper_main_def result_simps install_shutdown_handler_def Let_def later_steps
        start_services_if_requested_def split: if_splits)
qed

text \<open>
  A session started over ssh is in its connection's table and not in the registry, which is all that the
  shutdown looks at: a keeper with ssh sessions and nothing else signals no one when it is told to
  end, and they go on.
\<close>

theorem shutdown_misses_ssh_sessions:
  assumes "keeper_main H = Inr s" and "\<not> services_requested (kh_env H)"
  shows "shutdown (kh_env H) J sv_at (ks_registry s) (ks_registry s) = []
    \<and> (\<exists>ds effects server req. run_events \<lparr>se_shell = None, se_cwd = cwd\<rparr> ds ssh_server_new = (effects, server)
        \<and> SessionStarted ch req pgid \<in> set effects \<and> map ac_pgid (map snd (ss_active server)) = [pgid])"
proof
  show "shutdown (kh_env H) J sv_at (ks_registry s) (ks_registry s) = []"
    using assms keeper_registry [OF assms]
    by (simp add: shutdown_def service_process_groups_def group_signals_def snapshot_def registry_new_def)
  show "\<exists>ds effects server req. run_events \<lparr>se_shell = None, se_cwd = cwd\<rparr> ds ssh_server_new = (effects, server)
        \<and> SessionStarted ch req pgid \<in> set effects \<and> map ac_pgid (map snd (ss_active server)) = [pgid]"
    by (intro exI [of _ "[(sample_ssh_backend pgid, ch, ExecRequest ''sleep 100'')]"])
      (simp add: handler_defs sample_ssh_backend_def ssh_server_new_def)
qed

theorem shutdown_misses_ssh_sessions_witness:
  "\<exists>s. keeper_main sample_keeper = Inr s
     \<and> shutdown (kh_env sample_keeper) J sv_at (ks_registry s) (ks_registry s) = []"
proof -
  obtain s where run: "keeper_main sample_keeper = Inr s" using sample_keeper_runs by blast
  have "\<not> services_requested (kh_env sample_keeper)" by (simp add: services_requested_def sample_keeper_def)
  from shutdown_misses_ssh_sessions [OF run this] run show ?thesis by blast
qed

text \<open>
  The groups signalled for services are what the supervisor says, cut to 32 bits: every reported pid above
  zero whose value fits is signalled as a group, and a supervisor that reports pid 1 has the keeper
  call \<open>kill(-1)\<close>, which is every process it may signal.
\<close>

theorem shutdown_service_groups:
  "service_process_groups getenv J sv_at = (t, groups) \<and> services_requested getenv
     \<and> query J (sv_at (socket_path (services_root getenv) (services_name getenv))) = (t, Inr states)
   \<longrightarrow> (\<forall>st pid. st \<in> set states \<and> ss_pid st = Some pid \<and> 0 < pid \<and> pid < 2 ^ 31 \<longrightarrow>
          (t, - pid, 15) \<in> set (shutdown getenv J sv_at reg later)
          \<and> (t + DEFAULT_GRACE_PERIOD, - pid, 9) \<in> set (shutdown getenv J sv_at reg later))"
proof (intro impI allI)
  fix st pid
  assume q: "service_process_groups getenv J sv_at = (t, groups) \<and> services_requested getenv
     \<and> query J (sv_at (socket_path (services_root getenv) (services_name getenv))) = (t, Inr states)"
    and st: "st \<in> set states \<and> ss_pid st = Some pid \<and> 0 < pid \<and> pid < 2 ^ 31"
  have "sint (- word_of_int pid :: i32) = sint (word_of_int (- pid) :: i32)" by simp
  also have "\<dots> = - pid" using st unfolding sint_sbintrunc' by (simp add: signed_take_bit_int_eq_self)
  finally have "sint (- word_of_int pid :: i32) = - pid" .
  moreover have "word_of_int pid \<in> set groups"
    using q st by (force simp: service_process_groups_def List.map_filter_def)
  ultimately have "- pid \<in> (\<lambda>g. sint (- g)) ` set groups" by force
  then show "(t, - pid, 15) \<in> set (shutdown getenv J sv_at reg later)
          \<and> (t + DEFAULT_GRACE_PERIOD, - pid, 9) \<in> set (shutdown getenv J sv_at reg later)"
    using q by (auto simp: shutdown_def group_signals_def)
qed

end
