(* ===== verification/Devbox.thy ===== *)
theory Devbox
  imports Services
begin

text \<open>
  The devbox provider (\<open>src/provider/devbox.rs\<close>): the tolerant reading of \<open>devbox.json\<close>, the check that
  every declared package is locked, and a resolution with its effect on the lockfile. \<open>serde_json\<close>,
  the processes run and what they do to the lockfile are parameters.
\<close>

section \<open>Comments and trailing commas\<close>

abbreviation dquote :: char where "dquote \<equiv> CHR 0x22"
abbreviation backslash :: char where "backslash \<equiv> CHR 0x5C"

text \<open>Where the loop of \<open>strip_comments\<close> is: outside strings, in a string (after a backslash or not), in a
  line comment, in a block comment after a character.\<close>

datatype scan = InCode | InString bool | InLine | InBlock char

fun strip_from :: "scan \<Rightarrow> string \<Rightarrow> string" where
  "strip_from m [] = []"
| "strip_from (InString escaped) (c # cs) =
     c # strip_from (if escaped then InString False else if c = backslash then InString True
       else if c = dquote then InCode else InString False) cs"
| "strip_from InLine (c # cs) = (if c = newline then c # strip_from InCode cs else strip_from InLine cs)"
| "strip_from (InBlock prev) (c # cs) =
     (if prev = CHR ''*'' \<and> c = CHR ''/'' then strip_from InCode cs
      else if c = newline then c # strip_from (InBlock c) cs
      else strip_from (InBlock c) cs)"
| "strip_from InCode (c # cs) =
     (if c = dquote then c # strip_from (InString False) cs
      else if c = CHR ''/'' \<and> starts_with ''/'' cs then strip_from InLine cs
      else if c = CHR ''/'' \<and> starts_with ''*'' cs then strip_from (InBlock (CHR 0x00)) (drop 1 cs)
      else c # strip_from InCode cs)"

definition strip_comments :: "string \<Rightarrow> string" where
  "strip_comments text = strip_from InCode text"

text \<open>The first flag is \<open>in_string\<close>, the second \<open>escaped\<close>.\<close>

fun strip_commas_from :: "bool \<Rightarrow> bool \<Rightarrow> string \<Rightarrow> string" where
  "strip_commas_from in_string escaped [] = []"
| "strip_commas_from True escaped (c # cs) =
     c # (if escaped then strip_commas_from True False cs
          else if c = backslash then strip_commas_from True True cs
          else strip_commas_from (c \<noteq> dquote) False cs)"
| "strip_commas_from False escaped (c # cs) =
     (if c = dquote then c # strip_commas_from True escaped cs
      else if c = CHR '','' \<and> (starts_with ''}'' (str_trim_start cs) \<or> starts_with '']'' (str_trim_start cs))
        then strip_commas_from False escaped cs
      else c # strip_commas_from False escaped cs)"

definition strip_trailing_commas :: "string \<Rightarrow> string" where
  "strip_trailing_commas text = strip_commas_from False False text"

definition strip_jsonc :: "string \<Rightarrow> string" where
  "strip_jsonc text = strip_trailing_commas (strip_comments text)"

section \<open>Packages and the lockfile\<close>

text \<open>The project's two files as bytes, and \<open>serde_json::from_str\<close> with its error text.\<close>

record devbox_host =
  dh_files :: host_fs
  dh_devbox :: "string option"
  dh_nix :: "string option"
  dh_nix_eval :: bool
  dh_parse :: "string \<Rightarrow> string + json"
  dh_home :: "string option"

definition as_object :: "json \<Rightarrow> (string \<times> json) list option" where
  "as_object v = (case v of JObject kvs \<Rightarrow> Some kvs | _ \<Rightarrow> None)"

definition package_key :: "string \<Rightarrow> json \<Rightarrow> string" where
  "package_key name v =
     (case (case v of JString s \<Rightarrow> Some s | JObject table \<Rightarrow> Option.bind (map_of table ''version'') as_str | _ \<Rightarrow> None) of
        Some version \<Rightarrow> name @ ''@'' @ version
      | None \<Rightarrow> name)"

text \<open>\<open>read_to_string\<close> fails on bytes that are not UTF-8.\<close>

definition parse_devbox_json :: "devbox_host \<Rightarrow> string \<Rightarrow> provider_error + json" where
  "parse_devbox_json H path =
     rbind (read_definition (dh_files H) path) (\<lambda>bs.
     let text = map (\<lambda>b. char_of (unat b)) bs in
     if \<not> utf8_valid text then
       Inl (ResolutionFailed (''reading '' @ path @ '': stream did not contain valid UTF-8''))
     else map_err (\<lambda>e. ResolutionFailed (''parsing '' @ path @ '': '' @ e)) (dh_parse H (strip_jsonc text)))"

definition declared_package_keys :: "devbox_host \<Rightarrow> string \<Rightarrow> provider_error + string list" where
  "declared_package_keys H project =
     (let path = path_join project ''devbox.json'' in
      rbind (parse_devbox_json H path) (\<lambda>parsed.
      case json_get ''packages'' parsed of
        None \<Rightarrow> Inr []
      | Some (JArray items) \<Rightarrow>
          try_fold (\<lambda>keys v. case as_str v of
             Some s \<Rightarrow> Inr (keys @ [s])
           | None \<Rightarrow> Inl (ResolutionFailed (path @ [CHR 0x27] @ ''s `packages` array has a non-string entry'')))
            [] items
      | Some (JObject m) \<Rightarrow> Inr (map (\<lambda>(name, v). package_key name v) m)
      | Some _ \<Rightarrow> Inl (ResolutionFailed (path @ [CHR 0x27] @ ''s `packages` field is neither a list nor a table''))))"

definition locked_keys :: "json \<Rightarrow> string list" where
  "locked_keys parsed = (case Option.bind (json_get ''packages'' parsed) as_object of
      Some m \<Rightarrow> map fst m | None \<Rightarrow> [])"

definition ensure_everything_locked :: "devbox_host \<Rightarrow> string \<Rightarrow> provider_error + unit" where
  "ensure_everything_locked H project =
     rbind (declared_package_keys H project) (\<lambda>declared.
     if declared = [] then Inr ()
     else let lock_path = path_join project ''devbox.lock'' in
       if \<not> hf_is_file (dh_files H) lock_path then Inl (MissingLock ''devbox'' ''devbox install'')
       else rbind (parse_devbox_json H lock_path) (\<lambda>parsed.
         case find (\<lambda>k. k \<notin> set (locked_keys parsed)) declared of
           None \<Rightarrow> Inr ()
         | Some key \<Rightarrow> Inl (ResolutionFailed (''package `'' @ key @
             ''` is declared in devbox.json but has no resolution in devbox.lock; run `devbox install`''))))"

definition ensure_nix_usable :: "devbox_host \<Rightarrow> provider_error + unit" where
  "ensure_nix_usable H = (case dh_nix H of
      None \<Rightarrow> Inl (MissingBinary ''nix'' ''devcroft doctor'')
    | Some _ \<Rightarrow> if dh_nix_eval H then Inr ()
        else Inl (ResolutionFailed (''devbox requires a usable Nix, but `nix eval` failed on this host; devbox is a ''
          @ ''frontend over Nix and cannot resolve packages without it (see `devcroft doctor`)'')))"

section \<open>Resolution\<close>

text \<open>The two processes of a capture. Either may change the lockfile, whose contents are passed
  through; \<open>None\<close> is an absent file. A process that cannot be started gives the error text.\<close>

record devbox_tools =
  dt_shellenv :: "bytes option \<Rightarrow> (string + process_output) \<times> bytes option"
  dt_eval :: "string \<Rightarrow> bytes option \<Rightarrow> (string + process_output) \<times> bytes option"

definition is_ascii_whitespace :: "char \<Rightarrow> bool" where
  "is_ascii_whitespace c \<longleftrightarrow> byte c \<in> {32, 9, 10, 12, 13}"

definition devbox_capture :: "devbox_tools \<Rightarrow> bytes option \<Rightarrow>
    (provider_error + (string, string) btmap) \<times> bytes option" where
  "devbox_capture T lock = (case dt_shellenv T lock of
      (Inl e, lock) \<Rightarrow> (Inl (ResolutionFailed (''running `devbox shellenv`: '' @ e)), lock)
    | (Inr out, lock) \<Rightarrow> (case po_failed out of
        Some status \<Rightarrow> (Inl (ResolutionFailed (''`devbox shellenv --pure` exited with '' @ status @ '': ''
            @ str_trim (from_utf8_lossy (po_stderr out)))), lock)
      | None \<Rightarrow>
          if list_all is_ascii_whitespace (po_stdout out) then
            (Inl (ResolutionFailed (''`devbox shellenv --pure` succeeded but printed no environment; devcroft cannot ''
               @ ''tell an empty activation from a broken one, so it refuses rather than building a ''
               @ ''sandbox with none of the project's tooling in it'')), lock)
          else (case dt_eval T (po_stdout out) lock of
              (Inl e, lock) \<Rightarrow> (Inl (ResolutionFailed (''evaluating `devbox shellenv` output: '' @ e)), lock)
            | (Inr ev, lock) \<Rightarrow> (case po_failed ev of
                Some status \<Rightarrow> (Inl (ResolutionFailed (''evaluating `devbox shellenv --pure` output exited with ''
                    @ status @ '': '' @ str_trim (from_utf8_lossy (po_stderr ev)))), lock)
              | None \<Rightarrow> (Inr (parse_env_dump from_utf8_lossy (po_stdout ev)), lock)))))"

text \<open>\<open>restored\<close> is the error of writing the old contents back or of removing the new file, if that fails, with
  what the file then holds.\<close>

definition restore_lock_if_capture_resolved :: "string \<Rightarrow> (string \<times> bytes option) option \<Rightarrow> bytes option \<Rightarrow> bytes option \<Rightarrow>
    (provider_error + unit) \<times> bytes option" where
  "restore_lock_if_capture_resolved lock_path restored before lock =
     (if lock = before then (Inr (), lock)
      else case restored of
        Some (e, left) \<Rightarrow> (Inl (ResolutionFailed (''devbox resolved during `up` and rewrote '' @ lock_path
          @ '', and restoring it failed: '' @ e)), left)
      | None \<Rightarrow> (Inl (ResolutionFailed (''devbox resolved packages while capturing the environment and rewrote ''
          @ lock_path @ '' (devcroft restored it); provisioning must not resolve versions or contact a ''
          @ ''package index '' @ em_dash @ '' run `devbox install` and commit the result'')), before))"

definition devbox_checks :: "devbox_host \<Rightarrow> string \<Rightarrow> provider_error + (string, string) btmap" where
  "devbox_checks H project =
     rbind (ensure_project_present (dh_files H) project) (\<lambda>_.
     rbind (ok_or (MissingBinary ''devbox'' ''devcroft doctor'') (dh_devbox H)) (\<lambda>_.
     rbind (ensure_nix_usable H) (\<lambda>_.
     rbind (ensure_everything_locked H project) (\<lambda>_.
     canonical_base_env (dh_home H)))))"

definition read_lock :: "devbox_host \<Rightarrow> string \<Rightarrow> bytes option" where
  "read_lock H project = (case hf_read (dh_files H) (path_join project ''devbox.lock'') of
      Inr bs \<Rightarrow> Some bs | Inl _ \<Rightarrow> None)"

definition devbox_resolve :: "devbox_host \<Rightarrow> devbox_tools \<Rightarrow> (string \<times> bytes option) option \<Rightarrow> string \<Rightarrow>
    (provider_error + resolution) \<times> bytes option" where
  "devbox_resolve H T restored project =
     (let before = read_lock H project in
      case devbox_checks H project of
        Inl e \<Rightarrow> (Inl e, before)
      | Inr baseline \<Rightarrow> (case devbox_capture T before of
          (Inl e, lock) \<Rightarrow> (Inl e, lock)
        | (Inr activated, lock) \<Rightarrow>
            (case restore_lock_if_capture_resolved (path_join project ''devbox.lock'') restored before lock of
               (Inl e, lock) \<Rightarrow> (Inl e, lock)
             | (Inr _, lock) \<Rightarrow>
                 (Inr \<lparr>res_env = changed_env baseline activated, res_unset = unset_env baseline activated,
                    res_read_only_grants = store_grants activated, res_activation_script = None,
                    res_services = Unsupported, res_ran_activation_hook = False\<rparr>, lock))))"

section \<open>Lemmas: what is stripped\<close>

text \<open>JSON with comments as a sequence of pieces: characters outside strings, string literals, comments.\<close>

datatype jsonc = Plain char | Lit string | LineComment string | BlockComment string

fun source_of :: "jsonc \<Rightarrow> string" where
  "source_of (Plain c) = [c]"
| "source_of (Lit s) = dquote # s @ [dquote]"
| "source_of (LineComment s) = ''//'' @ s @ [newline]"
| "source_of (BlockComment s) = ''/*'' @ s @ ''*/''"

abbreviation sources :: "jsonc list \<Rightarrow> string" where
  "sources gs \<equiv> concat (map source_of gs)"

fun literal_body :: "bool \<Rightarrow> string \<Rightarrow> bool" where
  "literal_body escaped [] = (\<not> escaped)"
| "literal_body escaped (c # cs) =
     (if escaped then literal_body False cs else if c = backslash then literal_body True cs
      else c \<noteq> dquote \<and> literal_body False cs)"

fun block_body :: "char \<Rightarrow> string \<Rightarrow> bool" where
  "block_body prev [] = True"
| "block_body prev (c # cs) = (\<not> (prev = CHR ''*'' \<and> c = CHR ''/'') \<and> block_body c cs)"

fun piece_ok :: "jsonc \<Rightarrow> bool" where
  "piece_ok (Plain c) = (c \<noteq> dquote \<and> byte c < 128)"
| "piece_ok (Lit s) = literal_body False s"
| "piece_ok (LineComment s) = (newline \<notin> set s)"
| "piece_ok (BlockComment s) = block_body (CHR 0x00) s"

text \<open>A slash outside strings does not open a comment.\<close>

fun jsonc_ok :: "jsonc list \<Rightarrow> bool" where
  "jsonc_ok [] = True"
| "jsonc_ok (g # gs) = (piece_ok g \<and> jsonc_ok gs
     \<and> (g = Plain CHR ''/'' \<longrightarrow> \<not> starts_with ''/'' (sources gs) \<and> \<not> starts_with ''*'' (sources gs)))"

fun uncomment :: "jsonc \<Rightarrow> jsonc list" where
  "uncomment (LineComment s) = [Plain newline]"
| "uncomment (BlockComment s) = map Plain (filter (\<lambda>c. c = newline) s)"
| "uncomment g = [g]"

definition closes_next :: "jsonc list \<Rightarrow> bool" where
  "closes_next gs = (case dropWhile (\<lambda>g. case g of Plain c \<Rightarrow> is_white [c] | _ \<Rightarrow> False) gs of
      Plain c # _ \<Rightarrow> c = CHR ''}'' \<or> c = CHR '']''
    | _ \<Rightarrow> False)"

fun drop_commas :: "jsonc list \<Rightarrow> jsonc list" where
  "drop_commas [] = []"
| "drop_commas (g # gs) = (if g = Plain CHR '','' \<and> closes_next gs then drop_commas gs else g # drop_commas gs)"

lemma strip_literal:
  "literal_body e s \<Longrightarrow> strip_from (InString e) (s @ dquote # r) = s @ dquote # strip_from InCode r"
  by (induction e s rule: literal_body.induct) (auto split: if_splits)

lemma strip_line: "newline \<notin> set s \<Longrightarrow> strip_from InLine (s @ newline # r) = newline # strip_from InCode r"
  by (induction s) auto

lemma strip_block:
  "block_body p s \<Longrightarrow> strip_from (InBlock p) (s @ ''*/'' @ r) = filter (\<lambda>c. c = newline) s @ strip_from InCode r"
  by (induction p s rule: block_body.induct) (auto simp: newline_def)

lemma sources_map_Plain [simp]: "concat (map (source_of \<circ> Plain) s) = s"
  by (induction s) simp_all

lemma strip_comments_pieces:
  "jsonc_ok gs \<Longrightarrow> strip_from InCode (sources gs) = sources (concat (map uncomment gs))"
proof (induction gs)
  case (Cons g gs)
  then show ?case
  proof (cases g)
    case (Lit s)
    then show ?thesis using Cons strip_literal [of False s "sources gs"] by simp
  next
    case (LineComment s)
    then show ?thesis
      using Cons strip_line [of s "sources gs"] by (simp add: starts_with_def newline_def)
  next
    case (BlockComment s)
    then show ?thesis
      using Cons strip_block [of "CHR 0x00" s "sources gs"] by (simp add: starts_with_def)
  qed auto
qed simp

text \<open>Without comments: the commas.\<close>

definition plain_pieces :: "jsonc list \<Rightarrow> bool" where
  "plain_pieces gs \<longleftrightarrow> list_all (\<lambda>g. piece_ok g \<and> (case g of Plain _ \<Rightarrow> True | Lit _ \<Rightarrow> True | _ \<Rightarrow> False)) gs"

lemma plain_pieces_uncomment: "jsonc_ok gs \<Longrightarrow> plain_pieces (concat (map uncomment gs))"
proof (induction gs)
  case (Cons g gs)
  then show ?case by (cases g) (auto simp: plain_pieces_def list_all_iff newline_def)
qed (simp add: plain_pieces_def)

lemma chars_ascii_head:
  assumes "byte c < 128" "s = [] \<or> byte (hd s) < 128"
  shows "chars (c # s) = [c] # chars s"
  using assms by (cases s) (simp_all add: is_continuation_def)

lemma trim_pieces:
  assumes "plain_pieces gs"
  shows "str_trim_start (sources gs) = sources (dropWhile (\<lambda>g. case g of Plain c \<Rightarrow> is_white [c] | _ \<Rightarrow> False) gs)"
  using assms
proof (induction gs)
  case Nil
  then show ?case by (simp add: str_trim_start_def)
next
  case (Cons g gs)
  have head: "sources gs = [] \<or> byte (hd (sources gs)) < 128"
    using Cons.prems by (cases gs; cases "hd gs") (auto simp: plain_pieces_def)
  consider c where "g = Plain c" "byte c < 128" | s where "g = Lit s"
    using Cons.prems by (cases g) (auto simp: plain_pieces_def)
  then show ?case
  proof cases
    case 1
    then have chars: "chars (sources (g # gs)) = [c] # chars (sources gs)" using chars_ascii_head [OF 1(2) head] by simp
    then show ?thesis
      using Cons 1 by (simp add: str_trim_start_def plain_pieces_def concat_chars)
  next
    case 2
    have "\<not> is_white (dquote # takeWhile is_continuation t)" for t
      by (cases "takeWhile is_continuation t") (auto simp: is_white_def split: list.splits)
    then have "str_trim_start (sources (g # gs)) = sources (g # gs)"
      using concat_chars [of "sources (g # gs)"] 2 by (simp add: str_trim_start_def)
    then show ?thesis using 2 by simp
  qed
qed

lemma closes_next_text:
  assumes "plain_pieces gs"
  shows "starts_with ''}'' (str_trim_start (sources gs)) \<or> starts_with '']'' (str_trim_start (sources gs)) \<longleftrightarrow> closes_next gs"
proof -
  define ds where "ds = dropWhile (\<lambda>g. case g of Plain c \<Rightarrow> is_white [c] | _ \<Rightarrow> False) gs"
  have "list_all (\<lambda>g. case g of Plain _ \<Rightarrow> True | Lit _ \<Rightarrow> True | _ \<Rightarrow> False) ds"
    using assms set_dropWhileD unfolding ds_def plain_pieces_def list_all_iff by fast
  then have "starts_with ''}'' (sources ds) \<or> starts_with '']'' (sources ds) \<longleftrightarrow>
      (case ds of Plain c # _ \<Rightarrow> c = CHR ''}'' \<or> c = CHR '']'' | _ \<Rightarrow> False)"
    by (cases ds; cases "hd ds") (auto simp: starts_with_def)
  then show ?thesis unfolding trim_pieces [OF assms] closes_next_def ds_def .
qed

lemma strip_commas_literal:
  "literal_body e s \<Longrightarrow> strip_commas_from True e (s @ dquote # r) = s @ dquote # strip_commas_from False False r"
  by (induction e s rule: literal_body.induct) (auto split: if_splits)

lemma strip_commas_pieces:
  "plain_pieces gs \<Longrightarrow> strip_commas_from False False (sources gs) = sources (drop_commas gs)"
proof (induction gs)
  case (Cons g gs)
  then have rest: "plain_pieces gs" by (simp add: plain_pieces_def)
  from Cons.prems consider c where "g = Plain c" "c \<noteq> dquote" | s where "g = Lit s" "literal_body False s"
    by (cases g) (auto simp: plain_pieces_def)
  then show ?case
  proof cases
    case 1
    then show ?thesis using Cons.IH [OF rest] closes_next_text [OF rest] by simp
  next
    case 2
    then show ?thesis using Cons.IH [OF rest] strip_commas_literal [of False s "sources gs"] by simp
  qed
qed simp

text \<open>
  C30: reading JSON with comments. On any text made of string literals, comments and other characters
  (ASCII outside strings and comments), what is handed to the JSON parser is the text with every
  comment replaced by the line ends in it and every comma before a closing bracket left out, and
  nothing inside a string literal changed, whatever it looks like.
\<close>

theorem strip_jsonc_pieces:
  assumes "jsonc_ok gs"
  shows "strip_jsonc (sources gs) = sources (drop_commas (concat (map uncomment gs)))"
  using strip_comments_pieces [OF assms] strip_commas_pieces [OF plain_pieces_uncomment [OF assms]]
  by (simp add: strip_jsonc_def strip_comments_def strip_trailing_commas_def)

definition sample_jsonc :: "jsonc list" where
  "sample_jsonc = [Plain CHR ''['', Lit ''a//b,]'', Plain CHR '','', LineComment '' x'', BlockComment ''*'', Plain CHR '']'']"

theorem strip_jsonc_pieces_witness:
  "strip_jsonc (sources sample_jsonc) = ''['' @ [dquote] @ ''a//b,]'' @ [dquote, newline] @ '']''"
proof -
  have "jsonc_ok sample_jsonc" by code_simp
  moreover have "sources (drop_commas (concat (map uncomment sample_jsonc)))
      = ''['' @ [dquote] @ ''a//b,]'' @ [dquote, newline] @ '']''"
    by code_simp
  ultimately show ?thesis using strip_jsonc_pieces by metis
qed

section \<open>Lemmas: the lockfile\<close>

lemma find_None_subset: "find (\<lambda>k. k \<notin> A) ks = None \<longleftrightarrow> set ks \<subseteq> A"
  by (auto simp: find_None_iff)

lemma restore_lock_Inr:
  "restore_lock_if_capture_resolved p restored before lock = (Inr u, lock') \<longleftrightarrow> lock = before \<and> lock' = before"
  by (auto simp: restore_lock_if_capture_resolved_def split: option.splits)

lemma restore_lock_restores:
  "snd (restore_lock_if_capture_resolved p None before lock) = before"
  by (simp add: restore_lock_if_capture_resolved_def)

text \<open>
  Nothing is resolved by \<open>up\<close>: the check passes exactly when the packages can be read off
  \<open>devbox.json\<close> and there are none, or the lockfile is there, can be read and holds an entry for
  each of them; the first declared package without an entry is the one reported.
\<close>

theorem devbox_locked_iff:
  "ensure_everything_locked H project = Inr () \<longleftrightarrow>
     (\<exists>declared. declared_package_keys H project = Inr declared
        \<and> (declared = [] \<or> hf_is_file (dh_files H) (path_join project ''devbox.lock'')
            \<and> (\<exists>parsed. parse_devbox_json H (path_join project ''devbox.lock'') = Inr parsed
                 \<and> set declared \<subseteq> set (locked_keys parsed))))"
proof (cases "declared_package_keys H project")
  case (Inr declared)
  let ?lock = "path_join project ''devbox.lock''"
  show ?thesis
  proof (cases "parse_devbox_json H ?lock")
    case (Inr parsed)
    with \<open>declared_package_keys H project = Inr declared\<close> show ?thesis
      using find_None_subset [of "set (locked_keys parsed)" declared]
      by (cases "find (\<lambda>k. k \<notin> set (locked_keys parsed)) declared")
        (simp_all add: ensure_everything_locked_def Let_def)
  qed (use Inr in \<open>simp add: ensure_everything_locked_def Let_def\<close>)
qed (simp add: ensure_everything_locked_def)

lemma devbox_resolve_captured:
  assumes "devbox_checks H project = Inr base" "devbox_capture T (read_lock H project) = (Inr activated, lock)"
  shows "snd (devbox_resolve H T None project) = read_lock H project"
    and "lock \<noteq> read_lock H project \<Longrightarrow> \<exists>e. fst (devbox_resolve H T None project) = Inl e"
  using assms
  by (simp_all add: devbox_resolve_def Let_def restore_lock_if_capture_resolved_def)


definition sample_devbox :: devbox_host where
  "sample_devbox = \<lparr>dh_files = \<lparr>hf_is_file = (\<lambda>p. p = ''/p/devbox.json''), hf_is_dir = (\<lambda>_. False),
       hf_read = (\<lambda>p. if p = ''/p/devbox.json'' then Inr [] else Inl ''no such file'')\<rparr>,
     dh_devbox = Some ''/bin/devbox'', dh_nix = Some ''/bin/nix'', dh_nix_eval = True,
     dh_parse = (\<lambda>_. Inr (JObject [])), dh_home = Some ''/h''\<rparr>"

text \<open>The capture writes a lockfile; printing the environment succeeds, evaluating it need not.\<close>

definition sample_tools :: "string option \<Rightarrow> devbox_tools" where
  "sample_tools failed = \<lparr>
     dt_shellenv = (\<lambda>_. (Inr \<lparr>po_failed = None, po_stdout = ''export A=1'', po_stderr = []\<rparr>, Some [1])),
     dt_eval = (\<lambda>_ lock. (Inr \<lparr>po_failed = failed, po_stdout = ''A=1'', po_stderr = ''unbound''\<rparr>, lock))\<rparr>"

lemma sample_devbox_runs:
  "read_lock sample_devbox ''/p'' = None" "\<exists>base. devbox_checks sample_devbox ''/p'' = Inr base"
  "devbox_capture (sample_tools (Some s)) None =
     (Inl (ResolutionFailed (''evaluating `devbox shellenv --pure` output exited with '' @ s @ '': unbound'')), Some [1])"
  "\<exists>activated. devbox_capture (sample_tools None) None = (Inr activated, Some [1])"
  subgoal by (simp add: read_lock_def sample_devbox_def path_join_def starts_with_def)
  subgoal
    by (simp add: devbox_checks_def sample_devbox_def ensure_project_present_def path_join_def starts_with_def
        ensure_nix_usable_def ensure_everything_locked_def declared_package_keys_def parse_devbox_json_def
        read_definition_def json_get_def canonical_base_env_def ok_or_def map_err_def Let_def strip_jsonc_def)
  subgoal by (simp add: devbox_capture_def sample_tools_def) code_simp
  subgoal by (simp add: devbox_capture_def sample_tools_def) code_simp
  done


text \<open>
  A capture that fails after it changed the lockfile: the error is returned before the comparison, and
  the new contents stay.
\<close>

theorem devbox_failed_capture_keeps_new_lock:
  "devbox_resolve sample_devbox (sample_tools (Some status)) None ''/p'' =
     (Inl (ResolutionFailed (''evaluating `devbox shellenv --pure` output exited with '' @ status @ '': unbound'')), Some [1])
   \<and> read_lock sample_devbox ''/p'' = None"
  using sample_devbox_runs by (auto simp: devbox_resolve_def Let_def)

end
