(* ===== verification/NixFlake.thy ===== *)
theory NixFlake
  imports Services
begin

text \<open>
  The nix provider (\<open>src/provider/nix.rs\<close>): the preconditions of a resolution in their order, the reading
  of nix's failures, and the environment taken from \<open>nix print-dev-env --json\<close>. The two runs of nix and
  serde's deserialiser are parameters.
\<close>

section \<open>Model\<close>

record nix_variable =
  nv_kind :: string
  nv_value :: json

record nix_host =
  nh_files :: host_fs
  nh_nix :: "string option"
  nh_home :: "string option"
  nh_metadata :: "string + process_output"
  nh_dev_env :: "(string, string) btmap \<Rightarrow> string + process_output"
  nh_deserialize :: "string \<Rightarrow> string + (string, nix_variable) btmap"

definition mentions :: "string \<Rightarrow> string \<Rightarrow> bool" where
  "mentions s needle = (find_sub needle s \<noteq> None)"

definition classify_metadata_failure :: "string \<Rightarrow> provider_error" where
  "classify_metadata_failure err =
     (if mentions err ''experimental Nix feature'' \<or> mentions err ''is disabled'' then
        ResolutionFailed (''nix flakes are not enabled; add `experimental-features = nix-command flakes` ''
          @ ''to nix.conf (see `devcroft doctor`): '' @ str_trim err)
      else if mentions err ''cannot connect to daemon'' \<or> mentions err ''daemon-socket'' then
        ResolutionFailed (''cannot reach the nix daemon: '' @ str_trim err)
      else if mentions err ''lock file'' \<and>
          (mentions err ''out of date'' \<or> mentions err ''does not match'' \<or> mentions err ''requires'') then
        MissingLock ''nix'' ''nix flake lock''
      else ResolutionFailed (''`nix flake metadata` failed: '' @ str_trim err))"

definition probe_flake_evaluable :: "nix_host \<Rightarrow> provider_error + unit" where
  "probe_flake_evaluable H =
     rbind (map_err (\<lambda>e. ResolutionFailed (''running `nix flake metadata`: '' @ e)) (nh_metadata H)) (\<lambda>out.
     if po_failed out = None then Inr ()
     else Inl (classify_metadata_failure (from_utf8_lossy (po_stderr out))))"

definition exported :: "string \<times> nix_variable \<Rightarrow> (string \<times> string) option" where
  "exported kv = (case kv of (k, v) \<Rightarrow>
     if nv_kind v = ''exported'' then (case nv_value v of JString s \<Rightarrow> Some (k, s) | _ \<Rightarrow> None) else None)"

definition parse_dev_env_json :: "nix_host \<Rightarrow> string \<Rightarrow> provider_error + (string, string) btmap" where
  "parse_dev_env_json H raw =
     rbind (map_err (\<lambda>e. ResolutionFailed (''parsing `nix print-dev-env --json` output: '' @ e)) (nh_deserialize H raw))
       (\<lambda>variables. Inr (bt_extend [] (List.map_filter exported variables)))"

definition nix_capture :: "nix_host \<Rightarrow> (string, string) btmap \<Rightarrow> provider_error + (string, string) btmap" where
  "nix_capture H base =
     rbind (map_err (\<lambda>e. ResolutionFailed (''running `nix print-dev-env`: '' @ e)) (nh_dev_env H base)) (\<lambda>out.
     case po_failed out of
       Some status \<Rightarrow> Inl (ResolutionFailed (''`nix print-dev-env` exited with '' @ status @ '': ''
         @ from_utf8_lossy (po_stderr out)))
     | None \<Rightarrow> parse_dev_env_json H (po_stdout out))"

definition nix_resolve :: "nix_host \<Rightarrow> string \<Rightarrow> provider_error + resolution" where
  "nix_resolve H project =
     rbind (ensure_flake_present (nh_files H) project) (\<lambda>_.
     rbind (ok_or (MissingBinary ''nix'' ''devcroft doctor'') (nh_nix H)) (\<lambda>_.
     rbind (ensure_lock_present (nh_files H) project) (\<lambda>_.
     rbind (probe_flake_evaluable H) (\<lambda>_.
     rbind (canonical_base_env (nh_home H)) (\<lambda>base.
     rbind (nix_capture H base) (\<lambda>activated.
     Inr \<lparr>res_env = changed_env base activated, res_unset = unset_env base activated,
       res_read_only_grants = store_grants activated, res_activation_script = None,
       res_services = Unsupported, res_ran_activation_hook = False\<rparr>))))))"

section \<open>Lemmas\<close>

lemma map_of_exported:
  assumes "distinct (map fst vs)"
  shows "map_of (rev (List.map_filter exported vs)) k = Some s \<longleftrightarrow>
    (\<exists>v. map_of vs k = Some v \<and> nv_kind v = ''exported'' \<and> nv_value v = JString s)"
proof -
  have "distinct (map fst (List.map_filter exported vs))"
    using assms
  proof (induction vs)
    case (Cons kv vs)
    have "fst p = fst kv" if "exported kv = Some p" for p
      using that by (auto simp: exported_def split: prod.splits if_splits json.splits)
    moreover have "set (map fst (List.map_filter exported vs)) \<subseteq> set (map fst vs)"
      by (force simp: List.map_filter_def exported_def split: if_splits json.splits)
    ultimately show ?case using Cons by (auto simp: List.map_filter_simps split: option.splits)
  qed (simp add: List.map_filter_simps)
  then have "map_of (rev (List.map_filter exported vs)) k = Some s \<longleftrightarrow> (k, s) \<in> set (List.map_filter exported vs)"
    by (simp add: rev_map [symmetric])
  also have "\<dots> \<longleftrightarrow> (\<exists>v. (k, v) \<in> set vs \<and> nv_kind v = ''exported'' \<and> nv_value v = JString s)"
    by (force simp: List.map_filter_def exported_def split: if_splits json.splits)
  finally show ?thesis using assms by simp
qed

text \<open>
  The environment of a flake's shell is exactly its exported string variables: every other kind of entry,
  an array or a shell variable, is left out, and so is nothing else.
\<close>

theorem nix_env_is_exported_strings:
  assumes "nh_deserialize H raw = Inr vs" and "bt_wf vs"
  shows "\<exists>env. parse_dev_env_json H raw = Inr env \<and> bt_wf env
    \<and> (\<forall>k s. bt_get env k = Some s \<longleftrightarrow>
        (\<exists>v. bt_get vs k = Some v \<and> nv_kind v = ''exported'' \<and> nv_value v = JString s))"
proof -
  have "distinct (map fst vs)"
    using assms(2) by (rule bt_wf_distinct)
  then show ?thesis
    using assms map_of_exported [of vs] bt_get_extend [of "[]" "List.map_filter exported vs"]
      bt_extend_wf [of "[]" "List.map_filter exported vs"]
    by (simp add: parse_dev_env_json_def map_err_def bt_wf_def)
qed

theorem nix_env_is_exported_strings_witness:
  "\<exists>env. parse_dev_env_json (\<lparr>nh_files = undefined, nh_nix = None, nh_home = None, nh_metadata = Inl [],
        nh_dev_env = (\<lambda>_. Inl []), nh_deserialize = (\<lambda>_. Inr [(''A'', \<lparr>nv_kind = ''exported'', nv_value = JString ''1''\<rparr>),
          (''B'', \<lparr>nv_kind = ''var'', nv_value = JString ''2''\<rparr>)])\<rparr>) [] = Inr env
     \<and> bt_get env ''A'' = Some ''1'' \<and> bt_get env ''B'' = None"
proof -
  let ?vs = "[(''A'', \<lparr>nv_kind = ''exported'', nv_value = JString ''1''\<rparr>), (''B'', \<lparr>nv_kind = ''var'', nv_value = JString ''2''\<rparr>)]"
  let ?H = "\<lparr>nh_files = undefined, nh_nix = None, nh_home = None, nh_metadata = Inl [],
      nh_dev_env = (\<lambda>_. Inl []), nh_deserialize = (\<lambda>_. Inr ?vs)\<rparr> :: nix_host"
  have "bt_wf ?vs" by code_simp
  then obtain env where env: "parse_dev_env_json ?H [] = Inr env"
    and get: "\<And>k s. bt_get env k = Some s \<longleftrightarrow>
      (\<exists>v. bt_get ?vs k = Some v \<and> nv_kind v = ''exported'' \<and> nv_value v = JString s)"
    using nix_env_is_exported_strings [of ?H "[]" ?vs] by auto
  have "bt_get env ''B'' \<noteq> Some s" for s unfolding get by simp
  then have "bt_get env ''B'' = None" by auto
  moreover have "bt_get env ''A'' = Some ''1''" unfolding get by simp
  ultimately show ?thesis using env by blast
qed

lemma later_failures:
  "nix_capture H base = Inl e \<Longrightarrow> \<exists>m. e = ResolutionFailed m"
  "canonical_base_env home = Inl e' \<Longrightarrow> \<exists>m. e' = ResolutionFailed m"
  by (auto simp: nix_capture_def parse_dev_env_json_def canonical_base_env_def map_err_def ok_or_def result_simps
      split: sum.splits option.splits)

text \<open>
  A failed resolution names the first precondition that does not hold, in the order flake, nix, lock,
  evaluation: the flake is reported missing whatever else is wrong, and the lock only when flake and
  nix are there.
\<close>

theorem nix_resolve_first_failure:
  "(nix_resolve H project = Inl (NoEnvironment ''nix'' ''nix flake init'') \<longleftrightarrow>
      \<not> hf_is_file (nh_files H) (path_join project ''flake.nix''))
   \<and> (nix_resolve H project = Inl (MissingBinary ''nix'' ''devcroft doctor'') \<longleftrightarrow>
      hf_is_file (nh_files H) (path_join project ''flake.nix'') \<and> nh_nix H = None)
   \<and> (nix_resolve H project = Inl (MissingLock ''nix'' ''nix flake lock'') \<longleftrightarrow>
      hf_is_file (nh_files H) (path_join project ''flake.nix'') \<and> nh_nix H \<noteq> None
      \<and> (\<not> hf_is_file (nh_files H) (path_join project ''flake.lock'')
          \<or> probe_flake_evaluable H = Inl (MissingLock ''nix'' ''nix flake lock'')))"
proof -
  have probe: "probe_flake_evaluable H = Inl e \<Longrightarrow> e = MissingLock ''nix'' ''nix flake lock'' \<or> (\<exists>m. e = ResolutionFailed m)" for e
    by (auto simp: probe_flake_evaluable_def classify_metadata_failure_def map_err_def result_simps split: sum.splits if_splits)
  show ?thesis
    using later_failures(1) [of H] later_failures(2) [of "nh_home H"] probe
    by (cases "probe_flake_evaluable H"; cases "canonical_base_env (nh_home H)"; cases "nh_nix H";
        cases "nix_capture H (projr (canonical_base_env (nh_home H)))")
      (auto simp: nix_resolve_def ensure_flake_present_def ensure_lock_present_def ok_or_def)
qed

end
