(* ===== verification/Explain.thy ===== *)
theory Explain
  imports Capability
begin

text \<open>
  The commands that account for a policy: \<open>why\<close> (\<open>src/policy/why.rs\<close>),
  \<open>policy --render\<close> (\<open>render.rs\<close>) and the degraded-capability report
  (\<open>degraded.rs\<close>).  The library's host filter is a parameter of \<open>why_host\<close>.
\<close>

section \<open>Model: why\<close>

datatype fs_op = OpRead | OpWrite | OpReadWrite

record explanation =
  allowed :: bool
  origin :: "origin option"
  detail :: string

definition matching :: "annotated_value list \<Rightarrow> string \<Rightarrow> annotated_value option" where
  "matching rules path = find (\<lambda>r. is_within path (av_value r)) rules"

definition why_path :: "compiled_policy \<Rightarrow> string \<Rightarrow> fs_op \<Rightarrow> explanation" where
  "why_path c path op =
     (case matching (filesystem_deny c) path of
        Some rule \<Rightarrow>
          \<lparr>allowed = False, origin = Some (av_origin rule),
           detail = ''denied by rule '' @ show_origin (av_origin rule)\<rparr>
      | None \<Rightarrow>
          (case (if op = OpWrite \<or> op = OpReadWrite then matching (filesystem_allow c) path
                 else case matching (filesystem_allow c) path of
                     Some rule \<Rightarrow> Some rule
                   | None \<Rightarrow> matching (filesystem_read c) path) of
             Some rule \<Rightarrow>
               \<lparr>allowed = True, origin = Some (av_origin rule),
                detail = ''allowed by rule '' @ show_origin (av_origin rule)\<rparr>
           | None \<Rightarrow>
               \<lparr>allowed = False, origin = None, detail = ''denied: not granted by any rule''\<rparr>))"

text \<open>
  \<open>check_host allow host\<close> is \<open>HostFilter::new_strict(allow).check_host(host, &[])\<close>: the
  verdict and its reason.
\<close>

definition host_rule :: "compiled_policy \<Rightarrow> string \<Rightarrow> annotated_value option" where
  "host_rule c host =
     (case find (\<lambda>d. eq_ignore_ascii_case (av_value d) host) (network_allow_domain c) of
        Some d \<Rightarrow> Some d
      | None \<Rightarrow>
          find (\<lambda>d. case strip_prefix ''*'' (av_value d) of
                     None \<Rightarrow> False
                   | Some suf \<Rightarrow> ends_with suf (map to_ascii_lowercase host))
            (network_allow_domain c))"

definition why_host ::
  "(string list \<Rightarrow> string \<Rightarrow> bool \<times> string) \<Rightarrow> compiled_policy \<Rightarrow> string \<Rightarrow> explanation" where
  "why_host check_host c host =
     (if \<not> network_block c
      then \<lparr>allowed = True, origin = Some (Manifest ''network.default''),
            detail = ''allowed by rule manifest:network.default''\<rparr>
      else (case check_host (map av_value (network_allow_domain c)) host of
          (True, _) \<Rightarrow>
            (case host_rule c host of
               Some rule \<Rightarrow>
                 \<lparr>allowed = True, origin = Some (av_origin rule),
                  detail = ''allowed by rule '' @ show_origin (av_origin rule)\<rparr>
             | None \<Rightarrow>
                 \<lparr>allowed = True, origin = None,
                  detail = ''allowed by the egress proxy's host filter''\<rparr>)
        | (False, rsn) \<Rightarrow>
            \<lparr>allowed = False, origin = Some (Manifest ''network.default''),
             detail = ''denied by rule manifest:network.default ('' @ rsn @ '')''\<rparr>))"

section \<open>Model: degraded capabilities\<close>

record degraded_capability =
  aspect :: string
  reason :: string
  fallback :: string

record host_capabilities =
  domain_filtering :: bool
  port_scoped_bind :: bool
  exec_mediation :: bool

fun current_capabilities :: "target_os \<Rightarrow> host_capabilities" where
  "current_capabilities Macos =
     \<lparr>domain_filtering = False, port_scoped_bind = False, exec_mediation = False\<rparr>"
| "current_capabilities Linux =
     \<lparr>domain_filtering = True, port_scoped_bind = True, exec_mediation = True\<rparr>"

definition domain_degraded :: degraded_capability where
  "domain_degraded =
     \<lparr>aspect = ''network.allow (domain-level filtering)'',
      reason = ''macOS Seatbelt cannot enforce domain-level network allowlists without a cooperative proxy'',
      fallback = ''network access is not filtered by domain on this host; a process that bypasses the proxy can reach any host''\<rparr>"

definition ports_degraded :: degraded_capability where
  "ports_degraded =
     \<lparr>aspect = ''network.ports (binding is not limited to the declared ports)'',
      reason = ''macOS Seatbelt has no port-scoped bind rule, so any local port can be bound'',
      fallback = ''the declared ports work; treat the list as documentation of intent rather than a limit''\<rparr>"

definition exec_degraded :: degraded_capability where
  "exec_degraded =
     \<lparr>aspect = ''exec is not mediated by path'',
      reason = ''macOS Seatbelt allows process-exec unconditionally, so a command naming an absolute host path runs even though reads of that path are denied'',
      fallback = ''anything resolved through PATH still comes from the closure; an absolute host path does not''\<rparr>"

definition detect_for_host :: "compiled_policy \<Rightarrow> host_capabilities \<Rightarrow> degraded_capability list" where
  "detect_for_host c host =
     (let requests_domain_filtering = network_block c \<and> network_allow_domain c \<noteq> []
      in (if requests_domain_filtering \<and> \<not> domain_filtering host then [domain_degraded] else [])
         @ (if network_ports c \<noteq> [] \<and> \<not> port_scoped_bind host then [ports_degraded] else []))"

definition detect :: "target_os \<Rightarrow> compiled_policy \<Rightarrow> degraded_capability list" where
  "detect os c = detect_for_host c (current_capabilities os)"

definition host_limitations_for :: "host_capabilities \<Rightarrow> degraded_capability list" where
  "host_limitations_for host = (if \<not> exec_mediation host then [exec_degraded] else [])"

definition host_limitations :: "target_os \<Rightarrow> degraded_capability list" where
  "host_limitations os = host_limitations_for (current_capabilities os)"

section \<open>Model: render\<close>

text \<open>The \<open>{:<40}\<close> format pads to forty characters on the right.\<close>

definition pad_right :: "nat \<Rightarrow> string \<Rightarrow> string" where
  "pad_right w s = s @ replicate (w - length (chars s)) CHR '' ''"

definition rule_line :: "string \<Rightarrow> origin \<Rightarrow> string" where
  "rule_line v o' = ''  '' @ pad_right 40 v @ '' '' @ show_origin o'"

definition render_section :: "string \<Rightarrow> annotated_value list \<Rightarrow> string list" where
  "render_section title vs =
     (title @ '':'') #
     (if vs = [] then [''  (none)'']
      else map (\<lambda>v. rule_line (av_value v) (av_origin v)) vs)"

definition namespace_summary :: "compiled_policy \<Rightarrow> string" where
  "namespace_summary c =
     (if \<not> network_block c then ''shared with the host (network.default = \"allow\")''
      else if network_ports c \<noteq> []
      then ''own (declared ports are reachable inside the sandbox and via `ssh -L <local>:127.0.0.1:<port> <name>.devcroft`, not on the host's loopback)''
      else ''own (denies UDP, which Landlock's TCP-only network rules do not)'')"

definition show_bool :: "bool \<Rightarrow> string" where
  "show_bool b = (if b then ''true'' else ''false'')"

definition show_u16 :: "16 word \<Rightarrow> string" where
  "show_u16 p = show_nat (unat p)"

definition render_lines :: "compiled_policy \<Rightarrow> string list" where
  "render_lines c =
     [''sandbox: '' @ cp_sandbox_name c, []]
     @ render_section ''filesystem.allow'' (filesystem_allow c)
     @ render_section ''filesystem.read'' (filesystem_read c)
     @ render_section ''filesystem.deny'' (filesystem_deny c)
     @ [[], ''network.block: '' @ show_bool (network_block c)]
     @ render_section ''network.allow_domain'' (network_allow_domain c)
     @ [''network.ports:'']
     @ (if network_ports c = [] then [''  (none)'']
        else map (\<lambda>p. rule_line (show_u16 (ap_value p)) (ap_origin p)) (network_ports c))
     @ [''network.namespace: '' @ namespace_summary c]
     @ (if unix_socket_bind c \<noteq> []
        then ''unix_socket.bind:'' # map (\<lambda>s. rule_line (av_value s) (av_origin s)) (unix_socket_bind c)
        else [])
     @ [case network_proxy_port c of
          Some port \<Rightarrow> ''network.proxy: 127.0.0.1:'' @ show_u16 port @ '' (running)''
        | None \<Rightarrow>
            if wants_egress_proxy c then ''network.proxy: requested, not yet started (run `up`)''
            else ''network.proxy: not requested'']"

definition render :: "compiled_policy \<Rightarrow> string" where
  "render c = concat (map (\<lambda>l. l @ [CHR 0x0A]) (render_lines c))"

section \<open>Lemmas: why\<close>

lemma matching_None_iff:
  "matching rules path = None \<longleftrightarrow> \<not> path_containment.covered (values_of rules) path"
  by (auto simp: matching_def path_containment.covered_iff find_None_iff)

lemma matching_SomeD: "matching rules path = Some r \<Longrightarrow> r \<in> set rules \<and> is_within path (av_value r)"
  by (auto simp: matching_def find_Some_iff)

lemma why_path_allowed_iff:
  "allowed (why_path c p op) \<longleftrightarrow>
     \<not> path_containment.covered (values_of (filesystem_deny c)) p \<and>
     path_containment.covered (values_of (filesystem_allow c) @
        (if op = OpRead then values_of (filesystem_read c) else [])) p"
proof (cases "matching (filesystem_deny c) p")
  case (Some r)
  then have "path_containment.covered (values_of (filesystem_deny c)) p"
    using matching_None_iff [of "filesystem_deny c" p] by auto
  then show ?thesis using Some by (simp add: why_path_def)
next
  case None
  then have d: "\<not> path_containment.covered (values_of (filesystem_deny c)) p"
    using matching_None_iff by blast
  have a: "matching (filesystem_allow c) p = None \<longleftrightarrow>
      \<not> path_containment.covered (values_of (filesystem_allow c)) p"
    and r: "matching (filesystem_read c) p = None \<longleftrightarrow>
      \<not> path_containment.covered (values_of (filesystem_read c)) p"
    by (rule matching_None_iff)+
  show ?thesis
    using None d a r
    by (cases op; cases "matching (filesystem_allow c) p"; cases "matching (filesystem_read c) p")
       (simp_all add: why_path_def)
qed

abbreviation granted_values :: "compiled_policy \<Rightarrow> string list" where
  "granted_values c \<equiv> values_of (filesystem_allow c) @ values_of (filesystem_read c)"



text \<open>
  A deny rule covered by a grant is never compiled into a sandbox: if any deny entry
  (devcroft's own data directory included) lies at or below an allow or read grant, the
  projection stops with the overlap error before the backend is asked for anything.
\<close>

theorem covered_deny_is_rejected:
  fixes lib :: "('a, 'b) nono_lib"
  assumes "d \<in> set (filesystem_deny c)" and "g \<in> set (filesystem_allow c @ filesystem_read c)"
    and "is_within (av_value d) (av_value g)"
  shows "\<exists>deny allow. to_capability_set lib host (to_capability_plan c) root =
    Some (Inl (DenyOverlapsAllow deny allow)) \<and> is_within deny allow"
proof -
  have "\<not> check_no_deny_overlaps_allow (to_capability_plan c) = (Inr () :: 'b capability_set_error + unit)"
    using assms by (auto simp: check_no_deny_overlaps_Ok_iff path_containment.covered_iff)
  then obtain e :: "'b capability_set_error"
    where e: "check_no_deny_overlaps_allow (to_capability_plan c) = Inl e"
    by (metis (full_types) old.unit.exhaust sum.exhaust)
  moreover have "\<exists>deny allow. e = DenyOverlapsAllow deny allow \<and> is_within deny allow"
    using e unfolding check_no_deny_overlaps_allow_def
    by (auto dest!: try_each_ErrD split: if_splits)
  ultimately obtain deny allow where
    "check_no_deny_overlaps_allow (to_capability_plan c) = (Inl (DenyOverlapsAllow deny allow) :: 'b capability_set_error + unit)"
    and "is_within deny allow"
    by auto
  then show ?thesis by (intro exI [of _ deny] exI [of _ allow]) (simp add: to_capability_set_def)
qed

definition data_dir_manifest :: manifest where
  "data_dir_manifest = sample_manifest\<lparr>filesystem := default_filesystem\<lparr>fs_read := [''~'']\<rparr>\<rparr>"

theorem covered_deny_is_rejected_witness:
  "\<exists>deny allow. to_capability_set call_log sample_host
     (to_capability_plan (compile Linux data_dir_manifest)) ''/work/p'' =
       Some (Inl (DenyOverlapsAllow deny allow)) \<and> is_within deny allow"
proof (rule covered_deny_is_rejected)
  show "annotated DEVCROFT_DATA_DIR Baseline \<in> set (filesystem_deny (compile Linux data_dir_manifest))"
    by (simp add: compile_def Let_def)
  show "annotated ''~'' (Manifest ''filesystem.read'') \<in>
      set (filesystem_allow (compile Linux data_dir_manifest) @ filesystem_read (compile Linux data_dir_manifest))"
    by (simp add: compile_def Let_def data_dir_manifest_def)
  have "is_within DEVCROFT_DATA_DIR ''~''" by code_simp
  then show "is_within (av_value (annotated DEVCROFT_DATA_DIR Baseline))
      (av_value (annotated ''~'' (Manifest ''filesystem.read'')))"
    by simp
qed

definition nested_manifest :: manifest where
  "nested_manifest = sample_manifest
     \<lparr>filesystem := default_filesystem\<lparr>fs_allow := [''.'', ''~/.local/share/devcroft/other'']\<rparr>\<rparr>"


section \<open>Lemmas: render\<close>

lemma render_section_rule:
  "r \<in> set vs \<Longrightarrow> rule_line (av_value r) (av_origin r) \<in> set (render_section title vs)"
  by (auto simp: render_section_def)

lemma render_lines_rules:
  "r \<in> set (filesystem_allow c @ filesystem_read c @ filesystem_deny c @ network_allow_domain c
        @ unix_socket_bind c) \<Longrightarrow>
     rule_line (av_value r) (av_origin r) \<in> set (render_lines c)"
  unfolding render_lines_def set_append
  using render_section_rule by auto

lemma render_lines_ports:
  "p \<in> set (network_ports c) \<Longrightarrow> rule_line (show_u16 (ap_value p)) (ap_origin p) \<in> set (render_lines c)"
  by (auto simp: render_lines_def)

text \<open>The rendered line that accounts for a call to the backend.\<close>

fun accounted_by :: "host_paths \<Rightarrow> string \<Rightarrow> compiled_policy \<Rightarrow> cap_call \<Rightarrow> string \<Rightarrow> bool" where
  "accounted_by host root c (AllowPath p acc) l =
     (\<exists>v o'. fst (resolve host v root) = p \<and> l = rule_line v o')"
| "accounted_by host root c (AllowFile p acc) l =
     (\<exists>v o'. fst (resolve host v root) = p \<and> l = rule_line v o')"
| "accounted_by host root c (ProxyOnly port) l =
     (l = ''network.proxy: 127.0.0.1:'' @ show_u16 port @ '' (running)'')"
| "accounted_by host root c BlockNetwork l = (l = ''network.block: true'')"
| "accounted_by host root c AllowAllNetwork l = (l = ''network.block: false'')"
| "accounted_by host root c (AllowLocalhostPort port) l = (\<exists>o'. l = rule_line (show_u16 port) o')"
| "accounted_by host root c (AllowUnixSocket s) l = (\<exists>o'. l = rule_line s o')"
| "accounted_by host root c SignalIsolated l = True"

lemma grant_calls_accounted:
  assumes "call \<in> set (concat (map (grant_calls host root acc) (values_of vs)))"
    and "set vs \<subseteq> set (filesystem_allow c @ filesystem_read c)"
  shows "\<exists>l \<in> set (render_lines c). accounted_by host root c call l"
proof -
  obtain r where r: "r \<in> set vs" "call \<in> set (grant_calls host root acc (av_value r))"
    using assms(1) by auto
  have "rule_line (av_value r) (av_origin r) \<in> set (render_lines c)"
    using r(1) assms(2) by (intro render_lines_rules) auto
  moreover have "accounted_by host root c call (rule_line (av_value r) (av_origin r))"
    using r(2) by (auto simp: grant_calls_def Let_def split: if_splits)
  ultimately show ?thesis by blast
qed



section \<open>Lemmas: degraded capabilities\<close>

text \<open>
  \<open>up\<close> reports a degraded capability exactly when the manifest asks for something the host
  cannot enforce: never on Linux; on macOS for an allowlist under deny-by-default and for
  declared ports, each exactly when requested; a manifest requesting neither gets no warning.
\<close>

theorem detect_exact:
  "detect Linux c = []
   \<and> set (detect Macos c) =
       (if wants_egress_proxy c then {domain_degraded} else {})
       \<union> (if network_ports c \<noteq> [] then {ports_degraded} else {})
   \<and> distinct (detect os c)"
proof -
  have "domain_degraded \<noteq> ports_degraded"
    by (simp add: domain_degraded_def ports_degraded_def)
  then show ?thesis
    by (cases os) (auto simp: detect_def detect_for_host_def wants_egress_proxy_def)
qed

end
