(* ===== verification/Hooks.thy ===== *)
theory Hooks
  imports Protocol State
begin

text \<open>
  Running one project-supplied command as a session of the keeper, and the hooks of the manifest in
  their order (\<open>src/lifecycle/hooks.rs\<close>). The keeper is a parameter: for each session, the error of
  connecting to it, or the frames it sends before the connection ends and how it ends. The output
  of a command goes to the keeper's log, a file of the world of theory \<open>State\<close>.
\<close>

section \<open>Model\<close>

datatype hook_error = HookConnect fs_error | HookProtocol io_error | HookFailed string string

text \<open>The keeper of one sandbox, seen from \<open>up\<close>: its log, its sessions, where they run.\<close>

record keeper_link =
  kl_log :: string
  kl_root :: string
  kl_session :: "spawn_request \<Rightarrow> fs_error + (frame list \<times> io_error)"

text \<open>\<open>write_all\<close> on a file opened for appending; the open fails unless the file exists.\<close>

definition fs_append :: "string \<Rightarrow> string \<Rightarrow> fs \<Rightarrow> (fs_error + unit) \<times> fs" where
  "fs_append p s fs = (case map_of fs p of
      Some (FileNode s0) \<Rightarrow> (Inr (), AList.update p (FileNode (s0 @ s)) fs)
    | None \<Rightarrow> (Inl NotFound, fs)
    | Some _ \<Rightarrow> (Inl OtherError, fs))"

definition string_of_bytes :: "bytes \<Rightarrow> string" where
  "string_of_bytes bs = map (\<lambda>b. char_of (unat b)) bs"

definition hook_request :: "string \<Rightarrow> string \<Rightarrow> spawn_request" where
  "hook_request root cmd = \<lparr>req_cmd = ''sh'', req_args = [''-c'', cmd], req_cwd = root, req_env = [], req_pty = None\<rparr>"

text \<open>The first reply of the keeper to the session; the other frame is not printed into the error.\<close>

definition hook_accepted :: "string \<Rightarrow> frame list \<times> io_error \<Rightarrow> hook_error + frame list" where
  "hook_accepted name r = (case r of
      ([], e) \<Rightarrow> Inl (HookProtocol e)
    | (SpawnOk _ # fs, _) \<Rightarrow> Inr fs
    | (SpawnErr message # _, _) \<Rightarrow> Inl (HookFailed name message)
    | (_ # _, _) \<Rightarrow> Inl (HookProtocol (InvalidData ''expected SpawnOk'')))"

text \<open>The loop over the rest: the exit status, and what is written to the log on the way.\<close>

fun hook_output :: "frame list \<Rightarrow> io_error \<Rightarrow> string \<Rightarrow> (hook_error + exit_status) \<times> string" where
  "hook_output [] e log = (Inl (HookProtocol e), log)"
| "hook_output (Stdout bs # fs) e log = hook_output fs e (log @ string_of_bytes bs)"
| "hook_output (Stderr bs # fs) e log = hook_output fs e (log @ string_of_bytes bs)"
| "hook_output (Exit status # fs) e log = (Inr status, log)"
| "hook_output (_ # fs) e log = hook_output fs e log"

definition show_i32 :: "i32 \<Rightarrow> string" where
  "show_i32 w = show_int (sint w)"

definition hook_verdict :: "string \<Rightarrow> exit_status \<Rightarrow> hook_error + unit" where
  "hook_verdict name status = (case (exit_code status, exit_signal status) of
      (Some code, sig) \<Rightarrow> if code = 0 \<and> sig = None then Inr ()
        else Inl (HookFailed name (''exited with status '' @ show_i32 code))
    | (None, Some sig) \<Rightarrow> Inl (HookFailed name (''killed by signal '' @ show_i32 sig))
    | (None, None) \<Rightarrow> Inl (HookFailed name ''exited with unknown status''))"

definition hook_record :: "string \<Rightarrow> string \<Rightarrow> string" where
  "hook_record name cmd = ''[hook '' @ name @ ''] $ '' @ cmd @ [CHR 0x0A]"

text \<open>\<open>w_ran\<close> records that the command was sent to the keeper.\<close>

definition run_one :: "keeper_link \<Rightarrow> string \<Rightarrow> string \<Rightarrow> world \<Rightarrow> (hook_error + unit) \<times> world" where
  "run_one K name cmd w = (case kl_session K (hook_request (kl_root K) cmd) of
      Inl e \<Rightarrow> (Inl (HookConnect e), w)
    | Inr replies \<Rightarrow>
        let w = w\<lparr>w_ran := w_ran w @ [(name, cmd)]\<rparr> in
        (case hook_accepted name replies of
           Inl e \<Rightarrow> (Inl e, w)
         | Inr fs \<Rightarrow>
             let (status, out) = hook_output fs (snd replies) (hook_record name cmd) in
             (case fs_append (kl_log K) out (w_fs w) of
                (Inl e, _) \<Rightarrow> (Inl (HookConnect e), w)
              | (Inr _, files) \<Rightarrow> (rbind status (hook_verdict name), w\<lparr>w_fs := files\<rparr>))))"

definition run_activation_script :: "keeper_link \<Rightarrow> string \<Rightarrow> world \<Rightarrow> (hook_error + unit) \<times> world" where
  "run_activation_script K script w = run_one K ''activation'' script w"

definition run_optional :: "keeper_link \<Rightarrow> string \<Rightarrow> string option \<Rightarrow> world \<Rightarrow> (hook_error + unit) \<times> world" where
  "run_optional K name cmd w = (case cmd of None \<Rightarrow> (Inr (), w) | Some cmd \<Rightarrow> run_one K name cmd w)"

definition run_hooks :: "keeper_link \<Rightarrow> hooks_section \<Rightarrow> bool \<Rightarrow> world \<Rightarrow> (hook_error + unit) \<times> world" where
  "run_hooks K hs run_post_create w =
     (case (if run_post_create then run_optional K ''post_create'' (post_create hs) w else (Inr (), w)) of
        (Inl e, w) \<Rightarrow> (Inl e, w)
      | (Inr _, w) \<Rightarrow> run_optional K ''post_start'' (post_start hs) w)"

text \<open>The texts of the standard library's and of the protocol's errors are arguments.\<close>

definition show_hook_error :: "(fs_error \<Rightarrow> string) \<Rightarrow> (io_error \<Rightarrow> string) \<Rightarrow> hook_error \<Rightarrow> string" where
  "show_hook_error show_fs show_io e = (case e of
      HookConnect m \<Rightarrow> ''connecting to keeper: '' @ show_fs m
    | HookProtocol m \<Rightarrow> ''protocol error: '' @ show_io m
    | HookFailed name detail \<Rightarrow> ''hook '' @ [CHR 0x60] @ name @ [CHR 0x60] @ '' failed: '' @ detail)"

section \<open>Lemmas: one hook\<close>

text \<open>The frames of a session after it was accepted: what its log gets, and how it ends.\<close>

definition hook_text :: "frame \<Rightarrow> string" where
  "hook_text f = (case f of Stdout bs \<Rightarrow> string_of_bytes bs | Stderr bs \<Rightarrow> string_of_bytes bs | _ \<Rightarrow> [])"

definition is_exit :: "frame \<Rightarrow> bool" where
  "is_exit f = (case f of Exit _ \<Rightarrow> True | _ \<Rightarrow> False)"

lemma hook_output_exit:
  assumes "\<not> list_ex is_exit before"
  shows "hook_output (before @ Exit status # after) e log = (Inr status, log @ concat (map hook_text before))"
  using assms
proof (induction before arbitrary: log)
  case (Cons f before)
  then show ?case by (cases f) (simp_all add: hook_text_def is_exit_def)
qed simp

lemma hook_output_no_exit:
  assumes "\<not> list_ex is_exit fs"
  shows "hook_output fs e log = (Inl (HookProtocol e), log @ concat (map hook_text fs))"
  using assms
proof (induction fs arbitrary: log)
  case (Cons f fs)
  then show ?case by (cases f) (simp_all add: hook_text_def is_exit_def)
qed simp

lemma first_exit:
  obtains (exit) before status after where "fs = before @ Exit status # after" "\<not> list_ex is_exit before"
  | (none) "\<not> list_ex is_exit fs"
proof (cases "list_ex is_exit fs")
  case True
  then obtain before f after where fs: "fs = before @ f # after" "is_exit f" "\<forall>g \<in> set before. \<not> is_exit g"
    by (metis list_ex_iff split_list_first_prop)
  then show ?thesis using exit by (auto simp: is_exit_def list_ex_iff split: frame.splits)
qed (rule none)

lemma hook_verdict_ok: "hook_verdict name status = Inr () \<longleftrightarrow> exit_code status = Some 0 \<and> exit_signal status = None"
  by (auto simp: hook_verdict_def split: option.splits)

text \<open>
  C40: a hook succeeds exactly when the keeper accepted its session, the log could be opened and the
  first exit the keeper reports has code 0 and no signal; then the log has got the hook's record
  and all output that preceded the exit, in order, and nothing else in the world has changed
  but the note that the command was sent.
\<close>

theorem run_one_succeeds_iff:
  "fst (run_one K name cmd w) = Inr () \<longleftrightarrow>
     (\<exists>sid before status after e s0.
        kl_session K (hook_request (kl_root K) cmd) = Inr (SpawnOk sid # before @ Exit status # after, e)
        \<and> \<not> list_ex is_exit before \<and> exit_code status = Some 0 \<and> exit_signal status = None
        \<and> map_of (w_fs w) (kl_log K) = Some (FileNode s0)
        \<and> snd (run_one K name cmd w) =
            w\<lparr>w_ran := w_ran w @ [(name, cmd)],
              w_fs := AList.update (kl_log K)
                (FileNode (s0 @ hook_record name cmd @ concat (map hook_text before))) (w_fs w)\<rparr>)"
  (is "?L \<longleftrightarrow> ?R")
proof
  assume ?R
  then show ?L
    by (auto simp: run_one_def hook_accepted_def hook_output_exit fs_append_def Let_def hook_verdict_def)
next
  assume ok: ?L
  then obtain sid fs e where replies: "kl_session K (hook_request (kl_root K) cmd) = Inr (SpawnOk sid # fs, e)"
    by (auto simp: run_one_def hook_accepted_def Let_def split: sum.splits list.splits frame.splits prod.splits)
  show ?R
  proof (cases fs rule: first_exit)
    case (exit before status after)
    then have "\<exists>s0. map_of (w_fs w) (kl_log K) = Some (FileNode s0)" "hook_verdict name status = Inr ()"
      using ok by (auto simp: run_one_def replies hook_accepted_def hook_output_exit fs_append_def Let_def
          split: option.splits fs_node.splits)
    then obtain s0 where s0: "map_of (w_fs w) (kl_log K) = Some (FileNode s0)"
      and st: "exit_code status = Some 0" "exit_signal status = None"
      by (auto simp: hook_verdict_ok)
    have "snd (run_one K name cmd w) = w\<lparr>w_ran := w_ran w @ [(name, cmd)], w_fs := AList.update (kl_log K)
        (FileNode (s0 @ hook_record name cmd @ concat (map hook_text before))) (w_fs w)\<rparr>"
      using exit s0 by (simp add: run_one_def replies hook_accepted_def hook_output_exit fs_append_def Let_def)
    with replies exit s0 st show ?thesis by blast
  next
    case none
    then show ?thesis
      using ok by (auto simp: run_one_def replies hook_accepted_def hook_output_no_exit fs_append_def Let_def
          split: option.splits fs_node.splits)
  qed
qed

lemma run_one_ran:
  "(w_ran (snd (run_one K name cmd w)) = w_ran w \<and> isl (fst (run_one K name cmd w)))
   \<or> w_ran (snd (run_one K name cmd w)) = w_ran w @ [(name, cmd)]"
  by (auto simp: run_one_def Let_def split: sum.splits prod.splits)

end
