(* ===== verification/SshKeys.thy ===== *)
theory SshKeys
  imports State
begin

text \<open>
  The client's key pair and the sandbox's host key (\<open>src/ssh/keys.rs\<close>). A key is the text of its
  private and of its public half; the key library is a parameter: reading a private key, fresh pairs
  for the client and for a host, restricting a file to its owner, and the text of an error. File
  modes are not part of the files of theory \<open>State\<close>.
\<close>

section \<open>Model\<close>

datatype key_error = KeyIo fs_error | KeyFormat string

record key_lib =
  kl_read :: "string \<Rightarrow> string + (string \<times> string)"
  kl_fresh_client :: "string + (string \<times> string)"
  kl_fresh_host :: "string + (string \<times> string)"
  kl_restrict :: "string \<Rightarrow> fs_error option"
  kl_show :: "key_error \<Rightarrow> string"

definition generate_host_key :: "key_lib \<Rightarrow> string \<Rightarrow> fs \<Rightarrow> (key_error + (string \<times> string)) \<times> fs" where
  "generate_host_key L path fs = (case kl_fresh_host L of
      Inl e \<Rightarrow> (Inl (KeyFormat e), fs)
    | Inr key \<Rightarrow> (case fs_write path (fst key) fs of
        (Inl e, fs) \<Rightarrow> (Inl (KeyIo e), fs)
      | (Inr _, fs) \<Rightarrow> (Inr key, fs)))"

definition ensure_client_keypair ::
  "key_lib \<Rightarrow> string \<Rightarrow> string \<Rightarrow> fs \<Rightarrow> (key_error + (string \<times> string)) \<times> fs" where
  "ensure_client_keypair L private_path public_path fs =
     (if map_of fs private_path \<noteq> None then
        (rbind (map_err KeyIo (read_text fs private_path)) (\<lambda>t. map_err KeyFormat (kl_read L t)), fs)
      else case create_dir_all (fs_parent private_path) fs of
        (Inl e, fs) \<Rightarrow> (Inl (KeyIo e), fs)
      | (Inr _, fs) \<Rightarrow> (case kl_fresh_client L of
          Inl e \<Rightarrow> (Inl (KeyFormat e), fs)
        | Inr key \<Rightarrow> (case fs_write private_path (fst key) fs of
            (Inl e, fs) \<Rightarrow> (Inl (KeyIo e), fs)
          | (Inr _, fs) \<Rightarrow> (case fs_write public_path (snd key) fs of
              (Inl e, fs) \<Rightarrow> (Inl (KeyIo e), fs)
            | (Inr _, fs) \<Rightarrow> (case kl_restrict L public_path of
                Some e \<Rightarrow> (Inl (KeyIo e), fs)
              | None \<Rightarrow> (Inr key, fs))))))"

section \<open>What the keys change\<close>

text \<open>That nothing but new directories and the files \<open>W\<close> differs.\<close>

definition changes_within :: "string set \<Rightarrow> fs \<Rightarrow> fs \<Rightarrow> bool" where
  "changes_within W fs fs' \<longleftrightarrow>
     (\<forall>p. map_of fs' p = map_of fs p \<or> map_of fs p = None \<and> map_of fs' p = Some DirNode \<or> p \<in> W)"

lemma changes_within_refl [simp, intro]: "changes_within W fs fs"
  by (simp add: changes_within_def)

lemma changes_within_trans:
  "changes_within W fs fs' \<Longrightarrow> changes_within W fs' fs'' \<Longrightarrow> changes_within W fs fs''"
  unfolding changes_within_def by metis

lemma changes_within_mono: "changes_within V fs fs' \<Longrightarrow> V \<subseteq> W \<Longrightarrow> changes_within W fs fs'"
  unfolding changes_within_def by blast

lemma create_dir_all_within: "changes_within W fs (snd (create_dir_all p fs))"
  unfolding changes_within_def
proof (intro allI)
  fix q
  show "map_of (snd (create_dir_all p fs)) q = map_of fs q
    \<or> map_of fs q = None \<and> map_of (snd (create_dir_all p fs)) q = Some DirNode \<or> q \<in> W"
    using create_dir_all_new [of p fs q] create_dir_all_keeps [of fs q p] by (cases "map_of fs q") auto
qed

lemma fs_write_within: "p \<in> W \<Longrightarrow> changes_within W fs (snd (fs_write p t fs))"
  by (auto simp: changes_within_def fs_write_def update_conv' split: option.split fs_node.split)

lemma ensure_client_keypair_within:
  "changes_within (if map_of fs private_path = None then {private_path, public_path} else {}) fs
     (snd (ensure_client_keypair L private_path public_path fs))"
proof (cases "map_of fs private_path")
  case None
  let ?W = "{private_path, public_path}"
  obtain r1 fs1 where 1: "create_dir_all (fs_parent private_path) fs = (r1, fs1)" by fastforce
  have w1: "changes_within ?W fs fs1" using create_dir_all_within [of ?W fs "fs_parent private_path"] 1 by simp
  have w2: "changes_within ?W fs fs2" if "fs_write private_path t fs1 = (r2, fs2)" for t r2 fs2
    using changes_within_trans [OF w1 fs_write_within, of private_path t] that by simp
  have w3: "changes_within ?W fs fs3"
    if "fs_write private_path t fs1 = (r2, fs2)" and "fs_write public_path u fs2 = (r3, fs3)" for t u r2 r3 fs2 fs3
    using changes_within_trans [OF w2 [OF that(1)] fs_write_within, of public_path u] that(2) by simp
  show ?thesis
  proof (cases "kl_fresh_client L")
    case (Inl e)
    then show ?thesis using None 1 w1 by (simp add: ensure_client_keypair_def split: sum.split)
  next
    case (Inr fresh)
    obtain t u where fresh: "fresh = (t, u)" by (cases fresh)
    obtain r2 fs2 where 2: "fs_write private_path t fs1 = (r2, fs2)" by fastforce
    obtain r3 fs3 where 3: "fs_write public_path u fs2 = (r3, fs3)" by fastforce
    show ?thesis using None 1 2 3 w1 w2 [OF 2] w3 [OF 2 3] Inr fresh
      by (simp add: ensure_client_keypair_def split: sum.split option.split)
  qed
qed (simp add: ensure_client_keypair_def)

lemma generate_host_key_within: "changes_within {path} fs (snd (generate_host_key L path fs))"
proof -
  have "changes_within {path} fs (snd (fs_write path t fs))" for t by (rule fs_write_within) simp
  then have "changes_within {path} fs fs1" if "fs_write path t fs = (r, fs1)" for t r fs1
    using that by (metis snd_conv)
  then show ?thesis by (auto simp: generate_host_key_def split: sum.split prod.split)
qed

text \<open>
  The keys are a stable identity: once a key was handed out, asking again gives the same key
  and changes no file, if the library reads back what it wrote.
\<close>

theorem client_keypair_stable:
  assumes "ensure_client_keypair L private_path public_path fs = (Inr key, fs')"
    and "private_path \<noteq> public_path" and "utf8_valid (fst key)" and "kl_read L (fst key) = Inr key"
  shows "ensure_client_keypair L private_path public_path fs' = (Inr key, fs')"
proof (cases "map_of fs private_path")
  case None
  obtain fs1 fs2 where "fs_write private_path (fst key) fs1 = (Inr (), fs2)"
    and "fs_write public_path (snd key) fs2 = (Inr (), fs')"
    using assms(1) None by (auto simp: ensure_client_keypair_def split: prod.splits sum.splits option.splits)
  then have "map_of fs' private_path = Some (FileNode (fst key))"
    using assms(2) by (auto dest!: fs_write_Ok simp: update_conv')
  then show ?thesis
    using assms(3,4) by (simp add: ensure_client_keypair_def read_text_def read_to_string_def result_simps)
next
  case (Some n)
  then show ?thesis using assms(1) by (auto simp: ensure_client_keypair_def)
qed

theorem client_keypair_stable_witness:
  "let L = \<lparr>kl_read = (\<lambda>_. Inr (''k'', ''p'')), kl_fresh_client = Inr (''k'', ''p''), kl_fresh_host = Inl [],
             kl_restrict = (\<lambda>_. None), kl_show = (\<lambda>_. [])\<rparr>;
       fs = [(''/d'', DirNode), (''/d/id'', FileNode ''k''), (''/d/id.pub'', FileNode ''p'')] in
   ensure_client_keypair L ''/d/id'' ''/d/id.pub'' fs = (Inr (''k'', ''p''), fs)"
proof -
  define L where "L = \<lparr>kl_read = (\<lambda>_. Inr (''k'', ''p'')), kl_fresh_client = Inr (''k'', ''p''), kl_fresh_host = Inl [],
             kl_restrict = (\<lambda>_. None), kl_show = (\<lambda>_. [])\<rparr>"
  have "map_sum (\<lambda>_. ()) id (fst (ensure_client_keypair L ''/d/id'' ''/d/id.pub'' [(''/d'', DirNode)])) = Inr (''k'', ''p'')
    \<and> snd (ensure_client_keypair L ''/d/id'' ''/d/id.pub'' [(''/d'', DirNode)])
        = [(''/d'', DirNode), (''/d/id'', FileNode ''k''), (''/d/id.pub'', FileNode ''p'')]"
    unfolding L_def by code_simp
  then have "ensure_client_keypair L ''/d/id'' ''/d/id.pub'' [(''/d'', DirNode)] =
      (Inr (''k'', ''p''), [(''/d'', DirNode), (''/d/id'', FileNode ''k''), (''/d/id.pub'', FileNode ''p'')])"
    by (cases "ensure_client_keypair L ''/d/id'' ''/d/id.pub'' [(''/d'', DirNode)]") (auto simp: map_sum_def split: sum.splits)
  from client_keypair_stable [OF this] show ?thesis
    unfolding Let_def L_def [symmetric] by (simp add: L_def utf8_valid.simps)
qed

end
