(* ===== verification/Up.thy ===== *)
theory Up
  imports Explain Services Hooks SshKeys
begin

text \<open>
  Bringing a sandbox up (\<open>src/lifecycle/up.rs\<close>): what kind of start
  it is, the egress proxy, the environment and the policy of the keeper, the services, and the
  hooks that run once the keeper answers. Starting processes, resolving a provider and the
  key library are parameters (\<open>up_host\<close>); every decision around them is modelled, in the order of
  the source, on the world of theory \<open>State\<close>.
\<close>

section \<open>Outcomes, options, errors\<close>

datatype up_outcome = AlreadyUp | Recovered | Started | Recreated

record up_options =
  opt_recreate :: bool
  opt_skip_hooks :: bool

datatype up_error =
    UpState fs_error | UpPolicy string | UpConfig string | UpProvider provider_error
  | UpBackend string | UpKeeper string | UpSsh string

definition up_bind ::
  "(up_error + 'a) \<times> world \<Rightarrow> ('a \<Rightarrow> world \<Rightarrow> (up_error + 'b) \<times> world) \<Rightarrow> (up_error + 'b) \<times> world" where
  "up_bind r f = (case r of (Inl e, w) \<Rightarrow> (Inl e, w) | (Inr a, w) \<Rightarrow> f a w)"

text \<open>An operation on the file system as a step of \<open>up\<close>; a failure is a state error.\<close>

definition on_fs :: "(fs \<Rightarrow> (fs_error + 'a) \<times> fs) \<Rightarrow> world \<Rightarrow> (up_error + 'a) \<times> world" where
  "on_fs f w = (case f (w_fs w) of (r, fs) \<Rightarrow> (map_err UpState r, w\<lparr>w_fs := fs\<rparr>))"

definition bind_socket :: "string \<Rightarrow> fs \<Rightarrow> (fs_error + unit) \<times> fs" where
  "bind_socket p fs = (if map_of fs p \<noteq> None then (Inl OtherError, fs) else fs_write p [] fs)"

section \<open>What kind of start\<close>

definition begin_up :: "target_os \<Rightarrow> state_paths \<Rightarrow> up_options \<Rightarrow> world \<Rightarrow> (up_error + up_outcome) \<times> world" where
  "begin_up os paths opts w =
     (if opt_recreate opts then
        let w = terminate_and_wait os (sp_pidfile paths) GRACE_PERIOD w;
            w = terminate_and_wait os (sp_proxy_pidfile paths) GRACE_PERIOD w
        in (Inr Recreated, w\<lparr>w_fs := clear_runtime_state paths (w_fs w)\<rparr>)
      else case health_of os w paths of
        Inl e \<Rightarrow> (Inl (UpState e), w)
      | Inr (Healthy _) \<Rightarrow> (Inr AlreadyUp, w)
      | Inr (Stale _) \<Rightarrow> (Inr Recovered, w\<lparr>w_fs := clear_runtime_state paths (w_fs w)\<rparr>)
      | Inr HealthNone \<Rightarrow> (Inr Started, w))"

section \<open>The egress proxy\<close>

text \<open>\<open>spawn\<close> is \<open>proxy::spawn\<close>: the pid, port and token of a new proxy process.\<close>

definition reusable_proxy ::
  "target_os \<Rightarrow> meta_lib \<Rightarrow> state_paths \<Rightarrow> world \<Rightarrow> fs_error + (u16 \<times> string) option" where
  "reusable_proxy os L paths w =
     rbind (read_pidfile (w_fs w) (sp_proxy_pidfile paths)) (\<lambda>recorded. case recorded of
        None \<Rightarrow> Inr None
      | Some (pid, start_time) \<Rightarrow>
          if \<not> is_same_process os (view_now w) pid start_time then Inr None
          else rbind (read_meta L (w_fs w) (sp_meta paths)) (\<lambda>m. case m of
              None \<Rightarrow> Inr None
            | Some m \<Rightarrow> (case (proxy_port m, proxy_token m) of
                (Some port, Some token) \<Rightarrow> Inr (Some (port, token)) | _ \<Rightarrow> Inr None)))"

definition ensure_egress_proxy ::
  "target_os \<Rightarrow> meta_lib \<Rightarrow> (string list \<Rightarrow> string + (int \<times> u16 \<times> string)) \<Rightarrow> state_paths \<Rightarrow> string list \<Rightarrow>
     world \<Rightarrow> (up_error + (u16 \<times> string)) \<times> world" where
  "ensure_egress_proxy os L spawn paths allow w = (case reusable_proxy os L paths w of
      Inl e \<Rightarrow> (Inl (UpState e), w)
    | Inr (Some proxy) \<Rightarrow> (Inr proxy, w)
    | Inr None \<Rightarrow> (case spawn allow of
        Inl e \<Rightarrow> (Inl (UpKeeper (''starting egress proxy: '' @ e)), w)
      | Inr (pid, port, token) \<Rightarrow> (case write_pidfile os (sp_proxy_pidfile paths) pid w of
          (Inl e, w) \<Rightarrow> (Inl (UpState e), w)
        | (Inr _, w) \<Rightarrow> (Inr (port, token), w))))"

definition stop_orphaned_egress_proxy :: "target_os \<Rightarrow> state_paths \<Rightarrow> world \<Rightarrow> world" where
  "stop_orphaned_egress_proxy os paths w =
     (let w = terminate_and_wait os (sp_proxy_pidfile paths) GRACE_PERIOD w
      in w\<lparr>w_fs := snd (remove_file (sp_proxy_pidfile paths) (w_fs w))\<rparr>)"

section \<open>Services\<close>

definition ensure_no_services_declared_for_another_provider ::
  "string list \<Rightarrow> up_options \<Rightarrow> up_error + unit" where
  "ensure_no_services_declared_for_another_provider flox_services opts =
     (if opt_skip_hooks opts then Inr ()
      else if flox_services = [] then Inr ()
      else Inl (UpProvider (ResolutionFailed
        (''this project'' @ [CHR 0x27] @ ''s flox environment declares '' @ show_nat (length flox_services)
         @ '' service(s) ('' @ join '', '' flox_services
         @ ''), but '' @ [CHR 0x60] @ ''env.provider'' @ [CHR 0x60] @ '' is '' @ [CHR 0x60] @ ''nix'' @ [CHR 0x60] @ '', which has no service concept '' @ [CHR 0xE2] @ [CHR 0x80] @ [CHR 0x94] @ '' they would be silently ignored; set '' @ [CHR 0x60] @ ''provider = '' @ [CHR 0x22] @ ''flox'' @ [CHR 0x22] @ [CHR 0x60] @ '' to run them, or remove them from the flox manifest''))))"

text \<open>\<open>flox_services\<close> is what the project's flox manifest declares, \<open>pretty\<close> prints JSON.\<close>

definition prepare_services ::
  "(string \<Rightarrow> bool) \<Rightarrow> string list \<Rightarrow> (json \<Rightarrow> string) \<Rightarrow> string \<Rightarrow> string \<Rightarrow> resolution \<Rightarrow>
     string \<Rightarrow> up_options \<Rightarrow> world \<Rightarrow> (up_error + bool) \<times> world" where
  "prepare_services is_regular_file flox_services pretty root name res sh opts w =
     (case (if res_services res = Unsupported
            then ensure_no_services_declared_for_another_provider flox_services opts else Inr ()) of
        Inl e \<Rightarrow> (Inl e, w)
      | Inr _ \<Rightarrow>
          let services = declared (res_services res) in
          if opt_skip_hooks opts \<or> services = [] then (Inr False, w)
          else if length (socket_path root name) > MAX_SOCKET_PATH then
            (Inl (UpConfig (''the service supervisor'' @ [CHR 0x27] @ ''s socket path is ''
               @ show_nat (length (socket_path root name)) @ '' bytes, over the '' @ show_nat MAX_SOCKET_PATH
               @ '' the OS allows for a unix socket: '' @ socket_path root name
               @ [CHR 0x0A] @ ''move the project closer to the filesystem root, or shorten '' @ [CHR 0x60] @ ''[sandbox].name'' @ [CHR 0x60])), w)
          else if resolve_in_env is_regular_file (res_env res) = None then
            (Inl (UpProvider (ResolutionFailed (show_nat (length services)
               @ '' service(s) are declared but '' @ [CHR 0x60] @ ''process-compose'' @ [CHR 0x60] @ '' is not in the resolved environment; add it to the environment manifest (e.g. '' @ [CHR 0x60] @ ''flox install process-compose'' @ [CHR 0x60] @ '')''))), w)
          else up_bind (on_fs (create_dir_all (fs_parent (config_path root name))) w) (\<lambda>_ w.
            up_bind (on_fs (fs_write (config_path root name) (pretty (render_config services sh))) w) (\<lambda>_ w. (Inr True, w))))"

section \<open>The keeper's environment\<close>

definition env_remove :: "string \<Rightarrow> (string, string) btmap \<Rightarrow> (string, string) btmap" where
  "env_remove k e = filter (\<lambda>(k', _). k' \<noteq> k) e"

definition proxy_env :: "u16 \<times> string \<Rightarrow> (string \<times> string) list" where
  "proxy_env proxy = (case proxy of (port, token) \<Rightarrow>
     (let endpoint = ''http://'' @ token @ ''@127.0.0.1:'' @ show_nat (unat port) in
       map (\<lambda>k. (k, endpoint)) [''HTTP_PROXY'', ''http_proxy'', ''HTTPS_PROXY'', ''https_proxy'']
       @ map (\<lambda>k. (k, ''localhost,127.0.0.1,::1'')) [''NO_PROXY'', ''no_proxy'']))"

text \<open>The variables \<open>up\<close> sets, and those it asks to be removed.\<close>

definition keeper_env :: "manifest \<Rightarrow> resolution \<Rightarrow> (u16 \<times> string) option \<Rightarrow> (string, string) btmap" where
  "keeper_env m res proxy =
     bt_extend (bt_extend (res_env res) (vars (env m)))
       (case proxy of None \<Rightarrow> [] | Some p \<Rightarrow> proxy_env p)"

definition keeper_unset :: "manifest \<Rightarrow> resolution \<Rightarrow> string list" where
  "keeper_unset m res = filter (\<lambda>k. \<not> bt_contains (vars (env m)) k) (res_unset res)"

record keeper_start =
  ks_plan :: string
  ks_host_key :: string
  ks_authorized_key :: string
  ks_shell :: string
  ks_services :: "string option"
  ks_root :: string
  ks_relay :: "(u16 \<times> string) option"
  ks_isolate :: bool

text \<open>The environment \<open>spawn_keeper\<close> builds on top of the one it inherits.\<close>

definition spawn_env ::
  "(string, string) btmap \<Rightarrow> (string, string) btmap \<Rightarrow> string list \<Rightarrow> keeper_start \<Rightarrow> (string, string) btmap" where
  "spawn_env ambient e unset ks =
     bt_extend (foldl (\<lambda>e k. env_remove k e) (bt_extend ambient e) unset)
       ([(''DEVCROFT_CAPABILITY_PLAN'', ks_plan ks),
         (''DEVCROFT_SSH_HOST_KEY'', ks_host_key ks),
         (''DEVCROFT_SSH_AUTHORIZED_KEY'', ks_authorized_key ks),
         (''DEVCROFT_SHELL'', ks_shell ks),
         (''DEVCROFT_START_SERVICES'', if ks_services ks \<noteq> None then ''1'' else ''0''),
         (''DEVCROFT_SANDBOX_NAME'', case ks_services ks of None \<Rightarrow> [] | Some n \<Rightarrow> n),
         (''DEVCROFT_SERVICES_ROOT'', ks_root ks)]
        @ (case ks_relay ks of None \<Rightarrow> []
           | Some (port, sock) \<Rightarrow> [(''DEVCROFT_PROXY_RELAY_PORT'', show_nat (unat port)),
                                   (''DEVCROFT_PROXY_SOCKET'', sock)]))"

section \<open>The keeper's policy\<close>

definition keeper_policy ::
  "target_os \<Rightarrow> manifest \<Rightarrow> string \<Rightarrow> string \<Rightarrow> string list \<Rightarrow> (u16 \<times> string) option \<Rightarrow> string option \<Rightarrow> compiled_policy" where
  "keeper_policy os m prov exe_dir grants proxy socket =
     (let c = with_provider_grants prov grants (with_keeper_exe_grant exe_dir (compile os m));
          c = (case proxy of Some (port, _) \<Rightarrow> with_proxy_port port c | None \<Rightarrow> c)
      in case socket of None \<Rightarrow> c | Some sock \<Rightarrow> with_services_socket_grant prov sock c)"

text \<open>Whether the keeper gets its own network namespace; \<open>probe\<close> is \<open>netns::probe\<close>.\<close>

definition isolate_network :: "compiled_policy \<Rightarrow> bool \<Rightarrow> (u16 \<times> string) option \<Rightarrow> bool \<Rightarrow> bool" where
  "isolate_network c services proxy probe =
     (wants_network_isolation c services
      \<and> (case proxy of Some (port, _) \<Rightarrow> \<not> proxy_port_collides_with_declared_ports c port | None \<Rightarrow> True)
      \<and> probe)"

section \<open>The supervisor sequence\<close>

text \<open>Everything of the host that \<open>up\<close> calls and that is not modelled: the processes it starts, the
  provider, the shell it finds in the environment, the key library, the namespace probe, the sandboxing
  library, and the JSON encodings.\<close>

record ('c, 'e) up_host =
  uh_os :: target_os
  uh_home :: "string option"
  uh_exe :: string
  uh_canonicalize :: "string \<Rightarrow> string"
  uh_provider :: "provider_kind \<Rightarrow> string \<Rightarrow> provider_error + resolution"
  uh_files :: host_fs
  uh_regular :: "string \<Rightarrow> bool"
  uh_flox_services :: "string \<Rightarrow> string list"
  uh_shell :: "(string, string) btmap \<Rightarrow> (string \<times> string option) option"
  uh_spawn_proxy :: "string list \<Rightarrow> string + (int \<times> u16 \<times> string)"
  uh_keys :: key_lib
  uh_netns :: bool
  uh_ambient :: "(string, string) btmap"
  uh_spawn_keeper :: "keeper_start \<Rightarrow> (string, string) btmap \<Rightarrow> string + int"
  uh_responsive :: bool
  uh_session :: "spawn_request \<Rightarrow> fs_error + (frame list \<times> io_error)"
  uh_show_fs :: "fs_error \<Rightarrow> string"
  uh_show_io :: "io_error \<Rightarrow> string"
  uh_nono :: "('c, 'e) nono_lib"
  uh_show_backend :: "'e \<Rightarrow> string"
  uh_paths :: host_paths
  uh_meta :: meta_lib
  uh_plan_json :: "capability_plan \<Rightarrow> string"
  uh_pretty :: "json \<Rightarrow> string"

definition keeper_of :: "('c, 'e) up_host \<Rightarrow> string \<Rightarrow> state_paths \<Rightarrow> keeper_link" where
  "keeper_of H root paths = \<lparr>kl_log = sp_log paths, kl_root = root, kl_session = uh_session H\<rparr>"

definition activate_and_hooks ::
  "('c, 'e) up_host \<Rightarrow> manifest \<Rightarrow> keeper_link \<Rightarrow> resolution \<Rightarrow> up_options \<Rightarrow> up_outcome \<Rightarrow> world \<Rightarrow> (up_error + up_outcome) \<times> world" where
  "activate_and_hooks H m K res opts outcome w =
     up_bind (case res_activation_script res of
         Some script \<Rightarrow>
           if \<not> opt_skip_hooks opts then
             (case run_activation_script K script w of
                (r, w) \<Rightarrow> (map_err (UpKeeper \<circ> show_hook_error (uh_show_fs H) (uh_show_io H)) r, w))
           else (Inr (), w)
       | None \<Rightarrow> (Inr (), w)) (\<lambda>_ w.
     up_bind (if \<not> opt_skip_hooks opts then
          (case run_hooks K (hooks m) (outcome = Started \<or> outcome = Recreated) w of
             (r, w) \<Rightarrow> (map_err (UpKeeper \<circ> show_hook_error (uh_show_fs H) (uh_show_io H)) r, w))
        else (Inr (), w)) (\<lambda>_ w.
     (Inr outcome, w)))"

text \<open>The texts of an error of the library and of \<open>canonicalize\<close> are the arguments.\<close>

definition show_capability_set_error ::
  "('e \<Rightarrow> string) \<Rightarrow> 'e capability_set_error \<Rightarrow> string" where
  "show_capability_set_error show_backend e = (case e of
      DenyOverlapsAllow d a \<Rightarrow> [CHR 0x27] @ d @ [CHR 0x27] @ '' is denied but falls inside the broader grant '' @ [CHR 0x27] @ a @ [CHR 0x27] @ '' '' @ [CHR 0xE2] @ [CHR 0x80] @ [CHR 0x94] @ '' Landlock cannot enforce a deny nested inside an allow; narrow the allow, remove the deny, or restructure the manifest so they don'' @ [CHR 0x27] @ ''t overlap''
    | SymlinkEscapesProjectRoot v t \<Rightarrow> [CHR 0x27] @ v @ [CHR 0x27] @ '' resolves outside the project root once symlinks are followed (real target: '' @ t @ '') '' @ [CHR 0xE2] @ [CHR 0x80] @ [CHR 0x94] @ '' a project-relative grant must stay inside the project; if this path outside the project is genuinely intended, grant it directly with an absolute path or a '' @ [CHR 0x60] @ ''~/...'' @ [CHR 0x60] @ '' form instead''
    | Canonicalize v source \<Rightarrow> ''resolving the real path of '' @ [CHR 0x27] @ v @ [CHR 0x27] @ '': '' @ source
    | Backend e \<Rightarrow> show_backend e)"

text \<open>Rebinding a listener: a stale socket file is removed first.\<close>

definition rebind :: "string \<Rightarrow> fs \<Rightarrow> (fs_error + unit) \<times> fs" where
  "rebind p fs = bind_socket p (snd (remove_file p fs))"

text \<open>Starting the keeper and waiting for it: its pid is recorded before it is asked anything.\<close>

definition launch_keeper ::
  "('c, 'e) up_host \<Rightarrow> manifest \<Rightarrow> state_paths \<Rightarrow> up_options \<Rightarrow> up_outcome \<Rightarrow> resolution \<Rightarrow>
     (u16 \<times> string) option \<Rightarrow> keeper_start \<Rightarrow> world \<Rightarrow> (up_error + up_outcome) \<times> world" where
  "launch_keeper H m paths opts outcome res proxy ks w =
     up_bind (case fs_write (sp_log paths) [] (w_fs w) of
         (r, fs) \<Rightarrow> (map_err (\<lambda>_. UpKeeper ''keeper log'') r, w\<lparr>w_fs := fs\<rparr>)) (\<lambda>_ w.
     (case uh_spawn_keeper H ks (spawn_env (uh_ambient H) (keeper_env m res proxy) (keeper_unset m res) ks) of
        Inl e \<Rightarrow> (Inl (UpKeeper e), w)
      | Inr pid \<Rightarrow> (case write_pidfile (uh_os H) (sp_pidfile paths) pid w of
          (Inl e, w) \<Rightarrow> (Inl (UpState e), w)
        | (Inr _, w) \<Rightarrow>
            if \<not> uh_responsive H then
              (Inl (UpKeeper ''keeper did not become responsive''), w)
            else activate_and_hooks H m (keeper_of H (ks_root ks) paths) res opts outcome w)))"

text \<open>The host key's private half and the client's public half, as handed to the keeper.\<close>

definition prepare_keys ::
  "key_lib \<Rightarrow> string option \<Rightarrow> state_paths \<Rightarrow> world \<Rightarrow> (up_error + (string \<times> string)) \<times> world" where
  "prepare_keys L home paths w = (case client_key_paths home of
      Inl e \<Rightarrow> (Inl (UpState e), w)
    | Inr (private_path, public_path) \<Rightarrow> (case ensure_client_keypair L private_path public_path (w_fs w) of
        (Inl e, fs) \<Rightarrow> (Inl (UpSsh (kl_show L e)), w\<lparr>w_fs := fs\<rparr>)
      | (Inr client, fs) \<Rightarrow> (case generate_host_key L (sp_ssh_host_key paths) fs of
          (Inl e, fs) \<Rightarrow> (Inl (UpSsh (kl_show L e)), w\<lparr>w_fs := fs\<rparr>)
        | (Inr host, fs) \<Rightarrow> (Inr (fst host, snd client), w\<lparr>w_fs := fs\<rparr>))))"

definition up_process ::
  "('c, 'e) up_host \<Rightarrow> manifest \<Rightarrow> string \<Rightarrow> state_paths \<Rightarrow> up_options \<Rightarrow> up_outcome \<Rightarrow> resolution \<Rightarrow> string \<Rightarrow>
     string list \<Rightarrow> (u16 \<times> string) option \<Rightarrow> world \<Rightarrow> (up_error + up_outcome) \<times> world" where
  "up_process H m root paths opts outcome res sh grants proxy w =
     (case from_name (provider (env m)) of
        Inl e \<Rightarrow> (Inl (UpProvider e), w)
      | Inr kind \<Rightarrow>
     let socket = (if opt_skip_hooks opts \<or> declared (res_services res) = [] then None
            else Some (socket_path root (sandbox_name m)));
         c = keeper_policy (uh_os H) m (static_name kind) (fs_parent (uh_exe H)) grants proxy socket;
         plan = to_capability_plan c in
     up_bind (case socket of None \<Rightarrow> (Inr (), w) | Some s \<Rightarrow> on_fs (create_dir_all (fs_parent s)) w) (\<lambda>_ w.
     (case to_capability_set (uh_nono H) (uh_paths H) plan root of
        None \<Rightarrow> (Inl (UpPolicy ''unreachable''), w)
      | Some (Inl e) \<Rightarrow> (Inl (UpPolicy (show_capability_set_error (uh_show_backend H) e)), w)
      | Some (Inr _) \<Rightarrow>
     up_bind (on_fs (fs_write (sp_profile paths) (uh_plan_json H plan)) w) (\<lambda>_ w.
     up_bind (on_fs (rebind (sp_socket paths)) w) (\<lambda>_ w.
     up_bind (on_fs (rebind (sp_ssh_socket paths)) w) (\<lambda>_ w.
     up_bind (prepare_keys (uh_keys H) (uh_home H) paths w) (\<lambda>(host_key, authorized_key) w.
     up_bind (prepare_services (uh_regular H) (uh_flox_services H root) (uh_pretty H) root
        (sandbox_name m) res sh opts w) (\<lambda>services w.
     let isolate = isolate_network c services proxy (uh_netns H);
         ks = \<lparr>ks_plan = uh_plan_json H plan, ks_host_key = host_key, ks_authorized_key = authorized_key,
               ks_shell = sh, ks_services = (if services then Some (sandbox_name m) else None), ks_root = root,
               ks_relay = (if isolate then map_option (\<lambda>(port, _). (port, sp_proxy_socket paths)) proxy else None),
               ks_isolate = isolate\<rparr> in
     launch_keeper H m paths opts outcome res proxy ks w))))))))"

definition fold_shell_grant :: "string option \<Rightarrow> string list \<Rightarrow> string list" where
  "fold_shell_grant g grants = (case g of None \<Rightarrow> grants
     | Some g \<Rightarrow> if List.member grants g then grants else grants @ [g])"

definition up_meta ::
  "string \<Rightarrow> string \<Rightarrow> string list \<Rightarrow> resolution \<Rightarrow> string \<Rightarrow> (u16 \<times> string) option \<Rightarrow> meta" where
  "up_meta root fp grants res sh proxy = \<lparr>project_root = root, env_fingerprint = fp,
     read_only_grants = grants, resolved_backend = ''process'',
     declared_services = map sd_name (declared (res_services res)),
     ran_activation_hook = res_ran_activation_hook res, meta_shell = Some sh,
     proxy_port = map_option fst proxy, proxy_token = map_option snd proxy\<rparr>"

text \<open>The part of \<open>up\<close> after the kind of start is known.\<close>

definition up_started ::
  "('c, 'e) up_host \<Rightarrow> manifest \<Rightarrow> string \<Rightarrow> state_paths \<Rightarrow> up_options \<Rightarrow> up_outcome \<Rightarrow> world \<Rightarrow>
     (up_error + up_outcome) \<times> world" where
  "up_started H m root paths opts outcome w =
     (case rbind (from_name (provider (env m))) (\<lambda>kind. uh_provider H kind root) of
        Inl e \<Rightarrow> (Inl (UpProvider e), w)
      | Inr res \<Rightarrow> (case manifest_fingerprint (uh_files H) (provider (env m)) root of
          Inl e \<Rightarrow> (Inl (UpProvider e), w)
        | Inr fp \<Rightarrow>
     up_bind (on_fs (create_dir_all (sp_root paths)) w) (\<lambda>_ w.
     up_bind (if wants_egress_proxy (compile (uh_os H) m)
              then (case ensure_egress_proxy (uh_os H) (uh_meta H) (uh_spawn_proxy H) paths (net_allow (network m)) w of
                      (r, w) \<Rightarrow> (map_sum id Some r, w))
              else (Inr None, stop_orphaned_egress_proxy (uh_os H) paths w)) (\<lambda>proxy w.
     (case uh_shell H (res_env res) of
        None \<Rightarrow> (Inl (UpProvider (ResolutionFailed (''no POSIX shell found in this environment or its closure, and devcroft needs one for '' @ [CHR 0x60] @ ''shell'' @ [CHR 0x60] @ '', SSH login sessions and services; add one to the environment manifest (e.g. '' @ [CHR 0x60] @ ''flox install bash'' @ [CHR 0x60] @ '')'' @ [CHR 0x0A] @ ''searched: the store entries on the resolved environment'' @ [CHR 0x27] @ ''s PATH, then their closure requisites''))), w)
      | Some (sh, shell_grant) \<Rightarrow>
     let grants = fold_shell_grant shell_grant (res_read_only_grants res) in
     up_bind (on_fs (write_meta (uh_meta H) (sp_meta paths) (up_meta root fp grants res sh proxy)) w) (\<lambda>_ w.
     up_process H m root paths opts outcome res sh grants proxy w))))))"

definition up :: "('c, 'e) up_host \<Rightarrow> manifest \<Rightarrow> string \<Rightarrow> up_options \<Rightarrow> world \<Rightarrow> (up_error + up_outcome) \<times> world" where
  "up H m dir opts w =
     (let root = uh_canonicalize H dir in
      case state_paths_new (uh_home H) (sandbox_name m) of
        Inl e \<Rightarrow> (Inl (UpState e), w)
      | Inr paths \<Rightarrow>
     up_bind (on_fs (acquire_lifecycle_lock (sp_lifecycle_lock paths)) w) (\<lambda>_ w.
     up_bind (begin_up (uh_os H) paths opts w) (\<lambda>outcome w.
     if outcome = AlreadyUp then (Inr AlreadyUp, w)
     else up_started H m root paths opts outcome w)))"

text \<open>What \<open>policy --render\<close> and \<open>why\<close> show (\<open>src/bin/devcroft.rs\<close>): the compiled manifest with what the
  last \<open>up\<close> recorded.\<close>

definition provider_static_name :: "string \<Rightarrow> string" where
  "provider_static_name name = (case from_name name of Inr kind \<Rightarrow> static_name kind | Inl _ \<Rightarrow> ''unknown'')"

definition compile_with_provider_grants ::
  "target_os \<Rightarrow> meta_lib \<Rightarrow> string option \<Rightarrow> fs \<Rightarrow> manifest \<Rightarrow> compiled_policy" where
  "compile_with_provider_grants os L home fs m =
     (let c = compile os m in
      case state_paths_new home (sandbox_name m) of
        Inl _ \<Rightarrow> c
      | Inr paths \<Rightarrow> (case read_meta L fs (sp_meta paths) of
          Inr (Some meta) \<Rightarrow>
            let c = with_provider_grants (provider_static_name (provider (env m))) (read_only_grants meta) c;
                c = (case proxy_port meta of Some port \<Rightarrow> with_proxy_port port c | None \<Rightarrow> c)
            in if declared_services meta = [] then c
               else with_services_socket_grant (provider_static_name (provider (env m)))
                      (socket_path (project_root meta) (sandbox_name m)) c
        | _ \<Rightarrow> c))"

section \<open>Lemmas: the environment\<close>

lemma env_remove_get: "bt_wf e \<Longrightarrow> bt_get (env_remove k e) k' = (if k' = k then None else bt_get e k')"
  by (auto simp: env_remove_def bt_get_filter split: option.splits)

lemma env_remove_wf: "bt_wf e \<Longrightarrow> bt_wf (env_remove k e)"
  by (simp add: env_remove_def bt_filter_wf)

lemma foldl_env_remove:
  "bt_wf e \<Longrightarrow> bt_wf (foldl (\<lambda>e k. env_remove k e) e ks)
     \<and> bt_get (foldl (\<lambda>e k. env_remove k e) e ks) k' = (if k' \<in> set ks then None else bt_get e k')"
  by (induction ks arbitrary: e) (auto simp: env_remove_get env_remove_wf)

definition devcroft_vars :: "string list" where
  "devcroft_vars = [''DEVCROFT_CAPABILITY_PLAN'', ''DEVCROFT_SSH_HOST_KEY'', ''DEVCROFT_SSH_AUTHORIZED_KEY'',
     ''DEVCROFT_SHELL'', ''DEVCROFT_START_SERVICES'', ''DEVCROFT_SANDBOX_NAME'', ''DEVCROFT_SERVICES_ROOT'',
     ''DEVCROFT_PROXY_RELAY_PORT'', ''DEVCROFT_PROXY_SOCKET'']"

lemma map_of_distinct_rev: "distinct (map fst kvs) \<Longrightarrow> map_of (rev kvs) = map_of kvs"
  by (rule map_of_eqI) (auto simp: map_of_eq_Some_iff rev_map [symmetric])

text \<open>
  C5: which layer wins in the keeper's environment: for a variable devcroft does not reserve, an
  unset request of the provider that the manifest does not override, then the proxy variables,
  then the manifest, then the provider, then whatever \<open>up\<close> itself inherited; and the plan the
  keeper restricts itself with cannot be overridden by any of them.
\<close>

theorem keeper_env_precedence:
  assumes "bt_wf ambient" and "bt_wf (res_env res)" and "bt_wf (vars (env m))"
    and "k \<notin> set devcroft_vars"
  shows "bt_get (spawn_env ambient (keeper_env m res proxy) (keeper_unset m res) ks) k =
      (if k \<in> set (res_unset res) \<and> bt_get (vars (env m)) k = None then None
       else case (case proxy of None \<Rightarrow> None | Some p \<Rightarrow> map_of (proxy_env p) k) of
         Some v \<Rightarrow> Some v
       | None \<Rightarrow> (case bt_get (vars (env m)) k of
           Some v \<Rightarrow> Some v
         | None \<Rightarrow> (case bt_get (res_env res) k of Some v \<Rightarrow> Some v | None \<Rightarrow> bt_get ambient k)))
    \<and> bt_get (spawn_env ambient (keeper_env m res proxy) (keeper_unset m res) ks) ''DEVCROFT_CAPABILITY_PLAN'' =
        Some (ks_plan ks)"
proof -
  let ?own = "[(''DEVCROFT_CAPABILITY_PLAN'', ks_plan ks), (''DEVCROFT_SSH_HOST_KEY'', ks_host_key ks),
      (''DEVCROFT_SSH_AUTHORIZED_KEY'', ks_authorized_key ks), (''DEVCROFT_SHELL'', ks_shell ks),
      (''DEVCROFT_START_SERVICES'', if ks_services ks \<noteq> None then ''1'' else ''0''),
      (''DEVCROFT_SANDBOX_NAME'', case ks_services ks of None \<Rightarrow> [] | Some n \<Rightarrow> n),
      (''DEVCROFT_SERVICES_ROOT'', ks_root ks)]
     @ (case ks_relay ks of None \<Rightarrow> []
        | Some (port, sock) \<Rightarrow> [(''DEVCROFT_PROXY_RELAY_PORT'', show_nat (unat port)), (''DEVCROFT_PROXY_SOCKET'', sock)])"
  let ?base = "foldl (\<lambda>e k. env_remove k e) (bt_extend ambient (keeper_env m res proxy)) (keeper_unset m res)"
  have wf: "bt_wf (keeper_env m res proxy)"
    using assms(2) by (simp add: keeper_env_def bt_extend_wf)
  note base = foldl_env_remove [OF bt_extend_wf [OF assms(1)], of "keeper_env m res proxy" "keeper_unset m res"]
  have own: "map_of (rev ?own) k = None" "map_of (rev ?own) ''DEVCROFT_CAPABILITY_PLAN'' = Some (ks_plan ks)"
    using assms(4) by (auto simp: devcroft_vars_def split: option.splits)
  have get: "bt_get (spawn_env ambient (keeper_env m res proxy) (keeper_unset m res) ks) x =
      (case map_of (rev ?own) x of Some v \<Rightarrow> Some v | None \<Rightarrow> bt_get ?base x)" for x
    unfolding spawn_env_def using base by (subst bt_get_extend) (simp_all add: map_add_def)
  have "map_of (rev (case proxy of None \<Rightarrow> [] | Some p \<Rightarrow> proxy_env p)) k =
      (case proxy of None \<Rightarrow> None | Some p \<Rightarrow> map_of (proxy_env p) k)"
    by (cases proxy) (auto simp: proxy_env_def Let_def map_of_distinct_rev split: prod.splits)
  moreover have "map_of (rev kvs) = map_of kvs" if "bt_wf kvs" for kvs :: "(string, string) btmap"
    using bt_wf_distinct [OF that] by (rule map_of_distinct_rev)
  ultimately have "bt_get (bt_extend ambient (keeper_env m res proxy)) k =
      (case (case proxy of None \<Rightarrow> None | Some p \<Rightarrow> map_of (proxy_env p) k) of
         Some v \<Rightarrow> Some v
       | None \<Rightarrow> (case bt_get (vars (env m)) k of
           Some v \<Rightarrow> Some v
         | None \<Rightarrow> (case bt_get (res_env res) k of Some v \<Rightarrow> Some v | None \<Rightarrow> bt_get ambient k)))"
    using assms wf
    by (auto simp: bt_get_extend keeper_env_def bt_extend_wf map_add_def split: option.splits)
  moreover have "k \<in> set (keeper_unset m res) \<longleftrightarrow> k \<in> set (res_unset res) \<and> bt_get (vars (env m)) k = None"
    by (auto simp: keeper_unset_def bt_contains_def)
  moreover have "bt_get ?base k = (if k \<in> set (keeper_unset m res) then None
      else bt_get (bt_extend ambient (keeper_env m res proxy)) k)"
    using base by blast
  ultimately show ?thesis unfolding get own by (simp only: option.case simp_thms)
qed

definition sample_resolution :: resolution where
  "sample_resolution = \<lparr>res_env = [(''PATH'', ''/nix/store/x/bin'')], res_unset = [''LANG''],
     res_read_only_grants = [''/nix/store/x''], res_activation_script = Some ''setup'',
     res_services = Unsupported, res_ran_activation_hook = False\<rparr>"

definition sample_keeper_start :: keeper_start where
  "sample_keeper_start = \<lparr>ks_plan = ''{}'', ks_host_key = ''h'', ks_authorized_key = ''a'',
     ks_shell = ''/nix/store/x/bin/sh'', ks_services = None, ks_root = ''/p'', ks_relay = None, ks_isolate = False\<rparr>"

theorem keeper_env_precedence_witness:
  "bt_get (spawn_env [(''LANG'', ''C''), (''PATH'', ''/bin'')]
      (keeper_env sample_manifest sample_resolution (Some (8080, ''tok'')))
      (keeper_unset sample_manifest sample_resolution) sample_keeper_start) ''PATH'' = Some ''/nix/store/x/bin''"
proof -
  have "bt_wf [(''LANG'', ''C''), (''PATH'', ''/bin'')]" "bt_wf (res_env sample_resolution)"
    "bt_wf (vars (env sample_manifest))" "''PATH'' \<notin> set devcroft_vars"
    by code_simp+
  note keeper_env_precedence [OF this, of "Some (8080, ''tok'')" sample_keeper_start, THEN conjunct1]
  moreover have "bt_get (vars (env sample_manifest)) ''PATH'' = None"
    "bt_get (res_env sample_resolution) ''PATH'' = Some ''/nix/store/x/bin''"
    "List.member (res_unset sample_resolution) ''PATH'' = False"
    by code_simp+
  moreover have "map_of (proxy_env (8080, ''tok'')) ''PATH'' = None" by (simp add: proxy_env_def Let_def)
  ultimately show ?thesis by simp
qed

section \<open>Lemmas: the policy\<close>

text \<open>
  What \<open>policy --render\<close> and \<open>why\<close> are computed from, once \<open>up\<close> has recorded its metadata, is
  the policy the keeper was given except for two things: the keeper's own executable directory is
  missing from it, and after an \<open>up\<close> that skipped the services it still contains their socket.
\<close>

theorem rendered_policy_versus_keeper_policy:
  assumes "state_paths_new home (sandbox_name m) = Inr paths"
    and "read_meta L fs (sp_meta paths) = Inr (Some (up_meta root fp grants res sh proxy))"
    and "from_name (provider (env m)) = Inr kind"
  shows "keeper_policy os m (static_name kind) exe_dir grants proxy
      (if skip \<or> declared (res_services res) = [] then None else Some (socket_path root (sandbox_name m)))
    = (compile_with_provider_grants os L home fs m)
       \<lparr>filesystem_read := filesystem_read (compile os m) @ [annotated exe_dir Baseline]
          @ map (\<lambda>g. annotated g (Provider (static_name kind))) grants,
        unix_socket_bind := (if skip then [] else unix_socket_bind (compile_with_provider_grants os L home fs m))\<rparr>
    \<and> filesystem_read (compile_with_provider_grants os L home fs m) =
        filesystem_read (compile os m) @ map (\<lambda>g. annotated g (Provider (static_name kind))) grants"
  using assms
  by (cases proxy)
     (auto simp: compile_with_provider_grants_def keeper_policy_def provider_static_name_def policy_folds
       up_meta_def Let_def)

definition sample_up_meta_lib :: meta_lib where
  "sample_up_meta_lib = \<lparr>meta_to_string = (\<lambda>_. Inr []),
     meta_from_str = (\<lambda>_. Inr (up_meta ''/p'' ''fp'' [''/nix/store/x''] sample_resolution ''/nix/store/x/bin/sh'' None))\<rparr>"

theorem rendered_policy_versus_keeper_policy_witness:
  "filesystem_read (compile_with_provider_grants Linux sample_up_meta_lib (Some ''/h'')
      [(''/h/.local/share/devcroft/web/meta.json'', FileNode [])] (sample_manifest\<lparr>sandbox_name := ''web''\<rparr>)) =
    filesystem_read (compile Linux (sample_manifest\<lparr>sandbox_name := ''web''\<rparr>))
    @ [annotated ''/nix/store/x'' (Provider ''nix'')]"
proof -
  let ?m = "sample_manifest\<lparr>sandbox_name := ''web''\<rparr>"
  have "state_paths_new (Some ''/h'') (sandbox_name ?m) = Inr (projr (state_paths_new (Some ''/h'') ''web''))"
    using sample_state_paths by simp
  moreover have meta: "sp_meta (projr (state_paths_new (Some ''/h'') ''web'')) = ''/h/.local/share/devcroft/web/meta.json''"
    by code_simp
  have "read_meta sample_up_meta_lib [(''/h/.local/share/devcroft/web/meta.json'', FileNode [])]
      (sp_meta (projr (state_paths_new (Some ''/h'') ''web''))) =
      Inr (Some (up_meta ''/p'' ''fp'' [''/nix/store/x''] sample_resolution ''/nix/store/x/bin/sh'' None))"
    unfolding meta by (simp add: read_meta_def read_to_string_def sample_up_meta_lib_def)
  moreover have "from_name (provider (env ?m)) = Inr Nix" by code_simp
  ultimately show ?thesis
    using rendered_policy_versus_keeper_policy [of "Some ''/h''" ?m, THEN conjunct2] by simp
qed

section \<open>Lemmas: starting over\<close>

lemma read_pidfile_removed:
  "(\<nexists>s. map_of fs p = Some (FileNode s)) \<Longrightarrow> read_pidfile fs p \<in> {Inr None, Inl OtherError}"
  by (auto simp: read_pidfile_def read_to_string_def split: option.splits fs_node.splits)


lemma sample_recovery:
  "begin_up Linux (projr (state_paths_new (Some ''/h'') ''web'')) \<lparr>opt_recreate = False, opt_skip_hooks = False\<rparr>
     (sample_state\<lparr>w_view := \<lambda>_. sample_view\<lparr>pv_stat := \<lambda>_. None\<rparr>\<rparr>) =
   (Inr Recovered, snd (begin_up Linux (projr (state_paths_new (Some ''/h'') ''web''))
     \<lparr>opt_recreate = False, opt_skip_hooks = False\<rparr> (sample_state\<lparr>w_view := \<lambda>_. sample_view\<lparr>pv_stat := \<lambda>_. None\<rparr>\<rparr>)))"
proof -
  have pidfile: "sp_pidfile (projr (state_paths_new (Some ''/h'') ''web'')) = ''/h/.local/share/devcroft/web/keeper.pid''"
    by code_simp
  have words: "split_whitespace ''42 777'' = [''42'', ''777'']" by code_simp
  have "parse_i32 ''42'' = Some 42" "parse_u64 ''777'' = Some 777"
    by (simp_all add: parse_i32_def parse_u64_def parse_unsigned_def is_ascii_digit_def)
  then have "read_pidfile (w_fs sample_state) ''/h/.local/share/devcroft/web/keeper.pid'' = Inr (Some (42, 777))"
    by (simp add: read_pidfile_def read_to_string_def sample_state_def parse_pidfile_def words)
  then show ?thesis
    by (simp add: begin_up_def health_of_def pidfile result_simps is_same_process_def)
qed


section \<open>Lemmas: the project-supplied commands\<close>

text \<open>The commands a start of the given kind runs, in order.\<close>

definition project_commands :: "manifest \<Rightarrow> resolution \<Rightarrow> up_options \<Rightarrow> up_outcome \<Rightarrow> (string \<times> string) list" where
  "project_commands m res opts outcome =
     (if opt_skip_hooks opts then []
      else (case res_activation_script res of None \<Rightarrow> [] | Some c \<Rightarrow> [(''activation'', c)])
         @ (if outcome = Started \<or> outcome = Recreated
            then (case post_create (hooks m) of None \<Rightarrow> [] | Some c \<Rightarrow> [(''post_create'', c)]) else [])
         @ (case post_start (hooks m) of None \<Rightarrow> [] | Some c \<Rightarrow> [(''post_start'', c)]))"

definition opt_command :: "string \<Rightarrow> string option \<Rightarrow> (string \<times> string) list" where
  "opt_command name cmd = (case cmd of None \<Rightarrow> [] | Some c \<Rightarrow> [(name, c)])"

text \<open>A step that runs a prefix of a list of commands, all of them if it succeeds.\<close>

definition runs :: "(string \<times> string) list \<Rightarrow> world \<Rightarrow> ('e + 'a) \<times> world \<Rightarrow> bool" where
  "runs cmds w r \<longleftrightarrow> (\<exists>ran. w_ran (snd r) = w_ran w @ ran \<and> prefix ran cmds \<and> (\<not> isl (fst r) \<longrightarrow> ran = cmds))"

lemma runs_optional: "runs (opt_command name cmd) w (run_optional K name cmd w)"
proof (cases cmd)
  case None
  then show ?thesis by (simp add: runs_def opt_command_def run_optional_def)
next
  case (Some c)
  then show ?thesis
    using run_one_ran [of K name c w]
    by (auto simp: runs_def opt_command_def run_optional_def)
qed

lemma runs_nothing: "w_ran w' = w_ran w \<Longrightarrow> runs [] w (r, w')"
  by (simp add: runs_def)

lemma runs_seq:
  assumes "runs cs w r" and "\<And>a w'. r = (Inr a, w') \<Longrightarrow> runs ds w' (f a w')"
    and "\<And>e w'. r = (Inl e, w') \<Longrightarrow> g e w' = (Inl (h e), w')"
  shows "runs (cs @ ds) w (case r of (Inl e, w') \<Rightarrow> g e w' | (Inr a, w') \<Rightarrow> f a w')"
proof -
  obtain x w' where r: "r = (x, w')" by fastforce
  obtain ran where ran: "w_ran w' = w_ran w @ ran" "prefix ran cs" "\<not> isl x \<longrightarrow> ran = cs"
    using assms(1) by (auto simp: runs_def r)
  show ?thesis
  proof (cases x)
    case (Inl e)
    then show ?thesis using assms(3) r ran by (auto simp: runs_def)
  next
    case (Inr a)
    then have "runs ds w' (f a w')" using assms(2) r by simp
    then show ?thesis using ran r Inr by (auto simp: runs_def)
  qed
qed

lemma runs_up_bind:
  "runs cs w r \<Longrightarrow> (\<And>a w'. r = (Inr a, w') \<Longrightarrow> runs ds w' (f a w')) \<Longrightarrow> runs (cs @ ds) w (up_bind r f)"
  unfolding up_bind_def by (rule runs_seq) auto

lemma runs_map_err: "runs cs w r \<Longrightarrow> runs cs w (case r of (x, w') \<Rightarrow> (map_err F x, w'))"
  by (auto simp: runs_def map_err_def split: prod.splits sum.splits)

lemma runs_hooks:
  "runs ((if pc then opt_command ''post_create'' (post_create hs) else []) @ opt_command ''post_start'' (post_start hs))
     w (run_hooks K hs pc w)"
  unfolding run_hooks_def
  by (rule runs_seq) (auto simp: runs_optional runs_nothing)

lemma runs_activate_and_hooks:
  "runs (project_commands m res opts outcome) w (activate_and_hooks H m K res opts outcome w)"
proof -
  let ?act = "if opt_skip_hooks opts then [] else opt_command ''activation'' (res_activation_script res)"
  let ?hooks = "if opt_skip_hooks opts then [] else
      (if outcome = Started \<or> outcome = Recreated then opt_command ''post_create'' (post_create (hooks m)) else [])
      @ opt_command ''post_start'' (post_start (hooks m))"
  have act: "runs ?act w (case res_activation_script res of
         Some script \<Rightarrow>
           if \<not> opt_skip_hooks opts then
             (case run_activation_script K script w of
                (r, w) \<Rightarrow> (map_err (UpKeeper \<circ> show_hook_error (uh_show_fs H) (uh_show_io H)) r, w))
           else (Inr (), w)
       | None \<Rightarrow> (Inr (), w))"
  proof (cases "res_activation_script res")
    case (Some c)
    have "runs (opt_command ''activation'' (Some c)) w (run_activation_script K c w)"
      using runs_optional [of "''activation''" "Some c" w K]
      by (simp add: run_optional_def run_activation_script_def)
    then show ?thesis using Some by (simp add: runs_map_err runs_nothing)
  qed (simp add: runs_nothing opt_command_def)
  have "runs (?act @ ?hooks @ []) w (activate_and_hooks H m K res opts outcome w)"
    unfolding activate_and_hooks_def
    by (intro runs_up_bind act)
       (auto simp: runs_nothing intro!: runs_map_err runs_hooks [where pc = True, simplified]
         runs_hooks [where pc = False, simplified])
  moreover have "?act @ ?hooks @ [] = project_commands m res opts outcome"
    by (simp add: project_commands_def opt_command_def)
  ultimately show ?thesis by simp
qed

lemma on_fs_ran [simp]: "w_ran (snd (on_fs f w)) = w_ran w"
  by (simp add: on_fs_def split: prod.splits)

lemma terminate_and_wait_ran [simp]: "w_ran (terminate_and_wait os pidfile grace w) = w_ran w"
  by (rule terminate_and_wait_log [of os pidfile grace w]) simp

lemma begin_up_ran [simp]: "w_ran (snd (begin_up os paths opts w)) = w_ran w"
  by (auto simp: begin_up_def Let_def split: sum.splits health.splits)

lemma write_pidfile_ran [simp]: "w_ran (snd (write_pidfile os path pid w)) = w_ran w"
  by (auto simp: write_pidfile_def split: sum.splits prod.splits)

lemma ensure_egress_proxy_ran [simp]: "w_ran (snd (ensure_egress_proxy os L spawn paths allow w)) = w_ran w"
  using write_pidfile_ran
  by (fastforce simp: ensure_egress_proxy_def split: sum.splits prod.splits option.splits
      dest: arg_cong [where f = "\<lambda>x. w_ran (snd x)"])

lemma stop_orphaned_egress_proxy_ran [simp]: "w_ran (stop_orphaned_egress_proxy os paths w) = w_ran w"
  by (simp add: stop_orphaned_egress_proxy_def Let_def)

lemma up_bind_ran:
  "w_ran (snd r) = n \<Longrightarrow> (\<And>a w'. r = (Inr a, w') \<Longrightarrow> w_ran w' = n \<Longrightarrow> w_ran (snd (f a w')) = n) \<Longrightarrow>
   w_ran (snd (up_bind r f)) = n"
  by (auto simp: up_bind_def split: prod.splits sum.splits)

lemma prepare_services_ran [simp]:
  "w_ran (snd (prepare_services isf fl ct root name res sh opts w)) = w_ran w"
  by (auto simp: prepare_services_def Let_def split: sum.splits intro!: up_bind_ran)

lemma prepare_keys_ran [simp]: "w_ran (snd (prepare_keys L home paths w)) = w_ran w"
  by (simp add: prepare_keys_def split: sum.split prod.split)

text \<open>A run of \<open>up\<close> that sends no command, or that reaches the hooks having sent none.\<close>

lemma runs_quiet_bind:
  assumes "w_ran (snd r) = w_ran w" and "\<And>a w'. r = (Inr a, w') \<Longrightarrow> w_ran w' = w_ran w \<Longrightarrow> runs cs w (f a w')"
  shows "runs cs w (up_bind r f)"
  using assms by (auto simp: up_bind_def runs_def split: prod.splits sum.splits)

lemma runs_fail: "w_ran w' = w_ran w \<Longrightarrow> runs cs w (Inl e, w')"
  by (simp add: runs_def)

lemma runs_world: "runs cs w' r \<Longrightarrow> w_ran w' = w_ran w \<Longrightarrow> runs cs w r"
  by (simp add: runs_def)

lemma write_pidfile_ranD: "write_pidfile os path pid w = (r, w') \<Longrightarrow> w_ran w' = w_ran w"
  using write_pidfile_ran [of os path pid w] by simp

lemma runs_launch_keeper:
  "runs (project_commands m res opts outcome) w (launch_keeper H m paths opts outcome res proxy ks w)"
  unfolding launch_keeper_def
  by (auto intro!: runs_quiet_bind runs_fail runs_world [OF runs_activate_and_hooks]
      dest!: write_pidfile_ranD split: sum.split prod.split)

lemma runs_up_process:
  "runs (project_commands m res opts outcome) w (up_process H m root paths opts outcome res sh grants proxy w)"
proof (cases "from_name (provider (env m))")
  case (Inl e)
  then show ?thesis by (simp add: up_process_def runs_fail)
next
  case (Inr kind)
  note launch = runs_world [OF runs_launch_keeper]
  show ?thesis
    unfolding up_process_def Inr sum.case Let_def
    by (rule runs_quiet_bind, simp split: option.split)
       (auto intro!: runs_quiet_bind runs_fail launch split: sum.split option.split prod.split)
qed

text \<open>A step that can only succeed with the given result.\<close>

definition gives :: "'a \<Rightarrow> ('e + 'a) \<times> world \<Rightarrow> bool" where
  "gives x r \<longleftrightarrow> (case fst r of Inr y \<Rightarrow> y = x | Inl _ \<Rightarrow> True)"

lemma gives_bind: "(\<And>a w'. r = (Inr a, w') \<Longrightarrow> gives x (f a w')) \<Longrightarrow> gives x (up_bind r f)"
  by (auto simp: up_bind_def gives_def split: prod.splits sum.splits)

lemma gives_simps [simp]: "gives x (Inl e, w)" "gives x (Inr y, w) \<longleftrightarrow> y = x"
  by (auto simp: gives_def)

lemma gives_activate_and_hooks: "gives outcome (activate_and_hooks H m K res opts outcome w)"
  unfolding activate_and_hooks_def by (intro gives_bind) simp

lemma gives_launch_keeper: "gives outcome (launch_keeper H m paths opts outcome res proxy ks w)"
  unfolding launch_keeper_def
  by (auto intro!: gives_bind gives_activate_and_hooks split: sum.split prod.split)

lemma gives_up_process: "gives outcome (up_process H m root paths opts outcome res sh grants proxy w)"
  unfolding up_process_def Let_def
  by (cases "from_name (provider (env m))")
     (auto intro!: gives_bind gives_launch_keeper split: sum.split option.split prod.split)

lemma gives_up_started: "gives outcome (up_started H m root paths opts outcome w)"
  unfolding up_started_def Let_def
  by (auto intro!: gives_bind gives_up_process split: sum.split option.split prod.split)

lemma ensure_proxy_ran_case:
  "w_ran (snd (case ensure_egress_proxy os L spawn paths allow w of (r, w) \<Rightarrow> (map_sum id Some r, w))) = w_ran w"
proof -
  obtain r w' where eq: "ensure_egress_proxy os L spawn paths allow w = (r, w')" by fastforce
  have "w_ran w' = w_ran w" using ensure_egress_proxy_ran [of os L spawn paths allow w] unfolding eq snd_conv .
  then show ?thesis unfolding eq by simp
qed

lemma runs_up_started:
  assumes "rbind (from_name (provider (env m))) (\<lambda>kind. uh_provider H kind root) = Inr res"
  shows "runs (project_commands m res opts outcome) w (up_started H m root paths opts outcome w)"
  unfolding up_started_def assms sum.case Let_def
  by (auto intro!: runs_quiet_bind runs_fail runs_world [OF runs_up_process] simp: ensure_proxy_ran_case
      split: sum.split option.split)

lemma up_cases:
  obtains (failed) e w' where "up H m dir opts w = (Inl e, w')" "w_ran w' = w_ran w"
  | (already) w' where "up H m dir opts w = (Inr AlreadyUp, w')" "w_ran w' = w_ran w"
  | (started) paths fs outcome w1 res where
      "state_paths_new (uh_home H) (sandbox_name m) = Inr paths"
      "acquire_lifecycle_lock (sp_lifecycle_lock paths) (w_fs w) = (Inr (), fs)"
      "begin_up (uh_os H) paths opts (w\<lparr>w_fs := fs\<rparr>) = (Inr outcome, w1)" "outcome \<noteq> AlreadyUp"
      "rbind (from_name (provider (env m))) (\<lambda>kind. uh_provider H kind (uh_canonicalize H dir)) = Inr res"
      "up H m dir opts w = up_started H m (uh_canonicalize H dir) paths opts outcome w1" "w_ran w1 = w_ran w"
proof (cases "state_paths_new (uh_home H) (sandbox_name m)")
  case (Inl e)
  then show ?thesis using failed by (simp add: up_def Let_def)
next
  case paths: (Inr paths)
  obtain r fs where lock: "acquire_lifecycle_lock (sp_lifecycle_lock paths) (w_fs w) = (r, fs)" by fastforce
  obtain o' w1 where start: "begin_up (uh_os H) paths opts (w\<lparr>w_fs := fs\<rparr>) = (o', w1)" by fastforce
  have ran: "w_ran w1 = w_ran w"
    using begin_up_ran [of "uh_os H" paths opts "w\<lparr>w_fs := fs\<rparr>"] start by simp
  have up: "up H m dir opts w = (case r of Inl e \<Rightarrow> (Inl (UpState e), w\<lparr>w_fs := fs\<rparr>)
      | Inr _ \<Rightarrow> (case o' of Inl e \<Rightarrow> (Inl e, w1)
        | Inr outcome \<Rightarrow> if outcome = AlreadyUp then (Inr AlreadyUp, w1)
            else up_started H m (uh_canonicalize H dir) paths opts outcome w1))"
    by (auto simp: up_def Let_def paths on_fs_def lock start up_bind_def map_err_def split: sum.splits)
  show ?thesis
  proof (cases r)
    case (Inl e)
    then show ?thesis using failed up by simp
  next
    case locked: (Inr u)
    show ?thesis
    proof (cases o')
      case (Inl e)
      then show ?thesis using failed up locked ran by simp
    next
      case outcome: (Inr outcome)
      show ?thesis
      proof (cases "outcome = AlreadyUp")
        case True
        then show ?thesis using already up locked outcome ran by simp
      next
        case False
        then have eq: "up H m dir opts w = up_started H m (uh_canonicalize H dir) paths opts outcome w1"
          using up locked outcome by simp
        show ?thesis
        proof (cases "rbind (from_name (provider (env m))) (\<lambda>kind. uh_provider H kind (uh_canonicalize H dir))")
          case (Inl e)
          then show ?thesis using failed eq ran by (simp add: up_started_def)
        next
          case (Inr res)
          show ?thesis
            by (rule started [OF paths _ _ False Inr eq ran]) (use lock locked start outcome in auto)
        qed
      qed
    qed
  qed
qed

lemma already_up_begins:
  assumes "up H m dir opts w = (Inr AlreadyUp, w')" and "state_paths_new (uh_home H) (sandbox_name m) = Inr paths"
  obtains fs where "acquire_lifecycle_lock (sp_lifecycle_lock paths) (w_fs w) = (Inr (), fs)"
    and "begin_up (uh_os H) paths opts (w\<lparr>w_fs := fs\<rparr>) = (Inr AlreadyUp, w')"
proof -
  obtain r fs where lock: "acquire_lifecycle_lock (sp_lifecycle_lock paths) (w_fs w) = (r, fs)" by fastforce
  obtain o' w1 where start: "begin_up (uh_os H) paths opts (w\<lparr>w_fs := fs\<rparr>) = (o', w1)" by fastforce
  have "outcome = AlreadyUp" if "up_started H m (uh_canonicalize H dir) paths opts outcome w1 = (Inr AlreadyUp, w')"
    for outcome
    using gives_up_started [of outcome H m "uh_canonicalize H dir" paths opts w1] that by (simp add: gives_def)
  then show ?thesis
    using assms that lock start
    by (auto simp: up_def Let_def on_fs_def up_bind_def map_err_def split: sum.splits if_splits)
qed

text \<open>
  C3: the project-supplied commands \<open>up\<close> sends to the keeper. An \<open>up\<close> that finds the sandbox running
  sends none; one that succeeds has sent exactly the activation script, \<open>post_create\<close> if the start
  is a first or a recreated one, and \<open>post_start\<close>, in this order and once each, or nothing at all
  under \<open>--skip-hooks\<close>; one that fails has sent an initial part of that list.
\<close>

theorem up_runs_project_commands:
  "\<exists>ran. w_ran (snd (up H m dir opts w)) = w_ran w @ ran \<and>
     (case fst (up H m dir opts w) of
        Inl e \<Rightarrow> ran = [] \<or> (\<exists>res outcome.
          rbind (from_name (provider (env m))) (\<lambda>kind. uh_provider H kind (uh_canonicalize H dir)) = Inr res
          \<and> outcome \<noteq> AlreadyUp \<and> prefix ran (project_commands m res opts outcome))
      | Inr outcome \<Rightarrow> if outcome = AlreadyUp then ran = [] else (\<exists>res.
          rbind (from_name (provider (env m))) (\<lambda>kind. uh_provider H kind (uh_canonicalize H dir)) = Inr res
          \<and> ran = project_commands m res opts outcome))"
proof (rule up_cases [of H m dir opts w], goal_cases)
  case (3 paths fs outcome w1 res)
  from runs_up_started [OF 3(5), of opts outcome w1 paths] obtain ran where
    ran: "w_ran (snd (up H m dir opts w)) = w_ran w @ ran" "prefix ran (project_commands m res opts outcome)"
      "\<not> isl (fst (up H m dir opts w)) \<longrightarrow> ran = project_commands m res opts outcome"
    by (auto simp: runs_def 3)
  have "gives outcome (up H m dir opts w)" unfolding 3(6) by (rule gives_up_started)
  then show ?case
    using ran 3(4,5) by (intro exI [of _ ran]) (auto simp: gives_def split: sum.splits)
qed auto

lemma down_then_begin_up:
  assumes "state_paths_new home name = Inr paths" and "down os home name w = (Inr (), w1)"
    and "acquire_lifecycle_lock (sp_lifecycle_lock paths) (w_fs w1) = (Inr (), fs)"
    and "begin_up os' paths opts (w1\<lparr>w_fs := fs\<rparr>) = (Inr outcome, w2)"
  shows "outcome = Started \<or> outcome = Recreated"
proof -
  have "sp_pidfile paths \<in> set (runtime_files paths)" "sp_pidfile paths \<in> set (state_files paths)"
    by (simp_all add: runtime_files_def state_files_def)
  then have "\<nexists>s. map_of fs (sp_pidfile paths) = Some (FileNode s)"
    using down_clears [OF assms(1,2)] acquire_lock_get [OF assms(3)] state_file_not_lock [OF assms(1)] by metis
  then have "read_pidfile fs (sp_pidfile paths) \<in> {Inr None, Inl OtherError}"
    by (rule read_pidfile_removed)
  then show ?thesis
    using assms(4) by (auto simp: begin_up_def health_of_def Let_def result_simps split: if_splits)
qed

text \<open>
  An \<open>up\<close> that succeeds right after a successful \<open>down\<close> is a first start again: \<open>post_create\<close>, if
  the manifest has one, is sent once more, although the sandbox's state was kept and the
  comments promise it to run only after the first \<open>up\<close> or a recreation.
\<close>

theorem up_after_down_reruns_post_create:
  assumes "state_paths_new (uh_home H) (sandbox_name m) = Inr paths"
    and "down os (uh_home H) (sandbox_name m) w = (Inr (), w1)"
    and "up H m dir opts w1 = (Inr outcome, w2)"
    and "post_create (hooks m) = Some cmd" and "\<not> opt_skip_hooks opts"
  shows "(outcome = Started \<or> outcome = Recreated) \<and>
    (\<exists>before after. w_ran w2 = w_ran w1 @ before @ (''post_create'', cmd) # after)"
proof (rule up_cases [of H m dir opts w1], goal_cases)
  case (2 w')
  obtain fs where lock: "acquire_lifecycle_lock (sp_lifecycle_lock paths) (w_fs w1) = (Inr (), fs)"
    and start: "begin_up (uh_os H) paths opts (w1\<lparr>w_fs := fs\<rparr>) = (Inr AlreadyUp, w')"
    using already_up_begins [OF 2(1) assms(1)] by blast
  show ?case using down_then_begin_up [OF assms(1,2) lock start] by simp
next
  case (3 paths' fs outcome' w' res)
  then have paths': "paths' = paths" using assms(1) by simp
  have kind: "outcome' = Started \<or> outcome' = Recreated"
    using down_then_begin_up [OF assms(1,2)] 3(2,3) unfolding paths' by blast
  have "gives outcome' (up H m dir opts w1)" unfolding 3(6) by (rule gives_up_started)
  then have outcome: "outcome' = outcome" by (simp add: gives_def assms(3))
  have "w_ran w2 = w_ran w1 @ project_commands m res opts outcome"
    using runs_up_started [OF 3(5), of opts outcome' w' paths'] assms(3)
    by (auto simp: runs_def 3(6,7) outcome)
  moreover have "project_commands m res opts outcome =
      opt_command ''activation'' (res_activation_script res)
      @ (''post_create'', cmd) # opt_command ''post_start'' (post_start (hooks m))"
    using kind assms(4,5) unfolding outcome by (simp add: project_commands_def opt_command_def)
  ultimately show ?case using kind unfolding outcome by metis
qed (use assms(3) in simp)

text \<open>A host on which everything succeeds.\<close>

definition sample_key_lib :: key_lib where
  "sample_key_lib = \<lparr>kl_read = (\<lambda>_. Inr (''k'', ''a'')), kl_fresh_client = Inr (''k'', ''a''), kl_fresh_host = Inr (''h'', ''p''),
     kl_restrict = (\<lambda>_. None), kl_show = (\<lambda>_. [])\<rparr>"

definition sample_up_host :: "(cap_call list, unit) up_host" where
  "sample_up_host = \<lparr>uh_os = Macos, uh_home = Some ''/h'', uh_exe = ''/bin/devcroft'',
     uh_canonicalize = (\<lambda>p. p), uh_provider = (\<lambda>_ _. Inr sample_resolution),
     uh_files = \<lparr>hf_is_file = (\<lambda>_. True), hf_is_dir = (\<lambda>_. True), hf_read = (\<lambda>_. Inr [])\<rparr>,
     uh_regular = (\<lambda>_. True), uh_flox_services = (\<lambda>_. []),
     uh_shell = (\<lambda>_. Some (''/nix/store/x/bin/sh'', None)), uh_spawn_proxy = (\<lambda>_. Inr (43, 8080, ''tok'')),
     uh_keys = sample_key_lib, uh_netns = True, uh_ambient = [], uh_spawn_keeper = (\<lambda>_ _. Inr 42),
     uh_responsive = True,
     uh_session = (\<lambda>_. Inr ([SpawnOk 1, Exit \<lparr>exit_code = Some 0, exit_signal = None\<rparr>], UnexpectedEof)),
     uh_show_fs = (\<lambda>_. []), uh_show_io = (\<lambda>_. []), uh_nono = call_log, uh_show_backend = (\<lambda>_. []), uh_paths = sample_host, uh_meta = sample_meta_lib, uh_plan_json = (\<lambda>_. ''{}''),
     uh_pretty = (\<lambda>_. [])\<rparr>"

definition sample_down_state :: world where
  "sample_down_state = \<lparr>w_fs = [(''/h/.local/share/devcroft'', DirNode)], w_view = (\<lambda>_. sample_view), w_now = 0,
     w_accepts = (\<lambda>_. True), w_signals = [], w_ran = []\<rparr>"

definition sample_hooked_manifest :: manifest where
  "sample_hooked_manifest = sample_manifest
     \<lparr>sandbox_name := ''web'', hooks := \<lparr>post_create = Some ''make setup'', post_start = None\<rparr>\<rparr>"

definition sample_up_options :: up_options where
  "sample_up_options = \<lparr>opt_recreate = False, opt_skip_hooks = False\<rparr>"

definition sample_downed :: world where
  "sample_downed = sample_down_state
     \<lparr>w_fs := w_fs sample_down_state @ [(''/h/.local/share/devcroft/web.lock'', FileNode [])]\<rparr>"

lemma sample_down: "down Macos (Some ''/h'') ''web'' sample_down_state = (Inr (), sample_downed)"
proof -
  let ?fs = "w_fs sample_downed"
  have lock: "acquire_lifecycle_lock (sp_lifecycle_lock sample_paths) (w_fs sample_down_state) = (Inr (), ?fs)"
    and none: "read_pidfile ?fs (sp_pidfile sample_paths) = Inr None" "read_pidfile ?fs (sp_proxy_pidfile sample_paths) = Inr None"
    and clear: "clear_runtime_state sample_paths ?fs = ?fs" by code_simp+
  have "sample_down_state\<lparr>w_fs := ?fs\<rparr> = sample_downed" by (simp add: sample_downed_def)
  then show ?thesis
    using lock none clear
    by (simp add: down_def sample_paths down_at_def stop_if_running_def terminate_and_wait_def)
qed

lemma sample_host_calls:
  "uh_spawn_keeper sample_up_host ks e = Inr 42"
  "uh_plan_json sample_up_host plan = ''{}''"
  "uh_session sample_up_host r = Inr ([SpawnOk 1, Exit \<lparr>exit_code = Some 0, exit_signal = None\<rparr>], UnexpectedEof)"
  by (simp_all add: sample_up_host_def)

lemma sample_up_ok:
  "up sample_up_host sample_hooked_manifest ''/work/p'' sample_up_options sample_downed =
     (Inr Started, snd (up sample_up_host sample_hooked_manifest ''/work/p'' sample_up_options sample_downed))"
proof -
  have "\<not> isl (manifest_fingerprint (uh_files sample_up_host) (provider (env sample_hooked_manifest))
      (uh_canonicalize sample_up_host ''/work/p''))"
    by (simp add: manifest_fingerprint_def sample_up_host_def flake_fingerprint_def read_definition_def
        ensure_flake_present_def ensure_lock_present_def from_name_def sample_hooked_manifest_def sample_manifest_def)
  then obtain fp where fp: "manifest_fingerprint (uh_files sample_up_host) (provider (env sample_hooked_manifest))
      (uh_canonicalize sample_up_host ''/work/p'') = Inr fp"
    by (auto simp: isl_def) (metis sum.exhaust_sel)
  have host: "uh_home sample_up_host = Some ''/h''" "sandbox_name sample_hooked_manifest = ''web''"
    by (simp_all add: sample_up_host_def sample_hooked_manifest_def)
  have "map_sum (\<lambda>_. ()) id (fst (up sample_up_host sample_hooked_manifest ''/work/p'' sample_up_options
      sample_downed)) = Inr Started"
    unfolding up_def Let_def host sample_paths sum.case
    unfolding up_started_def up_process_def launch_keeper_def activate_and_hooks_def run_hooks_def
      run_activation_script_def run_optional_def fp sample_host_calls sum.case
    by code_simp
  then show ?thesis
    by (cases "up sample_up_host sample_hooked_manifest ''/work/p'' sample_up_options sample_downed")
       (auto simp: map_sum_def split: sum.splits)
qed

theorem up_after_down_reruns_post_create_witness:
  "\<exists>before after. w_ran (snd (up sample_up_host sample_hooked_manifest ''/work/p'' sample_up_options sample_downed)) =
     w_ran sample_downed @ before @ (''post_create'', ''make setup'') # after"
proof (rule up_after_down_reruns_post_create [THEN conjunct2])
  show "state_paths_new (uh_home sample_up_host) (sandbox_name sample_hooked_manifest) = Inr sample_paths"
    and "down Macos (uh_home sample_up_host) (sandbox_name sample_hooked_manifest) sample_down_state =
      (Inr (), sample_downed)"
    using sample_paths sample_down by (simp_all add: sample_up_host_def sample_hooked_manifest_def)
  show "post_create (hooks sample_hooked_manifest) = Some ''make setup''"
    "\<not> opt_skip_hooks sample_up_options"
    by code_simp+
qed (rule sample_up_ok)

end
