(* ===== verification/Status.thy ===== *)
theory Status
  imports Explain Services
begin

text \<open>
  The read-only commands \<open>status\<close>, \<open>logs\<close> and \<open>ps\<close> (\<open>src/lifecycle/status.rs\<close>) on the world of theory
  \<open>State\<close>. The keeper's answer to a query, the supervisor's socket, the project's files and the JSON
  libraries are parameters.
\<close>

section \<open>The keeper\<close>

datatype keeper_status = KeeperNone | KeeperStale | KeeperHealthy u64 nat

text \<open>What the commands read besides the sandbox's files: a query over a control socket ends in an
  error or with one frame.\<close>

record status_host =
  sh_os :: target_os
  sh_home :: "string option"
  sh_meta :: meta_lib
  sh_exchange :: "string \<Rightarrow> fs_error + frame"
  sh_files :: host_fs
  sh_supervisor :: "string \<Rightarrow> supervisor"
  sh_json :: json_lib

definition query_keeper :: "status_host \<Rightarrow> state_paths \<Rightarrow> fs_error + query_result" where
  "query_keeper S paths = rbind (sh_exchange S (sp_socket paths)) (\<lambda>f. case f of
      QueryResult r \<Rightarrow> Inr r | _ \<Rightarrow> Inl (BadData ''unexpected response to Query''))"

definition keeper_status_of :: "status_host \<Rightarrow> world \<Rightarrow> state_paths \<Rightarrow> fs_error + keeper_status" where
  "keeper_status_of S w paths = rbind (health_of (sh_os S) w paths) (\<lambda>h. case h of
      HealthNone \<Rightarrow> Inr KeeperNone
    | Stale _ \<Rightarrow> Inr KeeperStale
    | Healthy _ \<Rightarrow> rbind (query_keeper S paths) (\<lambda>r. Inr (KeeperHealthy (uptime_secs r) (length (sessions r)))))"

section \<open>status\<close>

datatype status_error = StatusState fs_error | StatusKeeper fs_error

record sandbox_status =
  st_name :: string
  st_keeper :: keeper_status
  st_env_stale :: "bool option"
  st_degraded :: "degraded_capability list"
  st_isolation :: "string option"
  st_services :: "services_report option"

definition ok :: "'e + 'a \<Rightarrow> 'a option" where
  "ok r = (case r of Inl _ \<Rightarrow> None | Inr x \<Rightarrow> Some x)"

definition services_of :: "status_host \<Rightarrow> string \<Rightarrow> meta \<Rightarrow> services_report option" where
  "services_of S name meta =
     (let r = reconcile (declared_services meta)
            (snd (query (sh_json S) (sh_supervisor S (socket_path (project_root meta) name))))
      in if report_is_empty r then None else Some r)"

definition status :: "status_host \<Rightarrow> manifest \<Rightarrow> world \<Rightarrow> status_error + sandbox_status" where
  "status S m w =
     rbind (map_err StatusState (state_paths_new (sh_home S) (sandbox_name m))) (\<lambda>paths.
     rbind (map_err StatusKeeper (keeper_status_of S w paths)) (\<lambda>keeper.
     rbind (map_err StatusState (read_meta (sh_meta S) (w_fs w) (sp_meta paths))) (\<lambda>meta.
     Inr \<lparr>st_name = sandbox_name m, st_keeper = keeper,
          st_env_stale = Option.bind meta (\<lambda>meta.
            ok (is_stale (sh_files S) (provider (env m)) (project_root meta) (env_fingerprint meta))),
          st_degraded = detect (sh_os S) (compile (sh_os S) m),
          st_isolation = map_option resolved_backend meta,
          st_services = Option.bind meta (services_of S (sandbox_name m))\<rparr>)))"

section \<open>logs\<close>

definition service_banner :: string where
  "service_banner = [newline] @ ''--- services ---'' @ [newline]"

definition full_log :: "status_host \<Rightarrow> string \<Rightarrow> world \<Rightarrow> fs_error + string" where
  "full_log S name w =
     rbind (state_paths_new (sh_home S) name) (\<lambda>paths.
     rbind (read_to_string (w_fs w) (sp_log paths)) (\<lambda>contents.
     rbind (read_meta (sh_meta S) (w_fs w) (sp_meta paths)) (\<lambda>meta.
     Inr (case meta of
         None \<Rightarrow> contents
       | Some meta \<Rightarrow> (case read_to_string (w_fs w) (log_path (project_root meta) name) of
           Inl _ \<Rightarrow> contents
         | Inr service_log \<Rightarrow> if str_trim service_log = [] then contents
             else contents @ service_banner @ service_log)))))"

definition logs :: "status_host \<Rightarrow> string \<Rightarrow> nat option \<Rightarrow> world \<Rightarrow> fs_error + string" where
  "logs S name tail_lines w = rbind (full_log S name w) (\<lambda>contents. Inr (case tail_lines of
      None \<Rightarrow> contents
    | Some n \<Rightarrow> (let ls = str_lines contents in join [newline] (drop (length ls - n) ls))))"

section \<open>ps\<close>

record sandbox_summary =
  sm_name :: string
  sm_keeper :: keeper_status
  sm_project_root :: "string option"
  sm_declared :: "string list"

definition summary_of :: "status_host \<Rightarrow> world \<Rightarrow> string \<Rightarrow> string \<Rightarrow> fs_error + sandbox_summary" where
  "summary_of S w root name =
     (let paths = in_dir (path_join root name);
          keeper = (case keeper_status_of S w paths of Inl _ \<Rightarrow> KeeperStale | Inr k \<Rightarrow> k)
      in rbind (read_meta (sh_meta S) (w_fs w) (sp_meta paths)) (\<lambda>meta. Inr
           \<lparr>sm_name = name, sm_keeper = keeper, sm_project_root = map_option project_root meta,
            sm_declared = (case meta of None \<Rightarrow> [] | Some m \<Rightarrow> declared_services m)\<rparr>))"

definition ps :: "status_host \<Rightarrow> world \<Rightarrow> fs_error + sandbox_summary list" where
  "ps S w = rbind (data_dir (sh_home S)) (\<lambda>root. case read_dir (w_fs w) root of
      Inl e \<Rightarrow> if e = NotFound then Inr [] else Inl e
    | Inr entries \<Rightarrow>
        rbind (try_fold (\<lambda>out name.
            if \<not> is_dir (w_fs w) (path_join root name) then Inr out
            else rbind (summary_of S w root name) (\<lambda>s. Inr (out @ [s]))) [] entries) (\<lambda>out.
        Inr (sort_key sm_name out)))"

section \<open>Lemmas: ps\<close>

lemma summary_of_name: "summary_of S w root name = Inr s \<Longrightarrow> sm_name s = name"
  by (auto simp: summary_of_def Let_def result_simps)

lemma summary_of_keeper: "summary_of S w root name = Inr s \<Longrightarrow>
    sm_keeper s = (case keeper_status_of S w (in_dir (path_join root name)) of Inl _ \<Rightarrow> KeeperStale | Inr k \<Rightarrow> k)"
  by (auto simp: summary_of_def Let_def result_simps)

lemma ps_fold:
  "try_fold (\<lambda>out name. if \<not> P name then Inr out
       else rbind (summary_of S w root name) (\<lambda>s. Inr (out @ [s]))) out names = Inr out'
   \<Longrightarrow> \<exists>new. out' = out @ new \<and> map sm_name new = filter P names
     \<and> list_all (\<lambda>s. summary_of S w root (sm_name s) = Inr s) new"
proof (induction names arbitrary: out)
  case (Cons n names)
  show ?case
  proof (cases "P n")
    case True
    then obtain s where s: "summary_of S w root n = Inr s"
      using Cons.prems by (cases "summary_of S w root n") auto
    then obtain new where "out' = (out @ [s]) @ new" "map sm_name new = filter P names"
      "list_all (\<lambda>s. summary_of S w root (sm_name s) = Inr s) new"
      using Cons True by fastforce
    then show ?thesis
      using s summary_of_name [OF s] True by (intro exI [of _ "s # new"]) auto
  next
    case False
    then show ?thesis using Cons by auto
  qed
qed auto

text \<open>
  \<open>ps\<close> lists each sandbox once, by name: when it succeeds, the names are exactly those of the
  directories in the data directory, in order, and each entry is the summary of that sandbox's
  own files; an unreachable keeper makes an entry stale rather than the listing fail.
\<close>

theorem ps_lists_every_sandbox:
  assumes "data_dir (sh_home S) = Inr root" and "read_dir (w_fs w) root = Inr entries" and "ps S w = Inr out"
  shows "map sm_name out = sort (filter (\<lambda>n. is_dir (w_fs w) (path_join root n)) entries)
    \<and> distinct (map sm_name out)
    \<and> list_all (\<lambda>s. summary_of S w root (sm_name s) = Inr s
        \<and> sm_keeper s = (case keeper_status_of S w (in_dir (path_join root (sm_name s))) of
            Inl _ \<Rightarrow> KeeperStale | Inr k \<Rightarrow> k)) out"
proof -
  obtain out' where fold: "try_fold (\<lambda>out name. if \<not> is_dir (w_fs w) (path_join root name) then Inr out
       else rbind (summary_of S w root name) (\<lambda>s. Inr (out @ [s]))) [] entries = Inr out'"
    and out: "out = sort_key sm_name out'"
    using assms by (auto simp: ps_def result_simps)
  from ps_fold [OF fold] have names: "map sm_name out' = filter (\<lambda>n. is_dir (w_fs w) (path_join root n)) entries"
    and each: "list_all (\<lambda>s. summary_of S w root (sm_name s) = Inr s) out'" by auto
  have sorted: "map sm_name out = sort (map sm_name out')"
    unfolding out by (rule properties_for_sort [symmetric]) simp_all
  have "distinct entries" using assms(2) by (auto simp: read_dir_def split: if_splits)
  then have "distinct (map sm_name out)" unfolding sorted names by simp
  then show ?thesis
    using each sorted names summary_of_keeper by (auto simp: out list_all_iff)
qed

definition sample_status_host :: status_host where
  "sample_status_host = \<lparr>sh_os = Macos, sh_home = Some ''/h'', sh_meta = sample_meta_lib,
     sh_exchange = (\<lambda>_. Inl NotFound),
     sh_files = \<lparr>hf_is_file = (\<lambda>_. False), hf_is_dir = (\<lambda>_. False), hf_read = (\<lambda>_. Inl [])\<rparr>,
     sh_supervisor = (\<lambda>p. \<lparr>sv_path = p, sv_file = Absent, sv_uid = 501, sv_refused = None, sv_reads = []\<rparr>),
     sh_json = \<lparr>lossy = id, parse_json = (\<lambda>_. Inr JNull)\<rparr>\<rparr>"

theorem ps_lists_every_sandbox_witness:
  "\<exists>out. ps sample_status_host sample_stopped_state = Inr out \<and> map sm_name out = [''flox-env-api'', ''web'']"
proof -
  have "\<not> isl (ps sample_status_host sample_stopped_state)" by code_simp
  then obtain out where out: "ps sample_status_host sample_stopped_state = Inr out" by (auto simp: isl_def) (metis sum.exhaust_sel)
  have root: "data_dir (sh_home sample_status_host) = Inr ''/h/.local/share/devcroft''"
    and "\<not> isl (read_dir (w_fs sample_stopped_state) ''/h/.local/share/devcroft'')"
    by code_simp+
  then obtain entries where entries: "read_dir (w_fs sample_stopped_state) ''/h/.local/share/devcroft'' = Inr entries"
    by (auto simp: isl_def) (metis sum.exhaust_sel)
  have "sort (filter (\<lambda>n. is_dir (w_fs sample_stopped_state) (path_join ''/h/.local/share/devcroft'' n))
      (projr (read_dir (w_fs sample_stopped_state) ''/h/.local/share/devcroft''))) = [''flox-env-api'', ''web'']"
    by code_simp
  then show ?thesis using ps_lists_every_sandbox [OF root entries out] out entries by simp
qed

text \<open>
  But one sandbox whose metadata cannot be read makes the whole listing fail, although \<open>ps\<close> is
  documented as best effort per entry.
\<close>

theorem ps_fails_on_one_bad_meta:
  assumes "data_dir (sh_home S) = Inr root" and "read_dir (w_fs w) root = Inr entries"
    and "List.member entries name" and "is_dir (w_fs w) (path_join root name)"
    and "read_meta (sh_meta S) (w_fs w) (sp_meta (in_dir (path_join root name))) = Inl e"
  shows "isl (ps S w)"
proof (cases "ps S w")
  case (Inr out)
  let ?step = "\<lambda>out name. if \<not> is_dir (w_fs w) (path_join root name) then Inr out
       else rbind (summary_of S w root name) (\<lambda>s. Inr (out @ [s]))"
  obtain out' where fold: "try_fold ?step [] entries = Inr out'"
    using assms(1,2) Inr by (auto simp: ps_def result_simps)
  from ps_fold [OF fold] have names: "map sm_name out' = filter (\<lambda>n. is_dir (w_fs w) (path_join root n)) entries"
    and each: "list_all (\<lambda>s. summary_of S w root (sm_name s) = Inr s) out'" by auto
  have "name \<in> set (map sm_name out')" unfolding names using assms(3,4) by simp
  then obtain s where "summary_of S w root name = Inr s" using each by (auto simp: list_all_iff)
  then show ?thesis using assms(5) by (simp add: summary_of_def Let_def)
qed simp

theorem ps_fails_on_one_bad_meta_witness:
  "isl (ps (sample_status_host\<lparr>sh_meta := sample_meta_lib\<lparr>meta_from_str := (\<lambda>_. Inl ''EOF'')\<rparr>\<rparr>) sample_stopped_state)"
proof (rule ps_fails_on_one_bad_meta)
  show "data_dir (sh_home (sample_status_host\<lparr>sh_meta := sample_meta_lib\<lparr>meta_from_str := (\<lambda>_. Inl ''EOF'')\<rparr>\<rparr>)) =
      Inr ''/h/.local/share/devcroft''"
    by code_simp
  have "\<not> isl (read_dir (w_fs sample_stopped_state) ''/h/.local/share/devcroft'')" by code_simp
  then show "read_dir (w_fs sample_stopped_state) ''/h/.local/share/devcroft'' =
      Inr (projr (read_dir (w_fs sample_stopped_state) ''/h/.local/share/devcroft''))"
    by (simp add: sum.collapse(2))
  show "List.member (projr (read_dir (w_fs sample_stopped_state) ''/h/.local/share/devcroft'')) ''web''"
    "is_dir (w_fs sample_stopped_state) (path_join ''/h/.local/share/devcroft'' ''web'')"
    "read_meta (sh_meta (sample_status_host\<lparr>sh_meta := sample_meta_lib\<lparr>meta_from_str := (\<lambda>_. Inl ''EOF'')\<rparr>\<rparr>))
      (w_fs sample_stopped_state) (sp_meta (in_dir (path_join ''/h/.local/share/devcroft'' ''web''))) = Inl (BadData ''EOF'')"
    by code_simp+
qed

section \<open>Lemmas: after down\<close>

text \<open>
  Right after a successful \<open>down\<close>, \<open>status\<close> never reports the keeper as stale or healthy: there is
  no keeper, or the state cannot be read.
\<close>

theorem status_after_down:
  assumes "state_paths_new (sh_home S) (sandbox_name m) = Inr paths"
    and "down os (sh_home S) (sandbox_name m) w = (Inr (), w')"
  shows "case status S m w' of Inl _ \<Rightarrow> True | Inr st \<Rightarrow> st_keeper st = KeeperNone"
proof -
  have "sp_pidfile paths \<in> set (runtime_files paths)" by (simp add: runtime_files_def)
  then have "\<nexists>s. map_of (w_fs w') (sp_pidfile paths) = Some (FileNode s)"
    using down_clears [OF assms] by blast
  then have "keeper_status_of S w' paths \<in> {Inr KeeperNone, Inl OtherError}"
    by (auto simp: keeper_status_of_def health_of_def read_pidfile_def read_to_string_def
        split: option.splits fs_node.splits)
  then show ?thesis
    using assms(1) by (auto simp: status_def result_simps split: sum.split)
qed

definition sample_web :: manifest where
  "sample_web = sample_manifest\<lparr>sandbox_name := ''web''\<rparr>"

theorem status_after_down_witness:
  "case status sample_status_host sample_web (snd (down Linux (Some ''/h'') ''web'' sample_stopped_state)) of
     Inl _ \<Rightarrow> True | Inr st \<Rightarrow> st_keeper st = KeeperNone"
proof (rule status_after_down)
  show "state_paths_new (sh_home sample_status_host) (sandbox_name sample_web) =
      Inr (projr (state_paths_new (Some ''/h'') ''web''))"
    using sample_state_paths by (simp add: sample_status_host_def sample_web_def)
  have "fst (acquire_lifecycle_lock (sp_lifecycle_lock (projr (state_paths_new (Some ''/h'') ''web'')))
      (w_fs sample_stopped_state)) = Inr ()"
    by code_simp
  then have "fst (down Linux (Some ''/h'') ''web'' sample_stopped_state) = Inr ()"
    by (subst down_def, subst sample_state_paths) (auto simp: down_at_def Let_def split: prod.splits sum.splits)
  then show "down Linux (sh_home sample_status_host) (sandbox_name sample_web) sample_stopped_state =
      (Inr (), snd (down Linux (Some ''/h'') ''web'' sample_stopped_state))"
    by (simp add: prod_eq_iff sample_status_host_def sample_web_def)
qed

end
