(* ===== verification/SshConfig.thy ===== *)
theory SshConfig
  imports State Utf8
begin

text \<open>
  The managed section of the user's ssh configuration (\<open>src/ssh/config.rs\<close>), and the host names and the
  connection of \<open>devcroft proxy\<close> (\<open>src/ssh/proxy.rs\<close>). Files are those of theory \<open>State\<close>.
\<close>

section \<open>The managed section\<close>

definition BEGIN_MARKER :: string where
  "BEGIN_MARKER = ''# >>> devcroft managed block '' @ em_dash @ '' do not edit >>>''"

definition END_MARKER :: string where
  "END_MARKER = ''# <<< devcroft managed block '' @ em_dash @ '' do not edit <<<''"

declare find_sub.simps [simp del]

definition ssh_render :: "string \<Rightarrow> string" where
  "ssh_render identity_file = concat (map (\<lambda>l. l @ [newline])
     [''Host *.devcroft'', ''  ProxyCommand devcroft proxy %n'', ''  IdentityFile '' @ identity_file,
      ''  StrictHostKeyChecking no'', ''  UserKnownHostsFile /dev/null''])"

definition managed_block :: "string \<Rightarrow> string" where
  "managed_block identity_file = BEGIN_MARKER @ [newline] @ ssh_render identity_file @ END_MARKER @ [newline]"

definition updated_config :: "string \<Rightarrow> string \<Rightarrow> string" where
  "updated_config existing identity_file =
     (let block = managed_block identity_file;
          append = (let out = existing @ (if existing \<noteq> [] \<and> last existing \<noteq> newline then [newline] else [])
                    in out @ (if out \<noteq> [] then [newline] else []) @ block)
      in case (find_sub BEGIN_MARKER existing, find_sub END_MARKER existing) of
           (Some first, Some last_one) \<Rightarrow>
             if first < last_one then
               let rest = drop (last_one + length END_MARKER) existing
               in take first existing @ block @ (case rest of c # r \<Rightarrow> if c = newline then r else rest | [] \<Rightarrow> [])
             else append
         | _ \<Rightarrow> append)"

definition is_installed :: "string \<Rightarrow> fs \<Rightarrow> bool" where
  "is_installed path fs = (case read_text fs path of
      Inr contents \<Rightarrow> find_sub BEGIN_MARKER contents \<noteq> None
    | Inl _ \<Rightarrow> False)"

definition write_managed_section :: "string \<Rightarrow> string \<Rightarrow> fs \<Rightarrow> (fs_error + unit) \<times> fs" where
  "write_managed_section path identity_file fs =
     (let existing = (case read_text fs path of Inr s \<Rightarrow> s | Inl _ \<Rightarrow> [])
      in case create_dir_all (fs_parent path) fs of
           (Inl e, fs) \<Rightarrow> (Inl e, fs)
         | (Inr _, fs) \<Rightarrow> fs_write path (updated_config existing identity_file) fs)"

section \<open>The bridge\<close>

datatype bridge_error = BridgeNotRunning | BridgeConnect fs_error

definition sandbox_name_from_host :: "string \<Rightarrow> string + string" where
  "sandbox_name_from_host host =
     (case strip_prefix (rev ''.devcroft'') (rev host) of
        Some rname \<Rightarrow> if rname = [] then Inl ([CHR 0x27] @ host @ [CHR 0x27] @ '' is not a <name>.devcroft host'')
          else Inr (rev rname)
      | None \<Rightarrow> Inl ([CHR 0x27] @ host @ [CHR 0x27] @ '' is not a <name>.devcroft host''))"

text \<open>The socket \<open>proxy\<close> bridges to; \<open>connects\<close> is the error of connecting to it.\<close>

definition bridge_socket :: "target_os \<Rightarrow> string option \<Rightarrow> (string \<Rightarrow> fs_error option) \<Rightarrow> string \<Rightarrow> world \<Rightarrow>
    bridge_error + string" where
  "bridge_socket os home connects name w =
     rbind (map_err BridgeConnect (state_paths_new home name)) (\<lambda>paths.
     rbind (map_err BridgeConnect (health_of os w paths)) (\<lambda>h. (case h of
         Healthy _ \<Rightarrow> (case connects (sp_ssh_socket paths) of
             Some e \<Rightarrow> Inl (BridgeConnect e)
           | None \<Rightarrow> Inr (sp_ssh_socket paths))
       | _ \<Rightarrow> Inl BridgeNotRunning)))"

section \<open>Lemmas: occurrences and lines\<close>

lemma starts_with_before_newline:
  assumes "newline \<notin> set p"
  shows "starts_with p (a @ newline # b) \<longleftrightarrow> starts_with p a"
  using assms
proof (induction a arbitrary: p)
  case Nil
  then show ?case by (cases p) (auto simp: starts_with_iff)
next
  case (Cons c a)
  then show ?case by (cases p) (auto simp: starts_with_iff)
qed

lemma find_sub_lines:
  assumes "newline \<notin> set p" "p \<noteq> []"
  shows "find_sub p (a @ newline # b) = (case find_sub p a of
      Some i \<Rightarrow> Some i
    | None \<Rightarrow> map_option (\<lambda>i. Suc (length a + i)) (find_sub p b))"
proof (induction a)
  case Nil
  have "\<not> starts_with p []" "\<not> starts_with p (newline # b)"
    using assms starts_with_before_newline [OF assms(1), of "[]" b] by (auto simp: starts_with_iff)
  then show ?case using assms(2) by (simp add: find_sub.simps)
next
  case (Cons c a)
  then show ?case
    using starts_with_before_newline [OF assms(1), of "c # a" b]
    by (auto simp: find_sub.simps option.map_comp comp_def split: option.splits)
qed

text \<open>A text in which a marker does not occur, and a line that can stand in the section.\<close>

definition lacks :: "string \<Rightarrow> string \<Rightarrow> bool" where
  "lacks p s \<longleftrightarrow> find_sub p s = None"

lemma lacks_lines: "newline \<notin> set p \<Longrightarrow> p \<noteq> [] \<Longrightarrow> lacks p (a @ newline # b) \<longleftrightarrow> lacks p a \<and> lacks p b"
  by (auto simp: lacks_def find_sub_lines split: option.splits)

lemma marker_lines [simp]:
  "newline \<notin> set BEGIN_MARKER" "newline \<notin> set END_MARKER" "BEGIN_MARKER \<noteq> []" "END_MARKER \<noteq> []"
  by code_simp+

lemma find_sub_here: "starts_with p s \<Longrightarrow> find_sub p s = Some 0"
  by (cases s) (auto simp: find_sub.simps starts_with_iff)

lemma find_sub_skip:
  assumes "newline \<notin> set p" "p \<noteq> []" "lacks p a"
  shows "find_sub p (a @ newline # b) = map_option (\<lambda>i. Suc (length a + i)) (find_sub p b)"
  using assms by (simp add: find_sub_lines lacks_def)

definition plain_identity :: "string \<Rightarrow> bool" where
  "plain_identity i \<longleftrightarrow> newline \<notin> set i \<and> lacks END_MARKER (''  IdentityFile '' @ i)"

definition padding :: "string \<Rightarrow> string" where
  "padding u = (if u = [] then [] else if last u = newline then [newline] else [newline, newline])"

lemma managed_block_lines:
  "managed_block i = BEGIN_MARKER @ newline # ''Host *.devcroft'' @ newline # ''  ProxyCommand devcroft proxy %n''
     @ newline # (''  IdentityFile '' @ i) @ newline # ''  StrictHostKeyChecking no''
     @ newline # ''  UserKnownHostsFile /dev/null'' @ newline # END_MARKER @ [newline]"
  by (simp add: managed_block_def ssh_render_def)

lemma managed_block_markers:
  assumes "plain_identity i"
  shows "find_sub BEGIN_MARKER (managed_block i) = Some 0"
    "find_sub END_MARKER (managed_block i) = Some (length (managed_block i) - Suc (length END_MARKER))"
proof -
  show "find_sub BEGIN_MARKER (managed_block i) = Some 0"
    by (rule find_sub_here) (simp add: managed_block_def starts_with_iff)
  have fixed: "lacks END_MARKER BEGIN_MARKER" "lacks END_MARKER ''Host *.devcroft''"
    "lacks END_MARKER ''  ProxyCommand devcroft proxy %n''" "lacks END_MARKER ''  StrictHostKeyChecking no''"
    "lacks END_MARKER ''  UserKnownHostsFile /dev/null''"
    by code_simp+
  have "find_sub END_MARKER (END_MARKER @ [newline]) = Some 0" by (rule find_sub_here) (simp add: starts_with_iff)
  then show "find_sub END_MARKER (managed_block i) = Some (length (managed_block i) - Suc (length END_MARKER))"
    unfolding managed_block_lines using fixed assms
    by (simp only: find_sub_skip marker_lines plain_identity_def simp_thms option.map) simp
qed

lemma updated_config_fresh:
  assumes "lacks BEGIN_MARKER u"
  shows "updated_config u i = u @ padding u @ managed_block i"
  using assms by (simp add: updated_config_def lacks_def padding_def Let_def)

lemma find_sub_bound: "find_sub p s = Some k \<Longrightarrow> k \<le> length s"
proof (induction s arbitrary: k)
  case Nil
  then show ?case by (simp add: find_sub.simps split: if_splits)
next
  case (Cons c s)
  then show ?case by (auto simp: find_sub.simps split: if_splits)
qed

lemma find_sub_prefix:
  assumes p: "newline \<notin> set p" "p \<noteq> []" and u: "u = [] \<or> last u = newline"
  shows "find_sub p (u @ b) = (case find_sub p u of
      Some k \<Rightarrow> Some k | None \<Rightarrow> map_option (\<lambda>k. length u + k) (find_sub p b))"
proof (cases "u = []")
  case True
  have "find_sub p [] = None" using p(2) by (simp add: find_sub.simps starts_with_iff)
  then show ?thesis by (cases "find_sub p b") (simp_all add: True)
next
  case False
  then obtain v where v: "u = v @ newline # []" using u by (metis append_butlast_last_id)
  have "find_sub p [] = None" using p(2) by (simp add: find_sub.simps starts_with_iff)
  then show ?thesis
    using find_sub_lines [OF p, of v b] find_sub_lines [OF p, of v "[]"] by (simp add: v split: option.splits)
qed

text \<open>A section that starts a line of its own is found, and replaced from the first opening marker on.\<close>

lemma updated_config_replaces:
  assumes "plain_identity i" and u: "u = [] \<or> last u = newline" and "lacks END_MARKER u"
  shows "updated_config (u @ managed_block i) j =
    (case find_sub BEGIN_MARKER u of Some k \<Rightarrow> take k u | None \<Rightarrow> u) @ managed_block j"
proof -
  let ?off = "length (managed_block i) - Suc (length END_MARKER)"
  let ?k = "case find_sub BEGIN_MARKER u of Some k \<Rightarrow> k | None \<Rightarrow> length u"
  have found: "find_sub BEGIN_MARKER (u @ managed_block i) = Some ?k"
    "find_sub END_MARKER (u @ managed_block i) = Some (length u + ?off)"
    using assms(3) managed_block_markers [OF assms(1)] u
    by (simp_all add: find_sub_prefix lacks_def split: option.splits)
  have "managed_block i = (BEGIN_MARKER @ [newline] @ ssh_render i @ END_MARKER) @ [newline]"
    by (simp add: managed_block_def)
  then have "drop (length (managed_block i) - 1) (managed_block i) = [newline]" by simp
  moreover have "length (managed_block i) > Suc (length END_MARKER)" by (simp add: managed_block_lines)
  moreover have "?k \<le> length u" using find_sub_bound [of BEGIN_MARKER u] by (simp split: option.splits)
  ultimately show ?thesis using found by (simp add: updated_config_def Let_def split: option.splits)
qed

section \<open>Properties\<close>

lemma padding_lacks:
  assumes "lacks p u" "newline \<notin> set p" "p \<noteq> []"
  shows "lacks p (u @ padding u)"
proof -
  have empty: "lacks p []" using assms(3) by (simp add: lacks_def find_sub.simps starts_with_iff)
  then have nl: "lacks p [newline]" using lacks_lines [OF assms(2,3), of "[]" "[]"] by simp
  show ?thesis
  proof (cases "u \<noteq> [] \<and> last u \<noteq> newline")
    case True
    then show ?thesis using assms nl lacks_lines [OF assms(2,3), of u "[newline]"] by (simp add: padding_def)
  next
    case False
    then show ?thesis using assms empty lacks_lines [OF assms(2,3), of u "[]"] by (auto simp: padding_def)
  qed
qed



text \<open>
  Where the user's own text is lost. A configuration that is not valid UTF-8 is replaced by the
  section alone. And a line with the opening marker but no closing one makes the second run
  delete everything from that line to the section the first run added.
\<close>

theorem managed_section_loses_text:
  assumes "fs_write path x (snd (create_dir_all (fs_parent path) fs)) = (Inr (), fs')"
    and "fst (create_dir_all (fs_parent path) fs) = Inr ()"
    and "read_to_string fs path = Inr s" and "\<not> utf8_valid s"
    and "lacks END_MARKER u" "u \<noteq> []" "plain_identity i"
  shows "map_of (snd (write_managed_section path i fs)) path = Some (FileNode (managed_block i))
    \<and> updated_config (updated_config (BEGIN_MARKER @ [newline] @ u) i) j = managed_block j"
proof
  have "lacks BEGIN_MARKER []" by code_simp
  then have "updated_config [] i = managed_block i" using updated_config_fresh [of "[]" i] by (simp add: padding_def)
  then show "map_of (snd (write_managed_section path i fs)) path = Some (FileNode (managed_block i))"
    using assms(1-4)
    by (auto simp: write_managed_section_def read_text_def fs_write_def update_conv' split: prod.splits if_splits
        option.splits fs_node.splits)
next
  let ?t = "BEGIN_MARKER @ [newline] @ u"
  have t: "find_sub BEGIN_MARKER ?t = Some 0" "find_sub BEGIN_MARKER (?t @ padding ?t) = Some 0"
    by (simp_all add: find_sub_here starts_with_iff)
  have "lacks END_MARKER BEGIN_MARKER" by code_simp
  then have none: "lacks END_MARKER ?t" using assms(5) lacks_lines [of END_MARKER BEGIN_MARKER u] by simp
  then have "updated_config ?t i = (?t @ padding ?t) @ managed_block i"
    using t(1) by (simp add: updated_config_def lacks_def padding_def Let_def)
  moreover have "last (?t @ padding ?t) = newline" by (simp add: padding_def)
  ultimately show "updated_config (updated_config ?t i) j = managed_block j"
    using updated_config_replaces [OF assms(7), of "?t @ padding ?t" j] padding_lacks [OF none] t(2) by simp
qed

theorem managed_section_loses_text_witness:
  "map_of (snd (write_managed_section ''c'' ''k'' [(''c'', FileNode [CHR 0xFF])])) ''c'' = Some (FileNode (managed_block ''k''))
   \<and> updated_config (updated_config (BEGIN_MARKER @ [newline] @ ''Host a'') ''k'') ''k'' = managed_block ''k''"
proof (rule managed_section_loses_text)
  show "fs_write ''c'' [] (snd (create_dir_all (fs_parent ''c'') [(''c'', FileNode [CHR 0xFF])]))
      = (Inr (), [(''c'', FileNode [])])"
    "fst (create_dir_all (fs_parent ''c'') [(''c'', FileNode [CHR 0xFF])]) = Inr ()"
    "read_to_string [(''c'', FileNode [CHR 0xFF])] ''c'' = Inr [CHR 0xFF]" "\<not> utf8_valid [CHR 0xFF]"
    "lacks END_MARKER ''Host a''" "''Host a'' \<noteq> []" "plain_identity ''k''"
    by code_simp+
qed

text \<open>
  The name in a host of the form \<open>name.devcroft\<close> is what precedes the suffix, whatever it is, and the
  socket the bridge connects to is always the ssh socket of a sandbox with a valid name.
\<close>

theorem bridge_reaches_named_sandbox:
  "(sandbox_name_from_host host = Inr name \<longleftrightarrow> host = name @ ''.devcroft'' \<and> name \<noteq> [])
   \<and> (case bridge_socket os home connects name w of
        Inr s \<Rightarrow> is_valid_name name
          \<and> (\<exists>paths pid. state_paths_new home name = Inr paths \<and> health_of os w paths = Inr (Healthy pid)
              \<and> s = sp_ssh_socket paths)
      | Inl _ \<Rightarrow> True)"
proof
  have "strip_prefix (rev ''.devcroft'') (rev host) = Some r \<longleftrightarrow> host = rev r @ ''.devcroft''" for r
    using rev_eq_append_conv [of host "rev ''.devcroft''" r] by (simp only: strip_prefix_Some_iff rev_rev_ident)
  then show "sandbox_name_from_host host = Inr name \<longleftrightarrow> host = name @ ''.devcroft'' \<and> name \<noteq> []"
    by (auto simp del: rev.simps append.simps simp add: sandbox_name_from_host_def split: option.splits)
next
  show "case bridge_socket os home connects name w of
        Inr s \<Rightarrow> is_valid_name name
          \<and> (\<exists>paths pid. state_paths_new home name = Inr paths \<and> health_of os w paths = Inr (Healthy pid)
              \<and> s = sp_ssh_socket paths)
      | Inl _ \<Rightarrow> True"
  proof (cases "state_paths_new home name")
    case (Inr paths)
    then have "is_valid_name name" by (simp add: state_paths_new_def split: if_splits)
    then show ?thesis
    proof (cases "health_of os w paths")
      case (Inr h)
      with \<open>state_paths_new home name = Inr paths\<close> \<open>is_valid_name name\<close> show ?thesis
        by (cases h) (simp_all add: bridge_socket_def split: option.splits)
    qed (simp add: bridge_socket_def Inr)
  qed (simp add: bridge_socket_def)
qed

end
