(* ===== verification/Cli.thy ===== *)
theory Cli
  imports Up Status Exec SshConfig
begin

text \<open>
  The commands of the binary (\<open>src/bin/devcroft.rs\<close>) over the library: their arguments, how a sandbox is
  named, the automatic start, the guard on destructive commands and the exit codes. A command is a
  function of the world; what it prints on its standard error is left out, and so is the text of
  the standard output except where a command is about it.
\<close>

section \<open>Where a command runs\<close>

text \<open>The working directory (an error, or its components), whether the standard output is a terminal, the
  texts of errors, \<open>$SHELL\<close> and the size of the terminal, and whether the bridge ends without an error.\<close>

record ('c, 'e) cli_host =
  ch_up :: "('c, 'e) up_host"
  ch_status :: status_host
  ch_exec :: exec_host
  ch_toml :: toml_lib
  ch_cwd :: "string + dir"
  ch_tty :: bool
  ch_show_config :: "config_error \<Rightarrow> string"
  ch_show_up :: "up_error \<Rightarrow> string"
  ch_show_fs :: "fs_error \<Rightarrow> string"
  ch_shell_var :: "string option"
  ch_winsize :: "(u16 \<times> u16) option"
  ch_bridge :: "string \<Rightarrow> world \<Rightarrow> bool"

definition dir_path :: "dir \<Rightarrow> string" where
  "dir_path d = ''/'' @ join ''/'' d"

definition manifest_in :: "dir \<Rightarrow> string" where
  "manifest_in d = path_join (dir_path d) ''devcroft.toml''"

definition found_manifest :: "world \<Rightarrow> dir \<Rightarrow> unit + dir" where
  "found_manifest w = discover (\<lambda>d. is_file (w_fs w) (manifest_in d))
     (\<lambda>d. map_of (w_fs w) (path_join (dir_path d) ''.git'') \<noteq> None)"

section \<open>Names\<close>

definition known_sandboxes_suffix :: "('c, 'e) cli_host \<Rightarrow> world \<Rightarrow> string" where
  "known_sandboxes_suffix C w = (case ps (ch_status C) w of
      Inr sandboxes \<Rightarrow> if sandboxes = [] then [] else '' Known sandboxes: '' @ join '', '' (map sm_name sandboxes) @ ''.''
    | Inl _ \<Rightarrow> [])"

definition discover_manifest_with_warnings ::
  "('c, 'e) cli_host \<Rightarrow> world \<Rightarrow> dir \<Rightarrow> string + (manifest \<times> dir \<times> config_warning list)" where
  "discover_manifest_with_warnings C w start =
     rbind (map_err (\<lambda>_. ''no devcroft.toml found in this directory or its ancestors; pass a sandbox name explicitly.''
         @ known_sandboxes_suffix C w) (found_manifest w start)) (\<lambda>d.
     rbind (map_err (\<lambda>e. ''reading '' @ manifest_in d @ '': '' @ ch_show_fs C e) (read_text (w_fs w) (manifest_in d))) (\<lambda>t.
     rbind (map_err (\<lambda>e. manifest_in d @ '': '' @ ch_show_config C e) (parse (ch_toml C) t)) (\<lambda>(m, warnings).
     Inr (m, d, warnings))))"

definition discover_manifest :: "('c, 'e) cli_host \<Rightarrow> world \<Rightarrow> dir \<Rightarrow> string + (manifest \<times> dir)" where
  "discover_manifest C w start = rbind (discover_manifest_with_warnings C w start) (\<lambda>(m, d, _). Inr (m, d))"

definition resolve_sandbox_name :: "('c, 'e) cli_host \<Rightarrow> world \<Rightarrow> dir \<Rightarrow> string + string" where
  "resolve_sandbox_name C w start = rbind (discover_manifest C w start) (\<lambda>(m, _). Inr (sandbox_name m))"

definition resolve_name_arg :: "('c, 'e) cli_host \<Rightarrow> world \<Rightarrow> string list \<Rightarrow> i32 + string" where
  "resolve_name_arg C w args =
     (if length args > 1 then Inl 2
      else case args of
        name # _ \<Rightarrow>
          if starts_with ''--'' name then Inl 2
          else if \<not> is_valid_name name then Inl 2
          else Inr name
      | [] \<Rightarrow> (case ch_cwd C of
          Inl _ \<Rightarrow> Inl 1
        | Inr cwd \<Rightarrow> map_err (\<lambda>_. 2) (resolve_sandbox_name C w cwd)))"

definition resolve_manifest_strict :: "('c, 'e) cli_host \<Rightarrow> world \<Rightarrow> string option \<Rightarrow> dir \<Rightarrow> i32 + manifest" where
  "resolve_manifest_strict C w name_arg cwd = (case discover_manifest C w cwd of
      Inl _ \<Rightarrow> Inl 2
    | Inr (m, _) \<Rightarrow> (case name_arg of
        Some name \<Rightarrow> if sandbox_name m \<noteq> name then Inl 2 else Inr m
      | None \<Rightarrow> Inr m))"

text \<open>\<open>[--no-up] [name]\<close>, shared by the clients: whether \<open>--no-up\<close> was given, and the name.\<close>

definition take_flag :: "string \<Rightarrow> string list \<Rightarrow> bool \<times> string list" where
  "take_flag flag args = (flag \<in> set args, filter (\<lambda>a. a \<noteq> flag) args)"

definition name_or_discovered :: "('c, 'e) cli_host \<Rightarrow> world \<Rightarrow> dir \<Rightarrow> string list \<Rightarrow> string + string" where
  "name_or_discovered C w cwd name_args = (case name_args of
      name # _ \<Rightarrow> Inr name
    | [] \<Rightarrow> resolve_sandbox_name C w cwd)"

section \<open>The automatic start\<close>

definition no_options :: up_options where
  "no_options = \<lparr>opt_recreate = False, opt_skip_hooks = False\<rparr>"

definition maybe_auto_up :: "('c, 'e) cli_host \<Rightarrow> string \<Rightarrow> dir \<Rightarrow> world \<Rightarrow> (string + unit) \<times> world" where
  "maybe_auto_up C name cwd w =
     (case state_paths_new (uh_home (ch_up C)) name of
        Inl e \<Rightarrow> (Inl (''resolving state paths for '' @ [CHR 0x27] @ name @ [CHR 0x27] @ '': '' @ ch_show_fs C e), w)
      | Inr paths \<Rightarrow> (case health_of (uh_os (ch_up C)) w paths of
          Inl e \<Rightarrow> (Inl (''checking '' @ [CHR 0x27] @ name @ [CHR 0x27] @ '' health: '' @ ch_show_fs C e), w)
        | Inr (Healthy _) \<Rightarrow> (Inr (), w)
        | Inr _ \<Rightarrow> (case discover_manifest C w cwd of
            Inl _ \<Rightarrow> (Inr (), w)
          | Inr (m, root) \<Rightarrow>
              if sandbox_name m \<noteq> name then (Inr (), w)
              else (case up (ch_up C) m (dir_path root) no_options w of
                  (Inr _, w) \<Rightarrow> (Inr (), w)
                | (Inl e, w) \<Rightarrow> (Inl (''starting sandbox '' @ [CHR 0x27] @ name @ [CHR 0x27] @ '': '' @ ch_show_up C e), w)))))"

definition auto_up_unless :: "('c, 'e) cli_host \<Rightarrow> bool \<Rightarrow> string \<Rightarrow> dir \<Rightarrow> world \<Rightarrow> (string + unit) \<times> world" where
  "auto_up_unless C no_up name cwd w = (if no_up then (Inr (), w) else maybe_auto_up C name cwd w)"

text \<open>The client's keys, which every command about ssh ensures first.\<close>

definition cli_ensure_client_keypair :: "key_lib \<Rightarrow> string option \<Rightarrow> fs \<Rightarrow> bool \<times> fs" where
  "cli_ensure_client_keypair L home fs = (case client_key_paths home of
      Inl _ \<Rightarrow> (False, fs)
    | Inr (private_path, public_path) \<Rightarrow> (case ensure_client_keypair L private_path public_path fs of
        (Inl _, fs) \<Rightarrow> (False, fs)
      | (Inr _, fs) \<Rightarrow> (True, fs)))"

definition ensure_keys :: "('c, 'e) cli_host \<Rightarrow> world \<Rightarrow> bool \<times> world" where
  "ensure_keys C w = (case cli_ensure_client_keypair (uh_keys (ch_up C)) (uh_home (ch_up C)) (w_fs w) of
      (ready, fs) \<Rightarrow> (ready, w\<lparr>w_fs := fs\<rparr>))"

section \<open>Running things\<close>

text \<open>The exit code, what was printed by the session, and the world after.\<close>

definition cli_exec :: "('c, 'e) cli_host \<Rightarrow> string list \<Rightarrow> world \<Rightarrow> i32 \<times> printed list \<times> world" where
  "cli_exec C args w =
     (if ''--'' \<notin> set args then (2, [], w)
      else let before = takeWhile (\<lambda>a. a \<noteq> ''--'') args;
               command_args = drop (Suc (length before)) args;
               (no_up, name_args) = take_flag ''--no-up'' before
      in if length name_args > 1 then (2, [], w)
         else case command_args of
           [] \<Rightarrow> (2, [], w)
         | cmd # cmd_rest \<Rightarrow> (case ch_cwd C of
             Inl _ \<Rightarrow> (1, [], w)
           | Inr cwd \<Rightarrow> (case name_or_discovered C w cwd name_args of
               Inl _ \<Rightarrow> (2, [], w)
             | Inr name \<Rightarrow> (case auto_up_unless C no_up name cwd w of
                 (Inl _, w) \<Rightarrow> (3, [], w)
               | (Inr _, w) \<Rightarrow> (case exec (ch_exec C) name \<lparr>ex_cmd = cmd, ex_args = cmd_rest, ex_cwd = dir_path cwd\<rparr> w of
                   (Inr code, out) \<Rightarrow> (code, out, w)
                 | (Inl _, out) \<Rightarrow> (5, out, w))))))"

definition cli_shell :: "('c, 'e) cli_host \<Rightarrow> string list \<Rightarrow> world \<Rightarrow> i32 \<times> printed list \<times> world" where
  "cli_shell C args w =
     (let (no_up, name_args) = take_flag ''--no-up'' args in
      if length name_args > 1 then (2, [], w)
      else case ch_cwd C of
        Inl _ \<Rightarrow> (1, [], w)
      | Inr cwd \<Rightarrow> (case name_or_discovered C w cwd name_args of
          Inl _ \<Rightarrow> (2, [], w)
        | Inr name \<Rightarrow> (case auto_up_unless C no_up name cwd w of
            (Inl _, w) \<Rightarrow> (3, [], w)
          | (Inr _, w) \<Rightarrow> (case shell (ch_exec C) (ch_shell_var C) (ch_winsize C) name (dir_path cwd) w of
              (Inr code, out) \<Rightarrow> (code, out, w)
            | (Inl _, out) \<Rightarrow> (5, out, w)))))"

definition cli_proxy :: "('c, 'e) cli_host \<Rightarrow> string list \<Rightarrow> world \<Rightarrow> i32 \<times> world" where
  "cli_proxy C args w =
     (let (no_up, host_args) = take_flag ''--no-up'' args in
      case host_args of
        [host] \<Rightarrow> (case sandbox_name_from_host host of
            Inl _ \<Rightarrow> (2, w)
          | Inr name \<Rightarrow> (case ch_cwd C of
              Inl _ \<Rightarrow> (1, w)
            | Inr cwd \<Rightarrow> (case ensure_keys C w of
                (False, w) \<Rightarrow> (3, w)
              | (True, w) \<Rightarrow> (case auto_up_unless C no_up name cwd w of
                    (Inl _, w) \<Rightarrow> (3, w)
                  | (Inr _, w) \<Rightarrow> (if ch_bridge C name w then 0 else 5, w)))))
      | _ \<Rightarrow> (2, w))"

section \<open>Sandboxes\<close>

definition up_exit_code :: "up_error \<Rightarrow> i32" where
  "up_exit_code e = (case e of
      UpState _ \<Rightarrow> 1
    | UpPolicy _ \<Rightarrow> 2 | UpConfig _ \<Rightarrow> 2
    | UpProvider _ \<Rightarrow> 3
    | UpBackend _ \<Rightarrow> 4
    | UpKeeper _ \<Rightarrow> 5 | UpSsh _ \<Rightarrow> 5)"

definition cli_up :: "('c, 'e) cli_host \<Rightarrow> string list \<Rightarrow> world \<Rightarrow> i32 \<times> world" where
  "cli_up C args w =
     (let recreate = ''--recreate'' \<in> set args; yes = ''--yes'' \<in> set args; skip = ''--skip-hooks'' \<in> set args;
          name_args = filter (\<lambda>a. a \<noteq> ''--recreate'' \<and> a \<noteq> ''--yes'' \<and> a \<noteq> ''--skip-hooks'') args
      in if length name_args > 1 then (2, w)
         else case ch_cwd C of
           Inl _ \<Rightarrow> (1, w)
         | Inr cwd \<Rightarrow> (case resolve_manifest_strict C w (if name_args = [] then None else Some (hd name_args)) cwd of
             Inl code \<Rightarrow> (code, w)
           | Inr m \<Rightarrow>
               let root = (case found_manifest w cwd of Inr d \<Rightarrow> d | Inl _ \<Rightarrow> cwd) in
               if recreate \<and> \<not> yes \<and> \<not> ch_tty C then (2, w)
               else (case up (ch_up C) m (dir_path root) \<lparr>opt_recreate = recreate, opt_skip_hooks = skip\<rparr> w of
                   (Inr _, w) \<Rightarrow> (0, w)
                 | (Inl e, w) \<Rightarrow> (up_exit_code e, w))))"

definition cli_down :: "('c, 'e) cli_host \<Rightarrow> string list \<Rightarrow> world \<Rightarrow> i32 \<times> world" where
  "cli_down C args w = (case resolve_name_arg C w args of
      Inl code \<Rightarrow> (code, w)
    | Inr name \<Rightarrow> (case down (uh_os (ch_up C)) (uh_home (ch_up C)) name w of
        (Inr _, w) \<Rightarrow> (0, w)
      | (Inl _, w) \<Rightarrow> (1, w)))"

definition cli_rm :: "('c, 'e) cli_host \<Rightarrow> string list \<Rightarrow> world \<Rightarrow> i32 \<times> world" where
  "cli_rm C args w =
     (let (yes, name_args) = take_flag ''--yes'' args in
      case resolve_name_arg C w name_args of
        Inl code \<Rightarrow> (code, w)
      | Inr name \<Rightarrow>
          if \<not> yes \<and> \<not> ch_tty C then (2, w)
          else (case rm (uh_os (ch_up C)) (uh_meta (ch_up C)) (uh_home (ch_up C)) name w of
              (Inr _, w) \<Rightarrow> (0, w)
            | (Inl _, w) \<Rightarrow> (1, w)))"

section \<open>Inspecting\<close>

definition cli_status :: "('c, 'e) cli_host \<Rightarrow> string list \<Rightarrow> world \<Rightarrow> i32 \<times> (sandbox_status \<times> string) option" where
  "cli_status C args w =
     (if length args > 1 then (2, None)
      else case ch_cwd C of
        Inl _ \<Rightarrow> (1, None)
      | Inr cwd \<Rightarrow> (case resolve_manifest_strict C w (if args = [] then None else Some (hd args)) cwd of
          Inl code \<Rightarrow> (code, None)
        | Inr m \<Rightarrow> (case status (ch_status C) m w of
            Inr s \<Rightarrow> (0, Some (s, provider (env m)))
          | Inl (StatusState _) \<Rightarrow> (1, None)
          | Inl (StatusKeeper _) \<Rightarrow> (5, None))))"

text \<open>The arguments of \<open>logs\<close>: a name and a number of lines, or a usage error. \<open>usize\<close> has 64 bits.\<close>

fun logs_args :: "string option \<Rightarrow> nat option \<Rightarrow> string list \<Rightarrow> (string option \<times> nat option) option" where
  "logs_args name tail [] = Some (name, tail)"
| "logs_args name tail (a # args) =
     (if a = ''--tail'' then
        (case args of
           [] \<Rightarrow> None
         | n # args \<Rightarrow> (case parse_u64 n of Some k \<Rightarrow> logs_args name (Some k) args | None \<Rightarrow> None))
      else if name = None then logs_args (Some a) tail args
      else None)"

definition cli_logs :: "('c, 'e) cli_host \<Rightarrow> string list \<Rightarrow> world \<Rightarrow> i32 \<times> string" where
  "cli_logs C args w = (case logs_args None None args of
      None \<Rightarrow> (2, [])
    | Some (name_arg, tail) \<Rightarrow>
        (case (case name_arg of
                 Some n \<Rightarrow> Inr n
               | None \<Rightarrow> (case ch_cwd C of Inl _ \<Rightarrow> Inl 1 | Inr cwd \<Rightarrow> map_err (\<lambda>_. 2) (resolve_sandbox_name C w cwd))) of
           Inl code \<Rightarrow> (code, [])
         | Inr name \<Rightarrow> (case logs (ch_status C) name tail w of
             Inr out \<Rightarrow> (0, out)
           | Inl _ \<Rightarrow> (1, []))))"

text \<open>The command line handed to the system's \<open>ssh\<close>, which takes the process over; only a failure to start it
  comes back, as exit code 1.\<close>

definition cli_ssh :: "('c, 'e) cli_host \<Rightarrow> string \<Rightarrow> string list \<Rightarrow> world \<Rightarrow> (i32 + string list) \<times> world" where
  "cli_ssh C devcroft_bin args w =
     (let (no_up, name_args) = take_flag ''--no-up'' args in
      if length name_args > 1 then (Inl 2, w)
      else case ch_cwd C of
        Inl _ \<Rightarrow> (Inl 1, w)
      | Inr cwd \<Rightarrow> (case name_or_discovered C w cwd name_args of
          Inl _ \<Rightarrow> (Inl 2, w)
        | Inr name \<Rightarrow> (case ensure_keys C w of
            (False, w) \<Rightarrow> (Inl 3, w)
          | (True, w) \<Rightarrow> (case auto_up_unless C no_up name cwd w of
                (Inl _, w) \<Rightarrow> (Inl 3, w)
              | (Inr _, w) \<Rightarrow> (case client_key_paths (uh_home (ch_up C)) of
                  Inl _ \<Rightarrow> (Inl 1, w)
                | Inr (identity, _) \<Rightarrow>
                    (Inr [''ssh'', ''-o'', ''StrictHostKeyChecking=no'', ''-o'', ''UserKnownHostsFile=/dev/null'',
                       ''-o'', ''IdentitiesOnly=yes'', ''-o'', ''ProxyCommand='' @ devcroft_bin @ '' proxy --no-up %n'',
                       ''-i'', identity, name @ ''.devcroft''], w))))))"

fun policy_args :: "bool \<Rightarrow> string option \<Rightarrow> string list \<Rightarrow> (bool \<times> string option) option" where
  "policy_args rend name [] = Some (rend, name)"
| "policy_args rend name (a # args) =
     (if a = ''--render'' then policy_args True name args
      else if a = ''--backend'' then
        (case args of b # args \<Rightarrow> if b = ''nono'' then policy_args rend name args else None | [] \<Rightarrow> None)
      else if name = None then policy_args rend (Some a) args
      else None)"

text \<open>A panic in the projection (its unreachable signal mode) is exit code 101.\<close>

definition cli_policy :: "('c, 'e) cli_host \<Rightarrow> string list \<Rightarrow> world \<Rightarrow> i32 \<times> string" where
  "cli_policy C args w = (case policy_args False None args of
      Some (True, name_arg) \<Rightarrow> (case ch_cwd C of
          Inl _ \<Rightarrow> (1, [])
        | Inr cwd \<Rightarrow> (case resolve_manifest_strict C w name_arg cwd of
            Inl code \<Rightarrow> (code, [])
          | Inr m \<Rightarrow>
              let H = ch_up C;
                  c = compile_with_provider_grants (uh_os H) (uh_meta H) (uh_home H) (w_fs w) m
              in case found_manifest w cwd of
                   Inl _ \<Rightarrow> (0, render c)
                 | Inr root \<Rightarrow> (case to_capability_set (uh_nono H) (uh_paths H) (to_capability_plan c) (dir_path root) of
                     None \<Rightarrow> (101, [])
                   | Some (Inl _) \<Rightarrow> (2, [])
                   | Some (Inr _) \<Rightarrow> (0, render c))))
    | _ \<Rightarrow> (2, []))"

definition normalize_path_for_policy :: "string option \<Rightarrow> string \<Rightarrow> string" where
  "normalize_path_for_policy home path = (case home of
      None \<Rightarrow> path
    | Some h \<Rightarrow>
        if path = h then ''~''
        else (case Option.bind (strip_prefix h path) (strip_prefix ''/'') of
            Some rest \<Rightarrow> ''~/'' @ rest
          | None \<Rightarrow> path))"

record why_query =
  wq_path :: "string option"
  wq_op :: "string option"
  wq_host :: "string option"
  wq_name :: "string option"

text \<open>An option takes the next argument, whatever it is, and nothing at the end.\<close>

fun why_args :: "why_query \<Rightarrow> string list \<Rightarrow> why_query option" where
  "why_args q [] = Some q"
| "why_args q [a] =
     (if a = ''--path'' then Some (q\<lparr>wq_path := None\<rparr>)
      else if a = ''--op'' then Some (q\<lparr>wq_op := None\<rparr>)
      else if a = ''--host'' then Some (q\<lparr>wq_host := None\<rparr>)
      else if wq_name q = None then Some (q\<lparr>wq_name := Some a\<rparr>)
      else None)"
| "why_args q (a # b # args) =
     (if a = ''--path'' then why_args (q\<lparr>wq_path := Some b\<rparr>) args
      else if a = ''--op'' then why_args (q\<lparr>wq_op := Some b\<rparr>) args
      else if a = ''--host'' then why_args (q\<lparr>wq_host := Some b\<rparr>) args
      else if wq_name q = None then why_args (q\<lparr>wq_name := Some a\<rparr>) (b # args)
      else None)"

definition parse_op :: "string \<Rightarrow> fs_op option" where
  "parse_op s = (if s = ''read'' then Some OpRead else if s = ''write'' then Some OpWrite
     else if s = ''readwrite'' then Some OpReadWrite else None)"

definition cli_why :: "('c, 'e) cli_host \<Rightarrow> (string list \<Rightarrow> string \<Rightarrow> bool \<times> string) \<Rightarrow> string list \<Rightarrow> world \<Rightarrow>
    i32 \<times> explanation option" where
  "cli_why C check_host args w =
     (case why_args \<lparr>wq_path = None, wq_op = None, wq_host = None, wq_name = None\<rparr> args of
        None \<Rightarrow> (2, None)
      | Some q \<Rightarrow> (case ch_cwd C of
          Inl _ \<Rightarrow> (1, None)
        | Inr cwd \<Rightarrow> (case resolve_manifest_strict C w (wq_name q) cwd of
            Inl code \<Rightarrow> (code, None)
          | Inr m \<Rightarrow>
              let H = ch_up C;
                  c = compile_with_provider_grants (uh_os H) (uh_meta H) (uh_home H) (w_fs w) m
              in case wq_host q of
                   Some host \<Rightarrow> (0, Some (why_host check_host c host))
                 | None \<Rightarrow> (case (wq_path q, wq_op q) of
                     (Some path, Some op) \<Rightarrow> (case parse_op op of
                         Some op \<Rightarrow> (0, Some (why_path c (normalize_path_for_policy (uh_home H) path) op))
                       | None \<Rightarrow> (2, None))
                   | _ \<Rightarrow> (2, None)))))"

section \<open>Theorems\<close>

lemma rm_unchanged_or_valid:
  "snd (rm os L home name w) = w \<or> is_valid_name name"
  by (auto simp: rm_def state_paths_new_def split: sum.splits if_splits)

lemma cli_rm_change:
  assumes "snd (cli_rm C args w) \<noteq> w"
  shows "(''--yes'' \<in> set args \<or> ch_tty C) \<and>
    (\<exists>name. is_valid_name name \<and> (filter (\<lambda>a. a \<noteq> ''--yes'') args = [name] \<or> filter (\<lambda>a. a \<noteq> ''--yes'') args = [])
       \<and> snd (cli_rm C args w) = snd (rm (uh_os (ch_up C)) (uh_meta (ch_up C)) (uh_home (ch_up C)) name w))"
proof -
  obtain name where name: "resolve_name_arg C w (filter (\<lambda>a. a \<noteq> ''--yes'') args) = Inr name"
    using assms by (auto simp: cli_rm_def take_flag_def Let_def split: sum.splits)
  then have "''--yes'' \<in> set args \<or> ch_tty C"
    using assms by (auto simp: cli_rm_def take_flag_def Let_def split: if_splits)
  moreover from this name have eq: "snd (cli_rm C args w) = snd (rm (uh_os (ch_up C)) (uh_meta (ch_up C)) (uh_home (ch_up C)) name w)"
    by (auto simp: cli_rm_def take_flag_def Let_def split: prod.splits sum.splits)
  moreover have "is_valid_name name" using eq assms rm_unchanged_or_valid by metis
  moreover have "filter (\<lambda>a. a \<noteq> ''--yes'') args = [name] \<or> filter (\<lambda>a. a \<noteq> ''--yes'') args = []"
    using name by (cases "filter (\<lambda>a. a \<noteq> ''--yes'') args") (auto simp: resolve_name_arg_def split: if_splits)
  ultimately show ?thesis by blast
qed

text \<open>
  \<open>rm\<close> deletes nothing by accident: when it changes the world at all, it was told to with \<open>--yes\<close> or there
  is a terminal, and what it did is the removal of one validly named sandbox.
\<close>

theorem cli_rm_guarded:
  "snd (cli_rm C args w) = w \<or> (''--yes'' \<in> set args \<or> ch_tty C) \<and>
    (\<exists>name. is_valid_name name \<and> (filter (\<lambda>a. a \<noteq> ''--yes'') args = [name] \<or> filter (\<lambda>a. a \<noteq> ''--yes'') args = [])
       \<and> snd (cli_rm C args w) = snd (rm (uh_os (ch_up C)) (uh_meta (ch_up C)) (uh_home (ch_up C)) name w))"
  using cli_rm_change by blast

lemma maybe_auto_up_effect:
  assumes "snd (maybe_auto_up C name cwd w) \<noteq> w"
  shows "\<exists>m root paths. discover_manifest C w cwd = Inr (m, root) \<and> sandbox_name m = name
    \<and> state_paths_new (uh_home (ch_up C)) name = Inr paths
    \<and> (\<forall>pid. health_of (uh_os (ch_up C)) w paths \<noteq> Inr (Healthy pid))
    \<and> snd (maybe_auto_up C name cwd w) = snd (up (ch_up C) m (dir_path root) no_options w)"
  using assms by (auto simp: maybe_auto_up_def split: sum.splits health.splits prod.splits if_splits)

lemma auto_up_unless_world:
  "(auto_up_unless C no_up name cwd w = (r, w')) \<Longrightarrow> w' = w \<or> \<not> no_up \<and> w' = snd (maybe_auto_up C name cwd w)"
  by (auto simp: auto_up_unless_def split: if_splits)

lemma client_worlds:
  "snd (snd (cli_exec C args w)) = w \<or> (\<exists>cwd name. ch_cwd C = Inr cwd
     \<and> ''--no-up'' \<notin> set (takeWhile (\<lambda>a. a \<noteq> ''--'') args)
     \<and> snd (snd (cli_exec C args w)) = snd (maybe_auto_up C name cwd w))"
  "snd (snd (cli_shell C args w)) = w \<or> (\<exists>cwd name. ch_cwd C = Inr cwd \<and> ''--no-up'' \<notin> set args
     \<and> snd (snd (cli_shell C args w)) = snd (maybe_auto_up C name cwd w))"
  "snd (cli_proxy C args w) \<in> {w, snd (ensure_keys C w)} \<or> (\<exists>cwd name. ch_cwd C = Inr cwd \<and> ''--no-up'' \<notin> set args
     \<and> snd (cli_proxy C args w) = snd (maybe_auto_up C name cwd (snd (ensure_keys C w))))"
  subgoal
    by (auto simp: cli_exec_def take_flag_def Let_def split: list.split sum.split prod.split
        dest!: auto_up_unless_world)
  subgoal
    by (auto simp: cli_shell_def take_flag_def Let_def split: list.split sum.split prod.split
        dest!: auto_up_unless_world)
  subgoal
    by (auto simp: cli_proxy_def take_flag_def Let_def split: list.split sum.split prod.split bool.split
        dest!: auto_up_unless_world)
  done

text \<open>That the only change a client made is the start of the sandbox whose manifest governs the working
  directory, which was not healthy.\<close>

definition auto_started :: "('c, 'e) cli_host \<Rightarrow> world \<Rightarrow> world \<Rightarrow> bool" where
  "auto_started C w w' \<longleftrightarrow> (\<exists>cwd m root paths. ch_cwd C = Inr cwd \<and> discover_manifest C w cwd = Inr (m, root)
     \<and> state_paths_new (uh_home (ch_up C)) (sandbox_name m) = Inr paths
     \<and> (\<forall>pid. health_of (uh_os (ch_up C)) w paths \<noteq> Inr (Healthy pid))
     \<and> w' = snd (up (ch_up C) m (dir_path root) no_options w))"

lemma auto_started_if_changed:
  "ch_cwd C = Inr cwd \<Longrightarrow> snd (maybe_auto_up C name cwd w) = w \<or> auto_started C w (snd (maybe_auto_up C name cwd w))"
  using maybe_auto_up_effect [of C name cwd w] unfolding auto_started_def by metis


lemma maybe_auto_up_Inr_valid:
  "maybe_auto_up C name cwd w = (Inr u, w') \<Longrightarrow> is_valid_name name"
  by (auto simp: maybe_auto_up_def state_paths_new_def split: sum.splits if_splits)

text \<open>
  \<open>devcroft ssh\<close>: without \<open>--no-up\<close> the host handed to the system's ssh is made of a valid sandbox name;
  with it nothing has looked at the name, and one that begins with a dash reaches ssh as an option.
\<close>

theorem cli_ssh_host:
  "(''--no-up'' \<in> set args \<or> (case fst (cli_ssh C bin args w) of
      Inl _ \<Rightarrow> True | Inr argv \<Rightarrow> (\<exists>name. is_valid_name name \<and> last argv = name @ ''.devcroft'')))
   \<and> (case (ch_cwd C, fst (ensure_keys C w)) of
        (Inr _, True) \<Rightarrow> (\<exists>argv. cli_ssh C bin [''--no-up'', ''-v''] w = (Inr argv, snd (ensure_keys C w)) \<and> last argv = ''-v.devcroft'')
      | _ \<Rightarrow> True)"
proof -
  have paths: "fst (ensure_keys C w) \<Longrightarrow> \<exists>p q. client_key_paths (uh_home (ch_up C)) = Inr (p, q)"
    by (auto simp: ensure_keys_def cli_ensure_client_keypair_def split: sum.splits)
  obtain ready w1 where keys: "ensure_keys C w = (ready, w1)" by fastforce
  have "''--no-up'' \<in> set args \<or> (case fst (cli_ssh C bin args w) of
      Inl _ \<Rightarrow> True | Inr argv \<Rightarrow> (\<exists>name. is_valid_name name \<and> last argv = name @ ''.devcroft''))"
    unfolding cli_ssh_def keys
    by (cases ready)
       (auto simp: take_flag_def Let_def auto_up_unless_def
         split: list.split sum.split prod.split intro: maybe_auto_up_Inr_valid)
  moreover have "case (ch_cwd C, ready) of
        (Inr _, True) \<Rightarrow> (\<exists>argv. cli_ssh C bin [''--no-up'', ''-v''] w = (Inr argv, w1) \<and> last argv = ''-v.devcroft'')
      | _ \<Rightarrow> True"
    unfolding cli_ssh_def keys using paths keys
    by (cases ready) (auto simp: take_flag_def name_or_discovered_def auto_up_unless_def split: sum.split)
  ultimately show ?thesis unfolding keys fst_conv snd_conv by blast
qed

text \<open>What ensuring the keys changes: the key files, and only when there is no private key.\<close>

lemma ensure_keys_within:
  "case client_key_paths (uh_home (ch_up C)) of
     Inl _ \<Rightarrow> snd (ensure_keys C w) = w
   | Inr (private_path, public_path) \<Rightarrow> snd (ensure_keys C w) = w\<lparr>w_fs := w_fs (snd (ensure_keys C w))\<rparr>
       \<and> changes_within (if map_of (w_fs w) private_path = None then {private_path, public_path} else {})
           (w_fs w) (w_fs (snd (ensure_keys C w)))"
proof (cases "client_key_paths (uh_home (ch_up C))")
  case (Inr paths)
  obtain p q where paths: "paths = (p, q)" by fastforce
  obtain r fs where "ensure_client_keypair (uh_keys (ch_up C)) p q (w_fs w) = (r, fs)" by fastforce
  then show ?thesis
    using ensure_client_keypair_within [of "w_fs w" p q "uh_keys (ch_up C)"] Inr
    by (auto simp: paths ensure_keys_def cli_ensure_client_keypair_def split: sum.split)
qed (simp add: ensure_keys_def cli_ensure_client_keypair_def)

end
