(* ===== verification/Flox.thy ===== *)
theory Flox
  imports Services
begin

text \<open>
  The flox provider (\<open>src/provider/flox.rs\<close>): the services and the activation hook read from the
  manifest, the derived copy of the environment without its hook, and a resolution with its effect on
  the file system. The TOML crate and flox itself are parameters.
\<close>

section \<open>The provider's world\<close>

text \<open>\<open>toml\<close>'s parser and printer, the file errors as text, the search for flox, \<open>HOME\<close>, and a run of flox
  in a directory with an environment, which may change files.\<close>

record flox_lib =
  fl_parse :: "string \<Rightarrow> string + toml_table"
  fl_to_string :: "toml_table \<Rightarrow> string + string"
  fl_show :: "fs_error \<Rightarrow> string"
  fl_flox :: "string option"
  fl_home :: "string option"
  fl_activate :: "string \<Rightarrow> (string, string) btmap \<Rightarrow> fs \<Rightarrow> (string + process_output) \<times> fs"

definition string_bytes :: "string \<Rightarrow> bytes" where
  "string_bytes s = map (\<lambda>c. word_of_nat (of_char c)) s"

text \<open>The file system as the fingerprint reads it.\<close>

definition host_view :: "flox_lib \<Rightarrow> fs \<Rightarrow> host_fs" where
  "host_view L fs = \<lparr>hf_is_file = is_file fs, hf_is_dir = is_dir fs,
     hf_read = (\<lambda>p. case read_to_string fs p of Inl e \<Rightarrow> Inl (fl_show L e) | Inr s \<Rightarrow> Inr (string_bytes s))\<rparr>"

text \<open>\<open>toml::Value::get\<close> with a string, \<open>as_str\<close>, \<open>as_bool\<close> and \<open>as_table\<close>.\<close>

definition toml_get :: "string \<Rightarrow> toml_value \<Rightarrow> toml_value option" where
  "toml_get k v = (case v of TTable kvs \<Rightarrow> map_of kvs k | _ \<Rightarrow> None)"

definition toml_str :: "toml_value \<Rightarrow> string option" where
  "toml_str v = (case v of TString s \<Rightarrow> Some s | _ \<Rightarrow> None)"

definition toml_bool :: "toml_value \<Rightarrow> bool option" where
  "toml_bool v = (case v of TBoolean b \<Rightarrow> Some b | _ \<Rightarrow> None)"

definition as_table :: "toml_value \<Rightarrow> toml_table option" where
  "as_table v = (case v of TTable kvs \<Rightarrow> Some kvs | _ \<Rightarrow> None)"

definition flox_manifest :: "string \<Rightarrow> string" where
  "flox_manifest project = path_join project ''.flox/env/manifest.toml''"

section \<open>Services\<close>

definition flox_service_vars :: "string \<Rightarrow> toml_value \<Rightarrow> provider_error + (string, string) btmap" where
  "flox_service_vars name v = (case toml_get ''vars'' v of
      None \<Rightarrow> Inr []
    | Some t \<Rightarrow>
        rbind (ok_or (ResolutionFailed (''service `'' @ name @ ''`: `vars` is not a table'')) (as_table t)) (\<lambda>kvs.
        try_fold (\<lambda>m (k, v).
            rbind (ok_or (ResolutionFailed (''service `'' @ name @ ''`: var `'' @ k @ ''` must be a string'')) (toml_str v))
              (\<lambda>s. Inr (bt_insert k s m))) [] kvs))"

definition flox_service :: "string \<Rightarrow> toml_value \<Rightarrow> provider_error + service_decl" where
  "flox_service name v =
     rbind (ok_or (ResolutionFailed (''service `'' @ name @ ''` in the flox manifest has no string `command`''))
       (Option.bind (toml_get ''command'' v) toml_str)) (\<lambda>command.
     rbind (flox_service_vars name v) (\<lambda>vs.
     rbind (case toml_get ''is-daemon'' v of
              None \<Rightarrow> Inr False
            | Some b \<Rightarrow> ok_or (ResolutionFailed (''service `'' @ name @ ''`: `is-daemon` must be a boolean'')) (toml_bool b))
       (\<lambda>daemon.
     rbind (case Option.bind (toml_get ''shutdown'' v) (toml_get ''command'') of
              None \<Rightarrow> Inr None
            | Some c \<Rightarrow> rbind (ok_or (ResolutionFailed (''service `'' @ name @ ''`: `shutdown.command` must be a string''))
                (toml_str c)) (\<lambda>s. Inr (Some s)))
       (\<lambda>shutdown.
     if daemon \<and> shutdown = None then
       Inl (ResolutionFailed (''service `'' @ name @ ''` sets `is-daemon` but declares no `shutdown.command`; ''
         @ ''it could not be stopped at teardown''))
     else Inr \<lparr>sd_name = name, sd_command = command, sd_vars = vs, sd_is_daemon = daemon,
       sd_shutdown_command = shutdown\<rparr>))))"

definition read_service_declarations :: "flox_lib \<Rightarrow> fs \<Rightarrow> string \<Rightarrow> provider_error + service_support" where
  "read_service_declarations L fs project =
     rbind (map_err (\<lambda>e. ResolutionFailed (''reading '' @ flox_manifest project @ '': '' @ fl_show L e))
       (read_text fs (flox_manifest project))) (\<lambda>text.
     rbind (map_err (\<lambda>e. ResolutionFailed (''parsing '' @ flox_manifest project @ '': '' @ e)) (fl_parse L text)) (\<lambda>parsed.
     case map_of parsed ''services'' of
       None \<Rightarrow> Inr (Declared [])
     | Some t \<Rightarrow>
         rbind (ok_or (ResolutionFailed ''`[services]` in the flox manifest is not a table'') (as_table t)) (\<lambda>kvs.
         rbind (try_fold (\<lambda>ds (name, v). rbind (flox_service name v) (\<lambda>d. Inr (ds @ [d]))) [] kvs)
           (\<lambda>ds. Inr (Declared ds)))))"

definition declared_service_names :: "flox_lib \<Rightarrow> fs \<Rightarrow> string \<Rightarrow> string list" where
  "declared_service_names L fs project = (case read_service_declarations L fs project of
      Inr (Declared services) \<Rightarrow> map sd_name services
    | _ \<Rightarrow> [])"

section \<open>The activation hook\<close>

text \<open>The script of a parsed manifest; one that is only white space does not count.\<close>

definition hook_script :: "toml_table \<Rightarrow> string option" where
  "hook_script parsed =
     (case Option.bind (Option.bind (Option.bind (map_of parsed ''hook'') as_table) (\<lambda>h. map_of h ''on-activate'')) toml_str of
        Some s \<Rightarrow> if str_trim s = [] then None else Some s
      | None \<Rightarrow> None)"

definition activation_hook_script :: "flox_lib \<Rightarrow> fs \<Rightarrow> string \<Rightarrow> provider_error + string option" where
  "activation_hook_script L fs project =
     rbind (map_err (\<lambda>e. ResolutionFailed (''reading '' @ flox_manifest project @ '': '' @ fl_show L e))
       (read_text fs (flox_manifest project))) (\<lambda>text.
     rbind (map_err (\<lambda>e. ResolutionFailed (''parsing '' @ flox_manifest project @ '': '' @ e @ [newline]
         @ ''devcroft must parse this manifest to separate materialization from ''
         @ ''`[hook].on-activate`; it will not fall back to running the hook on the host'')) (fl_parse L text)) (\<lambda>parsed.
     Inr (hook_script parsed)))"

definition strip_hook :: "flox_lib \<Rightarrow> string \<Rightarrow> provider_error + string" where
  "strip_hook L text =
     rbind (map_err (\<lambda>e. ResolutionFailed (''parsing the flox manifest: '' @ e)) (fl_parse L text)) (\<lambda>parsed.
     map_err (\<lambda>e. ResolutionFailed (''serialising the derived manifest: '' @ e))
       (fl_to_string L (filter (\<lambda>(k, _). k \<noteq> ''hook'') parsed)))"

section \<open>The derived environment\<close>

definition fs_bind :: "('e + 'a) \<times> fs \<Rightarrow> ('a \<Rightarrow> fs \<Rightarrow> ('e + 'b) \<times> fs) \<Rightarrow> ('e + 'b) \<times> fs" where
  "fs_bind r f = (case r of (Inl e, fs) \<Rightarrow> (Inl e, fs) | (Inr x, fs) \<Rightarrow> f x fs)"

text \<open>A change of the file system whose error is wrapped.\<close>

definition failing :: "flox_lib \<Rightarrow> string \<Rightarrow> (fs_error + 'a) \<times> fs \<Rightarrow> (provider_error + 'a) \<times> fs" where
  "failing L what r = (map_err (\<lambda>e. ResolutionFailed (what @ '': '' @ fl_show L e)) (fst r), snd r)"

text \<open>\<open>std::fs::copy\<close>.\<close>

definition fs_copy :: "string \<Rightarrow> string \<Rightarrow> fs \<Rightarrow> (fs_error + unit) \<times> fs" where
  "fs_copy p q fs = (case read_to_string fs p of Inl e \<Rightarrow> (Inl e, fs) | Inr s \<Rightarrow> fs_write q s fs)"

definition derived_dir :: "string \<Rightarrow> string \<Rightarrow> string" where
  "derived_dir project fp = path_join (path_join project ARTIFACT_DIR) (DERIVED_ENV_PREFIX @ fp)"

text \<open>The first half: the directory and the manifest.\<close>

definition derive_manifest :: "flox_lib \<Rightarrow> string \<Rightarrow> string \<Rightarrow> fs \<Rightarrow> (provider_error + unit) \<times> fs" where
  "derive_manifest L project derived fs =
     (let env_dir = path_join derived ''.flox/env'' in
      fs_bind (failing L (''creating '' @ env_dir) (create_dir_all env_dir fs)) (\<lambda>_ fs.
      fs_bind (failing L ''reading the flox manifest''
          (read_text fs (path_join (path_join project ''.flox'') ''env/manifest.toml''), fs)) (\<lambda>text fs.
      fs_bind (strip_hook L text, fs) (\<lambda>stripped fs.
      failing L ''writing the derived manifest'' (fs_write (path_join env_dir ''manifest.toml'') stripped fs)))))"

text \<open>The second half: a file that is copied when the project has it.\<close>

definition derive_optional :: "flox_lib \<Rightarrow> string \<Rightarrow> string \<Rightarrow> string \<Rightarrow> fs \<Rightarrow> (provider_error + unit) \<times> fs" where
  "derive_optional L project derived optional fs =
     (let src = path_join (path_join project ''.flox'') optional;
          dst = path_join (path_join derived ''.flox'') optional
      in if is_file fs src then failing L (''copying '' @ src) (fs_copy src dst (snd (create_dir_all (fs_parent dst) fs)))
         else (Inr (), fs))"

definition derive_hook_free_env :: "flox_lib \<Rightarrow> string \<Rightarrow> fs \<Rightarrow> (provider_error + string) \<times> fs" where
  "derive_hook_free_env L project fs =
     fs_bind (flox_manifest_fingerprint (host_view L fs) project, fs) (\<lambda>fp fs.
     let derived = derived_dir project fp in
     if is_file fs (path_join (path_join derived ''.flox/env'') ''manifest.toml'') then (Inr derived, fs)
     else fs_bind (derive_manifest L project derived fs) (\<lambda>_ fs.
       fs_bind (derive_optional L project derived ''env/manifest.lock'' fs) (\<lambda>_ fs.
       fs_bind (derive_optional L project derived ''env.json'' fs) (\<lambda>_ fs. (Inr derived, fs)))))"

section \<open>Resolution\<close>

definition flox_capture :: "flox_lib \<Rightarrow> string \<Rightarrow> (string, string) btmap \<Rightarrow> fs \<Rightarrow>
    (provider_error + (string, string) btmap) \<times> fs" where
  "flox_capture L dir base fs = (case fl_flox L of
      None \<Rightarrow> (Inl (MissingBinary ''flox'' ''devcroft doctor''), fs)
    | Some _ \<Rightarrow> (case fl_activate L dir base fs of
        (Inl e, fs) \<Rightarrow> (Inl (ResolutionFailed (''running `flox activate`: '' @ e)), fs)
      | (Inr out, fs) \<Rightarrow> (case po_failed out of
          Some status \<Rightarrow> (Inl (ResolutionFailed (''`flox activate` exited with '' @ status @ '': ''
              @ from_utf8_lossy (po_stderr out))), fs)
        | None \<Rightarrow> (Inr (parse_env_dump from_utf8_lossy (po_stdout out)), fs))))"

text \<open>Where flox is run, with the script that was left out there.\<close>

definition materialize_from :: "flox_lib \<Rightarrow> string \<Rightarrow> fs \<Rightarrow> (provider_error + (string option \<times> string)) \<times> fs" where
  "materialize_from L project fs =
     fs_bind (ensure_environment_present (host_view L fs) project, fs) (\<lambda>_ fs.
     fs_bind (activation_hook_script L fs project, fs) (\<lambda>script fs.
     case script of
       None \<Rightarrow> (Inr (None, project), fs)
     | Some s \<Rightarrow> fs_bind (derive_hook_free_env L project fs) (\<lambda>dir fs. (Inr (Some s, dir), fs))))"

definition flox_resolve :: "flox_lib \<Rightarrow> string \<Rightarrow> fs \<Rightarrow> (provider_error + resolution) \<times> fs" where
  "flox_resolve L project fs =
     fs_bind (materialize_from L project fs) (\<lambda>(script, dir) fs.
     fs_bind (canonical_base_env (fl_home L), fs) (\<lambda>base fs.
     fs_bind (flox_capture L dir base fs) (\<lambda>activated fs.
     fs_bind (read_service_declarations L fs project, fs) (\<lambda>services fs.
     (Inr \<lparr>res_env = changed_env base activated, res_unset = unset_env base activated,
        res_read_only_grants = store_grants activated, res_activation_script = script,
        res_services = services, res_ran_activation_hook = False\<rparr>, fs)))))"

section \<open>Lemmas: paths and files\<close>

lemma fs_bind_Inr:
  "fs_bind r f = (Inr y, fs') \<longleftrightarrow> (\<exists>x fs. r = (Inr x, fs) \<and> f x fs = (Inr y, fs'))"
  by (cases r; cases "fst r") (auto simp: fs_bind_def)

lemma failing_Inr: "failing L what r = (Inr y, fs') \<longleftrightarrow> r = (Inr y, fs')"
  by (cases r; cases "fst r") (auto simp: failing_def map_err_def)

definition dir_slash :: "string \<Rightarrow> string" where
  "dir_slash p = (if p = [] \<or> last p = CHR ''/'' then p else p @ ''/'')"

lemma path_join_rel: "\<not> starts_with ''/'' r \<Longrightarrow> path_join p r = dir_slash p @ r"
  by (simp add: path_join_def dir_slash_def)

lemma dir_slash_append: "r \<noteq> [] \<Longrightarrow> last r \<noteq> CHR ''/'' \<Longrightarrow> dir_slash (p @ r) = p @ r @ ''/''"
  by (simp add: dir_slash_def)

lemmas rel_simps = path_join_rel dir_slash_append starts_with_def

lemma flox_paths:
  "flox_manifest p = dir_slash p @ ''.flox/env/manifest.toml''"
  "path_join (path_join p ''.flox'') ''env/manifest.toml'' = dir_slash p @ ''.flox/env/manifest.toml''"
  "path_join (path_join p ''.flox/env'') ''manifest.toml'' = dir_slash p @ ''.flox/env/manifest.toml''"
  "path_join (path_join p ''.flox'') ''env/manifest.lock'' = dir_slash p @ ''.flox/env/manifest.lock''"
  "path_join (path_join p ''.flox'') ''env.json'' = dir_slash p @ ''.flox/env.json''"
  "path_join p ''.flox/env'' = dir_slash p @ ''.flox/env''"
  "path_join (dir_slash p @ ''.flox/env'') ''manifest.toml'' = dir_slash p @ ''.flox/env/manifest.toml''"
  by (simp_all add: flox_manifest_def rel_simps)

text \<open>The derived copy is under the artifact directory.\<close>

lemma derived_dir_slash: "\<exists>t. dir_slash (derived_dir project fp) = dir_slash project @ ''.devcroft/'' @ t"
  by (simp add: derived_dir_def ARTIFACT_DIR_def DERIVED_ENV_PREFIX_def rel_simps) (simp add: dir_slash_def)

lemma read_text_eq: "map_of fs p = map_of fs' p' \<Longrightarrow> read_text fs p = read_text fs' p'"
  by (simp add: read_text_def read_to_string_def)

lemma fs_write_frame: "q \<noteq> p \<Longrightarrow> map_of (snd (fs_write p s fs)) q = map_of fs q"
  by (auto simp: fs_write_def update_conv' split: option.splits fs_node.splits)

lemma fs_copy_Inr:
  "fs_copy p q fs = (Inr (), fs') \<Longrightarrow> \<exists>s. map_of fs p = Some (FileNode s) \<and> fs' = AList.update q (FileNode s) fs"
  by (auto simp: fs_copy_def read_to_string_def split: sum.splits option.splits fs_node.splits dest!: fs_write_Ok)

text \<open>Neither half changes the project's own environment.\<close>

lemma outside_derived:
  assumes "dir_slash derived = dir_slash project @ ''.devcroft/'' @ t"
  shows "\<not> prefix (dir_slash project @ ''.flox'' @ r) (dir_slash derived @ x)"
    and "dir_slash project @ ''.flox'' @ r \<noteq> dir_slash derived @ x"
  using assms by simp_all

lemma derive_manifest_Inr:
  assumes "derive_manifest L project derived fs = (Inr u, fs')"
    and "dir_slash derived = dir_slash project @ ''.devcroft/'' @ t"
  obtains body stripped where "read_text fs (flox_manifest project) = Inr body" "strip_hook L body = Inr stripped"
    "map_of fs' (flox_manifest derived) = Some (FileNode stripped)"
    "\<And>r. map_of fs' (dir_slash project @ ''.flox'' @ r) = map_of fs (dir_slash project @ ''.flox'' @ r)"
proof -
  let ?env = "dir_slash derived @ ''.flox/env''"
  obtain fs1 body stripped where mk: "create_dir_all ?env fs = (Inr (), fs1)"
    and rd: "read_text fs1 (dir_slash project @ ''.flox/env/manifest.toml'') = Inr body"
    and st: "strip_hook L body = Inr stripped"
    and wr: "fs_write (dir_slash derived @ ''.flox/env/manifest.toml'') stripped fs1 = (Inr (), fs')"
    using assms(1) by (auto simp: derive_manifest_def Let_def fs_bind_Inr failing_Inr flox_paths)
  have fs1: "map_of fs1 (dir_slash project @ ''.flox'' @ r) = map_of fs (dir_slash project @ ''.flox'' @ r)" for r
    using create_dir_all_frame [of "dir_slash project @ ''.flox'' @ r" ?env fs] outside_derived(1) [OF assms(2)] mk by simp
  have fs': "fs' = AList.update (dir_slash derived @ ''.flox/env/manifest.toml'') (FileNode stripped) fs1"
    by (rule fs_write_Ok [OF wr])
  show ?thesis
  proof (rule that)
    show "read_text fs (flox_manifest project) = Inr body"
      using rd read_text_eq [OF fs1 [of "''/env/manifest.toml''", symmetric]] by (simp add: flox_paths)
    show "map_of fs' (dir_slash project @ ''.flox'' @ r) = map_of fs (dir_slash project @ ''.flox'' @ r)" for r
      using fs' fs1 outside_derived(2) [OF assms(2)] by (simp add: update_conv')
  qed (use st fs' in \<open>simp_all add: flox_paths update_conv'\<close>)
qed

lemma derive_optional_Inr:
  assumes "derive_optional L project derived optional fs = (Inr u, fs')"
    and "dir_slash derived = dir_slash project @ ''.devcroft/'' @ t"
    and "optional \<in> {''env/manifest.lock'', ''env.json''}"
  shows "map_of fs' (dir_slash project @ ''.flox'' @ r) = map_of fs (dir_slash project @ ''.flox'' @ r)"
    and "map_of fs q \<noteq> None \<Longrightarrow> q \<noteq> dir_slash derived @ ''.flox/'' @ optional \<Longrightarrow> map_of fs' q = map_of fs q"
    and "is_file fs (dir_slash project @ ''.flox/'' @ optional) \<Longrightarrow>
      map_of fs' (dir_slash derived @ ''.flox/'' @ optional) = map_of fs (dir_slash project @ ''.flox/'' @ optional)"
proof -
  let ?src = "dir_slash project @ ''.flox/'' @ optional" and ?dst = "dir_slash derived @ ''.flox/'' @ optional"
  have paths: "path_join (path_join project ''.flox'') optional = ?src" "path_join (path_join derived ''.flox'') optional = ?dst"
    using assms(3) by (auto simp: flox_paths)
  define fs1 where "fs1 = snd (create_dir_all (fs_parent ?dst) fs)"
  have frame: "map_of fs1 (dir_slash project @ ''.flox'' @ r) = map_of fs (dir_slash project @ ''.flox'' @ r)" for r
  proof -
    have "\<not> prefix (dir_slash project @ ''.flox'' @ r) (fs_parent ?dst)"
      using outside_derived(1) [OF assms(2), of r "''.flox/'' @ optional"] prefix_order.trans [OF _ fs_parent_prefix] by blast
    then show ?thesis unfolding fs1_def by (rule create_dir_all_frame)
  qed
  have keeps: "map_of fs q \<noteq> None \<Longrightarrow> map_of fs1 q = map_of fs q" for q
    unfolding fs1_def by (rule create_dir_all_keeps)
  have step: "if is_file fs ?src then failing L (''copying '' @ ?src) (fs_copy ?src ?dst fs1) = (Inr u, fs')
      else fs' = fs"
    using assms(1) unfolding derive_optional_def Let_def paths fs1_def by (simp split: if_splits)
  have cases: "(\<not> is_file fs ?src \<Longrightarrow> fs' = fs \<Longrightarrow> P) \<Longrightarrow>
      (\<And>s. map_of fs1 ?src = Some (FileNode s) \<Longrightarrow> fs' = AList.update ?dst (FileNode s) fs1 \<Longrightarrow> P) \<Longrightarrow> P" for P
    using step fs_copy_Inr [of ?src ?dst fs1 fs'] unfolding failing_Inr by (cases "is_file fs ?src") auto
  show "map_of fs' (dir_slash project @ ''.flox'' @ r) = map_of fs (dir_slash project @ ''.flox'' @ r)"
    using frame outside_derived(2) [OF assms(2)] by (cases rule: cases) (simp_all add: update_conv')
  show "map_of fs q \<noteq> None \<Longrightarrow> q \<noteq> ?dst \<Longrightarrow> map_of fs' q = map_of fs q"
    using keeps by (cases rule: cases) (simp_all add: update_conv')
  show "is_file fs ?src \<Longrightarrow> map_of fs' ?dst = map_of fs ?src"
    using keeps frame [of "''/'' @ optional"] by (cases rule: cases) (simp_all add: update_conv')
qed

section \<open>Theorems\<close>

definition parsed_manifest :: "flox_lib \<Rightarrow> fs \<Rightarrow> string \<Rightarrow> toml_table option" where
  "parsed_manifest L fs project = (case read_text fs (flox_manifest project) of
      Inl _ \<Rightarrow> None
    | Inr body \<Rightarrow> (case fl_parse L body of Inl _ \<Rightarrow> None | Inr t \<Rightarrow> Some t))"

lemma activation_hook_script_iff:
  "activation_hook_script L fs project = Inr script \<longleftrightarrow> (\<exists>t. parsed_manifest L fs project = Some t \<and> script = hook_script t)"
  by (auto simp: activation_hook_script_def parsed_manifest_def map_err_def split: sum.splits)

lemma hook_script_stripped: "hook_script (filter (\<lambda>(k, _). k \<noteq> ''hook'') t) = None"
proof -
  have "map_of (filter (\<lambda>(k, _). k \<noteq> ''hook'') t) ''hook'' = None" by (auto simp: map_of_eq_None_iff)
  then show ?thesis by (simp add: hook_script_def)
qed

lemma derive_hook_free_env_fresh:
  assumes "derive_hook_free_env L project fs = (Inr dir, fs')"
    and "\<And>t s. fl_to_string L t = Inr s \<Longrightarrow> fl_parse L s = Inr t \<and> utf8_valid s"
    and "\<And>fp. \<not> is_file fs (flox_manifest (derived_dir project fp))"
    and "parsed_manifest L fs project = Some table"
  shows "parsed_manifest L fs' dir = Some (filter (\<lambda>(k, _). k \<noteq> ''hook'') table)"
    and "map_of fs' (dir_slash project @ ''.flox'' @ r) = map_of fs (dir_slash project @ ''.flox'' @ r)"
    and "optional \<in> {''env/manifest.lock'', ''env.json''} \<Longrightarrow> is_file fs (dir_slash project @ ''.flox/'' @ optional) \<Longrightarrow>
      map_of fs' (dir_slash dir @ ''.flox/'' @ optional) = map_of fs (dir_slash project @ ''.flox/'' @ optional)"
proof -
  obtain fs1 fs2 where m: "derive_manifest L project dir fs = (Inr (), fs1)"
    and l: "derive_optional L project dir ''env/manifest.lock'' fs1 = (Inr (), fs2)"
    and j: "derive_optional L project dir ''env.json'' fs2 = (Inr (), fs')"
    and dir: "\<exists>fp. dir = derived_dir project fp"
    using assms(1,3) by (auto simp: derive_hook_free_env_def Let_def fs_bind_Inr flox_paths split: if_splits)
  obtain t where slash: "dir_slash dir = dir_slash project @ ''.devcroft/'' @ t" using dir derived_dir_slash by blast
  obtain body stripped where rd: "read_text fs (flox_manifest project) = Inr body" and st: "strip_hook L body = Inr stripped"
    and wr: "map_of fs1 (flox_manifest dir) = Some (FileNode stripped)"
    and frame: "\<And>r. map_of fs1 (dir_slash project @ ''.flox'' @ r) = map_of fs (dir_slash project @ ''.flox'' @ r)"
    using derive_manifest_Inr [OF m slash] by metis
  note lock = derive_optional_Inr [OF l slash] and json = derive_optional_Inr [OF j slash]
  have kept: "map_of fs' (flox_manifest dir) = Some (FileNode stripped)"
    using wr lock(2) [of "flox_manifest dir"] json(2) [of "flox_manifest dir"] by (simp add: flox_paths)
  have "fl_to_string L (filter (\<lambda>(k, _). k \<noteq> ''hook'') table) = Inr stripped"
    using st rd assms(4) by (auto simp: strip_hook_def parsed_manifest_def map_err_def split: sum.splits)
  then show "parsed_manifest L fs' dir = Some (filter (\<lambda>(k, _). k \<noteq> ''hook'') table)"
    using assms(2) kept by (auto simp: parsed_manifest_def read_text_def read_to_string_def)
  show "map_of fs' (dir_slash project @ ''.flox'' @ r) = map_of fs (dir_slash project @ ''.flox'' @ r)"
    using frame lock(1) json(1) by simp
  assume "optional \<in> {''env/manifest.lock'', ''env.json''}" and isf: "is_file fs (dir_slash project @ ''.flox/'' @ optional)"
  moreover have "is_file fs1 (dir_slash project @ ''.flox/'' @ optional)" "is_file fs2 (dir_slash project @ ''.flox/'' @ optional)"
    using isf frame [of "''/'' @ optional"] lock(1) [of "''/'' @ optional"] by (simp_all add: is_file_def)
  ultimately show "map_of fs' (dir_slash dir @ ''.flox/'' @ optional) = map_of fs (dir_slash project @ ''.flox/'' @ optional)"
    using frame [of "''/'' @ optional"] lock(1) [of "''/'' @ optional"] lock(3) json(3)
      json(2) [of "dir_slash dir @ ''.flox/env/manifest.lock''"]
    by (auto simp: is_file_def split: option.splits)
qed

text \<open>
  C7: flox is never run where it would run the project's hook, when no derived copy is there yet: the
  manifest of the directory it runs in is the project's without its hook, so it has no activation
  script; the lock and the description beside it are the project's; and the project's own
  environment is not changed. The script itself is returned, to be run inside the sandbox.
\<close>

theorem flox_runs_without_hook:
  assumes "materialize_from L project fs = (Inr (script, dir), fs')"
    and "\<And>t s. fl_to_string L t = Inr s \<Longrightarrow> fl_parse L s = Inr t \<and> utf8_valid s"
    and "\<And>fp. \<not> is_file fs (flox_manifest (derived_dir project fp))"
  shows "activation_hook_script L fs project = Inr script
    \<and> activation_hook_script L fs' dir = Inr None
    \<and> (\<exists>table. parsed_manifest L fs project = Some table
        \<and> parsed_manifest L fs' dir = Some (if script = None then table else filter (\<lambda>(k, _). k \<noteq> ''hook'') table))
    \<and> (\<forall>optional \<in> {''env/manifest.lock'', ''env.json''}. is_file fs (dir_slash project @ ''.flox/'' @ optional) \<longrightarrow>
        map_of fs' (dir_slash dir @ ''.flox/'' @ optional) = map_of fs (dir_slash project @ ''.flox/'' @ optional))
    \<and> (\<forall>r. map_of fs' (dir_slash project @ ''.flox'' @ r) = map_of fs (dir_slash project @ ''.flox'' @ r))"
proof -
  obtain table where table: "parsed_manifest L fs project = Some table" "script = hook_script table"
    and hook: "activation_hook_script L fs project = Inr script"
    using assms(1) by (auto simp: materialize_from_def fs_bind_Inr activation_hook_script_iff split: option.splits)
  show ?thesis
  proof (cases script)
    case None
    then have "dir = project" "fs' = fs"
      using assms(1) hook by (auto simp: materialize_from_def fs_bind_Inr)
    then show ?thesis using None hook table by auto
  next
    case (Some s)
    then have derive: "derive_hook_free_env L project fs = (Inr dir, fs')"
      using assms(1) hook by (auto simp: materialize_from_def fs_bind_Inr)
    note fresh = derive_hook_free_env_fresh [OF derive assms(2,3) table(1)]
    have "activation_hook_script L fs' dir = Inr None"
      using fresh(1) hook_script_stripped by (auto simp: activation_hook_script_iff)
    then show ?thesis using Some hook table(1) fresh by auto
  qed
qed

text \<open>A project with a hook and a lock, and a TOML of three documents.\<close>

definition sample_flox :: flox_lib where
  "sample_flox = \<lparr>
     fl_parse = (\<lambda>s. if s = ''m'' then Inr [(''hook'', TTable [(''on-activate'', TString ''x'')])]
        else if s = ''evil'' then Inr [(''hook'', TTable [(''on-activate'', TString ''y'')])]
        else if s = ''d'' then Inr [] else Inl ''bad''),
     fl_to_string = (\<lambda>t. case t of [] \<Rightarrow> Inr ''d'' | _ \<Rightarrow> Inl ''no''),
     fl_show = (\<lambda>_. ''error''), fl_flox = Some ''/bin/flox'', fl_home = Some ''/h'',
     fl_activate = (\<lambda>dir base fs. (Inl ''no'', fs))\<rparr>"

definition sample_flox_fs :: fs where
  "sample_flox_fs = [(''/p'', DirNode), (''/p/.flox'', DirNode), (''/p/.flox/env'', DirNode),
     (''/p/.flox/env/manifest.toml'', FileNode ''m''), (''/p/.flox/env/manifest.lock'', FileNode ''l'')]"

definition sample_fp :: string where
  "sample_fp = ''5f7caa39f6557492''"

lemma hex_digits_numeral:
  "hex_digits (numeral k) n = hex_digits (pred_numeral k) (n div 16) @ [hex_digit (n mod 16)]"
  unfolding numeral_eq_Suc [of k] by (rule hex_digits.simps(2))

lemma sample_fp_eq: "fingerprint [[109], [80, 108]] = sample_fp"
proof -
  have "fnv_hash [[109], [80, 108]] = 0x5f7caa39f6557492"
    by (simp add: fnv_hash_def fnv_part_def fnv_round_def FNV_OFFSET_def FNV_PRIME_def)
  then show ?thesis by (simp add: fingerprint_def hex_digits_numeral hex_digit_def sample_fp_def char_of_def bit_0)
qed

lemma sample_flox_fingerprint:
  "flox_manifest_fingerprint (host_view sample_flox sample_flox_fs) ''/p'' = Inr sample_fp"
  by (simp add: flox_manifest_fingerprint_def host_view_def sample_flox_fs_def ensure_environment_present_def
      read_definition_def optional_file_part_def path_join_def starts_with_def is_dir_def read_to_string_def map_err_def
      string_bytes_def flip: sample_fp_eq)

lemma sample_flox_run:
  "\<exists>dir fs'. materialize_from sample_flox ''/p'' sample_flox_fs = (Inr (Some ''x'', dir), fs')"
proof -
  have "ensure_environment_present (host_view sample_flox sample_flox_fs) ''/p'' = Inr ()"
    "activation_hook_script sample_flox sample_flox_fs ''/p'' = Inr (Some ''x'')" by code_simp+
  moreover have "\<not> is_file sample_flox_fs (path_join (path_join (derived_dir ''/p'' sample_fp) ''.flox/env'') ''manifest.toml'')"
    "(case fs_bind (derive_manifest sample_flox ''/p'' (derived_dir ''/p'' sample_fp) sample_flox_fs) (\<lambda>_ fs.
       fs_bind (derive_optional sample_flox ''/p'' (derived_dir ''/p'' sample_fp) ''env/manifest.lock'' fs) (\<lambda>_ fs.
       fs_bind (derive_optional sample_flox ''/p'' (derived_dir ''/p'' sample_fp) ''env.json'' fs) (\<lambda>_ fs.
         (Inr (derived_dir ''/p'' sample_fp), fs)))) of (Inr _, _) \<Rightarrow> True | _ \<Rightarrow> False)"
    by code_simp+
  ultimately show ?thesis
    by (simp add: materialize_from_def derive_hook_free_env_def sample_flox_fingerprint fs_bind_def Let_def
        split: prod.splits sum.splits)
qed

lemma sample_flox_toml:
  "fl_to_string sample_flox t = Inr s \<Longrightarrow> fl_parse sample_flox s = Inr t \<and> utf8_valid s"
  by (auto simp: sample_flox_def split: list.splits)

lemma sample_flox_fresh: "\<not> is_file sample_flox_fs (flox_manifest (derived_dir ''/p'' fp))"
  by (simp add: sample_flox_fs_def is_file_def flox_manifest_def derived_dir_def ARTIFACT_DIR_def DERIVED_ENV_PREFIX_def
      path_join_def starts_with_def)

theorem flox_runs_without_hook_witness:
  "\<exists>dir fs'. materialize_from sample_flox ''/p'' sample_flox_fs = (Inr (Some ''x'', dir), fs')
    \<and> activation_hook_script sample_flox fs' dir = Inr None
    \<and> map_of fs' (dir_slash dir @ ''.flox/env/manifest.lock'') = Some (FileNode ''l'')"
proof -
  obtain dir fs' where run: "materialize_from sample_flox ''/p'' sample_flox_fs = (Inr (Some ''x'', dir), fs')"
    using sample_flox_run by blast
  have "is_file sample_flox_fs (dir_slash ''/p'' @ ''.flox/'' @ ''env/manifest.lock'')"
    "map_of sample_flox_fs (dir_slash ''/p'' @ ''.flox/'' @ ''env/manifest.lock'') = Some (FileNode ''l'')"
    by (simp_all add: sample_flox_fs_def is_file_def dir_slash_def)
  then show ?thesis
    using flox_runs_without_hook [OF run sample_flox_toml sample_flox_fresh] run by auto
qed


definition poisoned_fs :: fs where
  "poisoned_fs = sample_flox_fs @ [(flox_manifest (derived_dir ''/p'' sample_fp), FileNode ''evil'')]"


text \<open>
  The derived manifest is written before the lock is copied, and it alone decides whether the copy is
  reused: a resolution that stopped between the two, or another one running at the same time, leaves
  a copy without the project's lock that every later resolution of the same environment uses.
\<close>

theorem flox_reuses_incomplete_copy:
  assumes "ensure_environment_present (host_view L fs) project = Inr ()"
    and "activation_hook_script L fs project = Inr (Some s)"
    and "flox_manifest_fingerprint (host_view L fs) project = Inr fp"
    and "map_of fs (dir_slash (derived_dir project fp) @ ''.flox/env/manifest.lock'') = None"
    and "derive_manifest L project (derived_dir project fp) fs = (Inr (), fs1)"
  shows "materialize_from L project fs1 = (Inr (Some s, derived_dir project fp), fs1)
    \<and> \<not> is_file fs1 (dir_slash (derived_dir project fp) @ ''.flox/env/manifest.lock'')"
proof -
  obtain t where slash: "dir_slash (derived_dir project fp) = dir_slash project @ ''.devcroft/'' @ t"
    using derived_dir_slash by blast
  obtain stripped where wr: "map_of fs1 (flox_manifest (derived_dir project fp)) = Some (FileNode stripped)"
    and frame: "\<And>r. map_of fs1 (dir_slash project @ ''.flox'' @ r) = map_of fs (dir_slash project @ ''.flox'' @ r)"
    using derive_manifest_Inr [OF assms(5) slash] by metis
  have same: "map_of fs1 (flox_manifest project) = map_of fs (flox_manifest project)"
    using frame [of "''/env/manifest.toml''"] by (simp add: flox_paths)
  have "ensure_environment_present (host_view L fs1) project = Inr ()"
    using assms(1) frame [of "[]"]
    by (simp add: ensure_environment_present_def host_view_def is_dir_def path_join_rel starts_with_def split: if_splits)
  moreover have "activation_hook_script L fs1 project = Inr (Some s)"
    using assms(2) read_text_eq [OF same] by (simp add: activation_hook_script_def)
  moreover have "flox_manifest_fingerprint (host_view L fs1) project = Inr fp"
    using assms(3) frame [of "[]"] frame [of "''/env/manifest.toml''"] frame [of "''/env/manifest.lock''"]
    by (simp add: flox_manifest_fingerprint_def ensure_environment_present_def host_view_def is_dir_def read_definition_def
        optional_file_part_def read_to_string_def path_join_rel starts_with_def)
  moreover have "is_file fs1 (flox_manifest (derived_dir project fp))" using wr by (simp add: is_file_def)
  ultimately have "materialize_from L project fs1 = (Inr (Some s, derived_dir project fp), fs1)"
    by (simp add: materialize_from_def derive_hook_free_env_def fs_bind_def flox_paths)
  moreover obtain fs0 where "create_dir_all (dir_slash (derived_dir project fp) @ ''.flox/env'') fs = (Inr (), fs0)"
      "fs1 = AList.update (dir_slash (derived_dir project fp) @ ''.flox/env/manifest.toml'') (FileNode stripped) fs0"
    using assms(5) wr by (auto simp: derive_manifest_def Let_def fs_bind_Inr failing_Inr flox_paths update_conv' dest!: fs_write_Ok)
  then have "\<not> is_file fs1 (dir_slash (derived_dir project fp) @ ''.flox/env/manifest.lock'')"
    using assms(4) create_dir_all_new [of "dir_slash (derived_dir project fp) @ ''.flox/env''" fs
        "dir_slash (derived_dir project fp) @ ''.flox/env/manifest.lock''"]
    by (auto simp: is_file_def update_conv')
  ultimately show ?thesis by blast
qed

theorem flox_reuses_incomplete_copy_witness:
  "\<exists>fs1. derive_manifest sample_flox ''/p'' (derived_dir ''/p'' sample_fp) sample_flox_fs = (Inr (), fs1)
    \<and> materialize_from sample_flox ''/p'' fs1 = (Inr (Some ''x'', derived_dir ''/p'' sample_fp), fs1)
    \<and> \<not> is_file fs1 (dir_slash (derived_dir ''/p'' sample_fp) @ ''.flox/env/manifest.lock'')"
proof -
  have "case derive_manifest sample_flox ''/p'' (derived_dir ''/p'' sample_fp) sample_flox_fs of (Inr _, _) \<Rightarrow> True | _ \<Rightarrow> False"
    by code_simp
  then obtain fs1 where "derive_manifest sample_flox ''/p'' (derived_dir ''/p'' sample_fp) sample_flox_fs = (Inr (), fs1)"
    by (auto split: prod.splits sum.splits)
  moreover have "ensure_environment_present (host_view sample_flox sample_flox_fs) ''/p'' = Inr ()"
    "activation_hook_script sample_flox sample_flox_fs ''/p'' = Inr (Some ''x'')"
    "map_of sample_flox_fs (dir_slash (derived_dir ''/p'' sample_fp) @ ''.flox/env/manifest.lock'') = None" by code_simp+
  ultimately show ?thesis using flox_reuses_incomplete_copy sample_flox_fingerprint by blast
qed

section \<open>Theorems: services\<close>

lemma flox_service_Inr:
  assumes "flox_service name v = Inr d"
  shows "sd_name d = name" and "sd_is_daemon d \<Longrightarrow> \<exists>cmd. sd_shutdown_command d = Some cmd"
    and "Option.bind (toml_get ''command'' v) toml_str = Some (sd_command d)"
  using assms by (auto simp: flox_service_def result_simps ok_or_def split: option.splits if_splits)

lemma flox_services_fold:
  assumes "try_fold (\<lambda>ds (name, v). rbind (flox_service name v) (\<lambda>d. Inr (ds @ [d]))) ds0 kvs = Inr ds"
  shows "\<exists>new. ds = ds0 @ new \<and> list_all2 (\<lambda>(name, v) d. flox_service name v = Inr d) kvs new"
  using assms
proof (induction kvs arbitrary: ds0)
  case (Cons kv kvs)
  obtain name v where kv: "kv = (name, v)" by (cases kv)
  with Cons.prems obtain d where d: "flox_service name v = Inr d"
    and rest: "try_fold (\<lambda>ds (name, v). rbind (flox_service name v) (\<lambda>d. Inr (ds @ [d]))) (ds0 @ [d]) kvs = Inr ds"
    by (cases "flox_service name v") auto
  obtain new where "ds = (ds0 @ [d]) @ new" "list_all2 (\<lambda>(name, v) d. flox_service name v = Inr d) kvs new"
    using Cons.IH [OF rest] by blast
  then show ?case using kv d by (intro exI [of _ "d # new"]) simp
qed simp

lemma daemon_entry_shutdown:
  assumes "sd_is_daemon d" and "sd_shutdown_command d = Some cmd"
  shows "Option.bind (json_get ''shutdown'' (service_entry d)) (json_get ''command'') = Some (JString cmd)"
proof -
  have "bt_wf m \<Longrightarrow> map_of (bt_insert k v m) k = Some v" for k :: string and v :: json and m
    by (simp add: bt_get_insert)
  moreover have "bt_wf (bt_insert k v m)" if "bt_wf m" for k :: string and v :: json and m
    by (rule bt_insert_wf [OF that])
  moreover have "bt_wf ([] :: (string, json) btmap)" by (simp add: bt_wf_def)
  ultimately show ?thesis
    using assms by (simp add: service_entry_def Let_def json_get_def)
qed

text \<open>
  The services of a flox manifest: when they are accepted, there is one for every entry of the table, in
  its order and with its name and command, and one that puts itself in the background always has a
  command to stop it, which the supervisor's configuration carries.
\<close>

theorem flox_services_declared:
  assumes "read_service_declarations L fs project = Inr (Declared ds)"
    and "parsed_manifest L fs project = Some table" and "map_of table ''services'' = Some (TTable kvs)"
  shows "map sd_name ds = map fst kvs
    \<and> map (\<lambda>d. Some (sd_command d)) ds = map (\<lambda>(_, v). Option.bind (toml_get ''command'' v) toml_str) kvs
    \<and> (\<forall>d \<in> set ds. sd_is_daemon d \<longrightarrow> (\<exists>cmd. sd_shutdown_command d = Some cmd
        \<and> Option.bind (json_get ''shutdown'' (service_entry d)) (json_get ''command'') = Some (JString cmd)))"
proof -
  have "try_fold (\<lambda>ds (name, v). rbind (flox_service name v) (\<lambda>d. Inr (ds @ [d]))) [] kvs = Inr ds"
    using assms
    by (auto simp: read_service_declarations_def parsed_manifest_def map_err_def as_table_def ok_or_def result_simps
        split: sum.splits)
  then have each: "list_all2 (\<lambda>(name, v) d. flox_service name v = Inr d) kvs ds"
    using flox_services_fold by fastforce
  then have "map sd_name ds = map fst kvs
      \<and> map (\<lambda>d. Some (sd_command d)) ds = map (\<lambda>(_, v). Option.bind (toml_get ''command'' v) toml_str) kvs"
    by (induction rule: list_all2_induct) (auto dest: flox_service_Inr(1) flox_service_Inr(3))
  moreover have "\<forall>d \<in> set ds. \<exists>kv. flox_service (fst kv) (snd kv) = Inr d"
    using each by (induction rule: list_all2_induct) auto
  ultimately show ?thesis using flox_service_Inr(2) daemon_entry_shutdown by blast
qed

definition sample_services :: flox_lib where
  "sample_services = sample_flox\<lparr>fl_parse := (\<lambda>_. Inr [(''services'', TTable [(''db'',
     TTable [(''command'', TString ''start''), (''is-daemon'', TBoolean True),
       (''shutdown'', TTable [(''command'', TString ''stop'')])])])])\<rparr>"

theorem flox_services_declared_witness:
  "\<exists>d. read_service_declarations sample_services sample_flox_fs ''/p'' = Inr (Declared [d])
     \<and> sd_name d = ''db'' \<and> (\<exists>cmd. sd_shutdown_command d = Some cmd)"
proof -
  let ?d = "\<lparr>sd_name = ''db'', sd_command = ''start'', sd_vars = [], sd_is_daemon = True, sd_shutdown_command = Some ''stop''\<rparr>"
  let ?kvs = "[(''db'', TTable [(''command'', TString ''start''), (''is-daemon'', TBoolean True),
       (''shutdown'', TTable [(''command'', TString ''stop'')])])]"
  have read: "read_service_declarations sample_services sample_flox_fs ''/p'' = Inr (Declared [?d])" by code_simp
  have "parsed_manifest sample_services sample_flox_fs ''/p'' = Some [(''services'', TTable ?kvs)]" by code_simp
  from flox_services_declared [OF read this, of ?kvs] have "\<exists>cmd. sd_shutdown_command ?d = Some cmd" by simp
  then show ?thesis using read by auto
qed

end
