(* ===== verification/Init.thy ===== *)
theory Init
  imports Cli
begin

text \<open>
  \<open>devcroft init\<close> (\<open>src/bin/devcroft.rs\<close>): the name and the provider it chooses, the manifest it writes
  and the line it adds to \<open>.gitignore\<close>. The standard hasher is a parameter: its algorithm is not
  specified. What the command prints is left out.
\<close>

section \<open>Model\<close>

definition disambiguate_name ::
  "(string \<Rightarrow> 64 word) \<Rightarrow> meta_lib \<Rightarrow> string option \<Rightarrow> fs \<Rightarrow> string \<Rightarrow> string \<Rightarrow> string" where
  "disambiguate_name hash L home fs base root =
     (case state_paths_new home base of
        Inl _ \<Rightarrow> base
      | Inr paths \<Rightarrow> (case read_meta L fs (sp_meta paths) of
          Inr (Some meta) \<Rightarrow>
            if project_root meta = root then base
            else let suffix_digits = hex_digits 6 (unat (and (hash root) 0xffffff));
                     trimmed = take (32 - 1 - length suffix_digits) base
                 in pop_dashes trimmed @ ''-'' @ suffix_digits
        | _ \<Rightarrow> base))"

definition artifact_entry :: string where
  "artifact_entry = ARTIFACT_DIR @ ''/''"

definition ignored_text :: "string \<Rightarrow> string" where
  "ignored_text existing =
     existing @ (if existing \<noteq> [] \<and> last existing \<noteq> newline then [newline] else [])
     @ [newline] @ ''# devcroft'' @ [CHR 0x27] @ ''s generated service config, log, and supervisor socket'' @ [newline]
     @ artifact_entry @ [newline]"

definition ignore_artifact_dir :: "string \<Rightarrow> fs \<Rightarrow> fs" where
  "ignore_artifact_dir root fs =
     (let gitignore = path_join root ''.gitignore'';
          existing = (case read_text fs gitignore of Inr s \<Rightarrow> s | Inl _ \<Rightarrow> [])
      in if list_ex (\<lambda>l. str_trim l = artifact_entry) (str_lines existing) then fs
         else if existing = [] \<and> map_of fs (path_join root ''.git'') = None then fs
         else snd (fs_write gitignore (ignored_text existing) fs))"

definition init_provider :: "fs \<Rightarrow> string \<Rightarrow> string" where
  "init_provider fs root =
     (if is_dir fs (path_join root ''.flox'') then ''flox''
      else if is_file fs (path_join root ''devbox.json'') then ''devbox''
      else if is_file fs (path_join root ''flake.nix'') then ''nix''
      else ''flox'')"

text \<open>A name and a provider as their debug format prints them: neither needs an escape.\<close>

definition quoted :: "string \<Rightarrow> string" where
  "quoted s = [CHR 0x22] @ s @ [CHR 0x22]"

definition manifest_toml :: "string \<Rightarrow> string \<Rightarrow> string" where
  "manifest_toml name prov = concat (map (\<lambda>l. l @ [newline])
     [''[sandbox]'', ''name = '' @ quoted name, [], ''[env]'', ''provider = '' @ quoted prov, [],
      ''# Uncomment to grant more than the project root (already allowed'',
      ''# by default) or to change the network default:'', ''#'', ''# [filesystem]'',
      ''# allow = ['' @ quoted ''.'' @ '']'', ''# read = ['' @ quoted ''/path/to/a/read-only/dir'' @ '']'', ''#'',
      ''# [network]'', ''# default = '' @ quoted ''deny'', ''# allow = ['' @ quoted ''api.example.com'' @ '']''])"

definition init_name :: "('c, 'e) cli_host \<Rightarrow> (string \<Rightarrow> 64 word) \<Rightarrow> dir \<Rightarrow> fs \<Rightarrow> string" where
  "init_name C hash cwd fs =
     (let dir_name = (if cwd = [] then ''sandbox'' else from_utf8_lossy (last cwd))
      in disambiguate_name hash (uh_meta (ch_up C)) (uh_home (ch_up C)) fs (slugify dir_name) (dir_path cwd))"

definition cli_init :: "('c, 'e) cli_host \<Rightarrow> (string \<Rightarrow> 64 word) \<Rightarrow> string list \<Rightarrow> fs \<Rightarrow> i32 \<times> fs" where
  "cli_init C hash args fs =
     (if args \<noteq> [] \<and> args \<noteq> [''--force''] then (2, fs)
      else case ch_cwd C of
        Inl _ \<Rightarrow> (1, fs)
      | Inr cwd \<Rightarrow>
          if map_of fs (manifest_in cwd) \<noteq> None \<and> args = [] then (2, fs)
          else let toml = manifest_toml (init_name C hash cwd fs) (init_provider fs (dir_path cwd))
               in case fs_write (manifest_in cwd) toml fs of
                    (Inl _, fs) \<Rightarrow> (1, fs)
                  | (Inr _, fs) \<Rightarrow> (0, ignore_artifact_dir (dir_path cwd) fs))"

section \<open>Lemmas: names\<close>

lemma hex_digits_length [simp]: "length (hex_digits w n) = w"
  by (induction w arbitrary: n) simp_all

lemma hex_digit_name: "d < 16 \<Longrightarrow> is_ascii_lowercase (hex_digit d) \<or> is_ascii_digit (hex_digit d)"
  by (auto simp: hex_digit_def is_ascii_lowercase_def is_ascii_digit_def)

lemma hex_digits_name: "c \<in> set (hex_digits w n) \<Longrightarrow> slug_alnum c"
proof (induction w arbitrary: n)
  case (Suc w)
  then show ?case using hex_digit_name [of "n mod 16"] by auto
qed simp

lemma trimmed_name_valid:
  assumes "is_valid_name base"
  shows "is_valid_name (pop_dashes (take 25 base) @ ''-'' @ hex_digits 6 n)"
proof -
  have base: "base \<noteq> []" "slug_alnum (hd base)" "\<forall>c \<in> set base. slug_char c" using assms by (auto simp: is_valid_name_iff)
  define p where "p = pop_dashes (take 25 base)"
  obtain zs where zs: "take 25 base = p @ zs"
    using pop_dashes_prefix [of "take 25 base"] unfolding p_def by (auto simp: prefix_def)
  have "p \<noteq> []"
  proof
    assume "p = []"
    then have "pop_dashes_rev (rev (take 25 base)) = []" by (simp add: p_def pop_dashes_def)
    then have "set (take 25 base) \<subseteq> {CHR ''-''}" using pop_dashes_rev_empty by (metis set_rev)
    moreover have "hd base \<in> set (take 25 base)" using base(1) by (cases base) auto
    ultimately show False using base(2) dash_not_alnum by auto
  qed
  have "hd p = hd base" using zs \<open>p \<noteq> []\<close> hd_take [of 25 base] by (metis hd_append2 zero_less_numeral)
  moreover have "\<forall>c \<in> set p. slug_char c"
    using base(3) zs by (metis Un_iff in_set_takeD set_append)
  moreover have "length p \<le> 25" using zs by (metis le_add1 length_append length_take min.cobounded2 order_trans)
  ultimately show ?thesis
    using base(2) hex_digits_name [of _ 6 n] \<open>p \<noteq> []\<close> unfolding p_def [symmetric] is_valid_name_iff MAX_LEN_def by auto
qed

lemma disambiguate_name_cases:
  "disambiguate_name hash L home fs base root = base
   \<or> (\<exists>paths meta. state_paths_new home base = Inr paths \<and> read_meta L fs (sp_meta paths) = Inr (Some meta)
        \<and> project_root meta \<noteq> root)"
  by (simp add: disambiguate_name_def Let_def split: sum.split option.split)

lemma disambiguate_name_valid:
  assumes "is_valid_name base"
  shows "is_valid_name (disambiguate_name hash L home fs base root)"
  using assms trimmed_name_valid [OF assms]
  by (simp add: disambiguate_name_def Let_def split: sum.split option.split)

lemma init_name_valid_name: "is_valid_name (init_name C hash cwd fs)"
  unfolding init_name_def Let_def by (rule disambiguate_name_valid [OF slugify_valid])

text \<open>
  The name \<open>init\<close> writes is always a valid one, whatever the directory is called and whatever the hash; and
  it is the plain slug unless a sandbox of that name is recorded for another project.
\<close>

theorem init_name_valid:
  "is_valid_name (init_name C hash cwd fs)
   \<and> (init_name C hash cwd fs = slugify (if cwd = [] then ''sandbox'' else from_utf8_lossy (last cwd))
      \<or> (\<exists>paths meta. state_paths_new (uh_home (ch_up C)) (slugify (if cwd = [] then ''sandbox'' else from_utf8_lossy (last cwd))) = Inr paths
          \<and> read_meta (uh_meta (ch_up C)) fs (sp_meta paths) = Inr (Some meta) \<and> project_root meta \<noteq> dir_path cwd))"
  using init_name_valid_name [of C hash cwd fs] disambiguate_name_cases [of hash "uh_meta (ch_up C)" "uh_home (ch_up C)" fs]
  unfolding init_name_def Let_def by blast

section \<open>Lemmas: the ignore file\<close>

lemma ignored_text_shape: "\<exists>a. ignored_text s = a @ [newline] @ artifact_entry @ [newline]"
  unfolding ignored_text_def by (metis append.assoc)

lemma ignored_text_lists: "list_ex (\<lambda>l. str_trim l = artifact_entry) (str_lines (ignored_text s))"
proof -
  have entry: "newline \<notin> set artifact_entry" "\<not> ends_with [CHR 0x0D] artifact_entry" "str_trim artifact_entry = artifact_entry"
    by code_simp+
  obtain a where "ignored_text s = a @ [newline] @ artifact_entry @ [newline]" using ignored_text_shape by blast
  then show ?thesis using line_in_str_lines [OF entry(1,2), of a] entry(3) by (auto simp: list_ex_iff)
qed

lemma ignored_text_utf8: "utf8_valid s \<Longrightarrow> utf8_valid (ignored_text s)"
proof -
  assume s: "utf8_valid s"
  have tail: "utf8_valid ([newline] @ ''# devcroft'' @ [CHR 0x27] @ ''s generated service config, log, and supervisor socket''
      @ [newline] @ artifact_entry @ [newline])" (is "utf8_valid ?t")
    and nl: "utf8_valid [newline]" by code_simp+
  show ?thesis
  proof (cases "s \<noteq> [] \<and> last s \<noteq> newline")
    case True
    then have "ignored_text s = s @ [newline] @ ?t" by (simp add: ignored_text_def)
    then show ?thesis using utf8_valid_append [OF utf8_valid_append [OF tail nl] s] by (simp only:)
  next
    case False
    then have "ignored_text s = s @ ?t" by (auto simp: ignored_text_def)
    then show ?thesis using utf8_valid_append [OF tail s] by (simp only:)
  qed
qed

lemma ignore_artifact_dir_noop:
  "read_text fs (path_join root ''.gitignore'') = Inr t \<Longrightarrow>
     list_ex (\<lambda>l. str_trim l = artifact_entry) (str_lines t) \<Longrightarrow> ignore_artifact_dir root fs = fs"
  by (simp add: ignore_artifact_dir_def)

lemma ignore_artifact_dir_written:
  assumes "ignore_artifact_dir root fs \<noteq> fs"
  shows "ignore_artifact_dir root fs = AList.update (path_join root ''.gitignore'')
    (FileNode (ignored_text (case read_text fs (path_join root ''.gitignore'') of Inr s \<Rightarrow> s | Inl _ \<Rightarrow> []))) fs"
  using assms unfolding ignore_artifact_dir_def Let_def
  by (auto simp: fs_write_def split: if_splits option.splits fs_node.splits)

text \<open>
  The line added to \<open>.gitignore\<close>: what a readable file held stays in front of it, it is added at most
  once, and nothing else changes. A file that is not UTF-8 reads as empty and is replaced.
\<close>

theorem ignore_artifact_dir_effect:
  "ignore_artifact_dir root (ignore_artifact_dir root fs) = ignore_artifact_dir root fs
   \<and> (\<forall>q. map_of (ignore_artifact_dir root fs) q = map_of fs q
        \<or> q = path_join root ''.gitignore''
          \<and> (\<exists>s. map_of (ignore_artifact_dir root fs) q = Some (FileNode (ignored_text s)) \<and> prefix s (ignored_text s)
               \<and> (read_text fs q = Inr s \<or> s = [] \<and> (\<exists>e. read_text fs q = Inl e))))"
proof (cases "ignore_artifact_dir root fs = fs")
  case False
  define g where "g = path_join root ''.gitignore''"
  define s where "s = (case read_text fs g of Inr s \<Rightarrow> s | Inl _ \<Rightarrow> [])"
  have fs': "ignore_artifact_dir root fs = AList.update g (FileNode (ignored_text s)) fs"
    using ignore_artifact_dir_written [OF False] by (simp add: g_def s_def)
  have "utf8_valid s" by (auto simp: s_def read_text_def rbind_def split: sum.split)
  then have "read_text (AList.update g (FileNode (ignored_text s)) fs) g = Inr (ignored_text s)"
    using ignored_text_utf8 by (simp add: read_text_def read_to_string_def update_conv')
  then have "ignore_artifact_dir root (ignore_artifact_dir root fs) = ignore_artifact_dir root fs"
    unfolding fs' using ignored_text_lists [of s] ignore_artifact_dir_noop unfolding g_def by blast
  moreover have "prefix s (ignored_text s)" by (simp add: ignored_text_def)
  moreover have "read_text fs g = Inr s \<or> s = [] \<and> (\<exists>e. read_text fs g = Inl e)"
    by (auto simp: s_def split: sum.splits)
  ultimately show ?thesis by (auto simp: fs' update_conv' g_def)
qed simp

text \<open>
  \<open>init\<close> never overwrites a manifest without \<open>--force\<close>, and on success what it wrote is a manifest with a
  valid name.
\<close>

theorem cli_init_effect:
  "(case ch_cwd C of Inl _ \<Rightarrow> snd (cli_init C hash args fs) = fs
    | Inr cwd \<Rightarrow>
        (case map_of fs (manifest_in cwd) of
           Some n \<Rightarrow> args = [''--force''] \<or> cli_init C hash args fs = (2, fs)
         | None \<Rightarrow> True)
        \<and> (fst (cli_init C hash args fs) \<noteq> 0 \<or>
            (\<exists>name prov. is_valid_name name \<and> prov \<in> {''flox'', ''devbox'', ''nix''}
               \<and> map_of (snd (cli_init C hash args fs)) (manifest_in cwd) = Some (FileNode (manifest_toml name prov)))))"
proof (cases "ch_cwd C")
  case (Inr cwd)
  have prov: "init_provider fs (dir_path cwd) \<in> {''flox'', ''devbox'', ''nix''}" by (simp add: init_provider_def)
  have name: "is_valid_name (init_name C hash cwd fs)" using init_name_valid_name by blast
  have other: "manifest_in cwd \<noteq> path_join (dir_path cwd) ''.gitignore''"
    by (simp add: manifest_in_def path_join_def starts_with_def)
  have keeps: "map_of (ignore_artifact_dir (dir_path cwd) fs1) (manifest_in cwd) = map_of fs1 (manifest_in cwd)" for fs1
    using ignore_artifact_dir_written [of "dir_path cwd" fs1] other by (cases "ignore_artifact_dir (dir_path cwd) fs1 = fs1") (auto simp: update_conv')
  have "map_of (snd (cli_init C hash args fs)) (manifest_in cwd)
      = Some (FileNode (manifest_toml (init_name C hash cwd fs) (init_provider fs (dir_path cwd))))"
    if "fst (cli_init C hash args fs) = 0"
    using that Inr keeps
    by (auto simp: cli_init_def Let_def update_conv' split: if_splits prod.splits sum.splits dest!: fs_write_Ok)
  then have "fst (cli_init C hash args fs) \<noteq> 0 \<or> (\<exists>name prov. is_valid_name name \<and> prov \<in> {''flox'', ''devbox'', ''nix''}
      \<and> map_of (snd (cli_init C hash args fs)) (manifest_in cwd) = Some (FileNode (manifest_toml name prov)))"
    using name prov by blast
  then show ?thesis using Inr by (auto simp: cli_init_def split: option.split)
qed (simp add: cli_init_def)

end
