(* ===== verification/Report.thy ===== *)
theory Report
  imports Cli Flox Init
begin

text \<open>
  What the reporting commands of \<open>src/bin/devcroft.rs\<close> print: \<open>status\<close>, \<open>ps\<close> and \<open>doctor\<close>; \<open>ssh-config\<close>; and
  the choice of the command. Output is the list of lines. The runs of other programs and the
  probes of \<open>doctor\<close> are parameters.
\<close>

section \<open>status\<close>

definition keeper_line :: "keeper_status \<Rightarrow> string" where
  "keeper_line k = (case k of
      KeeperNone \<Rightarrow> ''keeper: not running''
    | KeeperStale \<Rightarrow> ''keeper: stale (dead pid or unresponsive socket) '' @ em_dash @ '' run `devcroft up` to recover''
    | KeeperHealthy uptime n \<Rightarrow> ''keeper: healthy (uptime '' @ show_nat (unat uptime) @ ''s, '' @ show_nat n @ '' session(s))'')"

definition env_line :: "bool option \<Rightarrow> string \<Rightarrow> string" where
  "env_line stale provider_name = (case stale of
      Some True \<Rightarrow> ''env: stale '' @ em_dash @ '' the ''
        @ (if provider_name = ''nix'' then ''flake'' else ''flox manifest'')
        @ '' changed since the last `up`; run `devcroft up --recreate`''
    | Some False \<Rightarrow> ''env: fresh''
    | None \<Rightarrow> ''env: unknown'')"

definition isolation_line :: "string option \<Rightarrow> string" where
  "isolation_line b = (case b of
      Some backend \<Rightarrow> if backend = ''process'' then ''isolation: process''
        else ''isolation: hardened ('' @ backend @ '')''
    | None \<Rightarrow> ''isolation: unknown (no successful `up` yet)'')"

definition service_line :: "service_state \<Rightarrow> string" where
  "service_line svc = ''service '' @ ss_name svc @ '': '' @ health_label (ss_health svc)
     @ (case ss_pid svc of
          Some pid \<Rightarrow> if ss_health svc = Running then '' pid='' @ show_int pid else []
        | None \<Rightarrow> [])"

definition service_lines :: "services_report option \<Rightarrow> string list" where
  "service_lines services = (case services of
      None \<Rightarrow> []
    | Some report \<Rightarrow>
        let failed = length (filter (is_failure \<circ> ss_health) (sr_states report)) in
        map service_line (sr_states report)
        @ (case sr_error report of
             Some err \<Rightarrow> [''services: '' @ err @ '' '' @ em_dash @ '' see `devcroft logs` for output'']
           | None \<Rightarrow> [])
        @ (if failed > 0 then [''services: '' @ show_nat failed @ '' failed '' @ em_dash @ '' see `devcroft logs` for output'']
           else []))"

definition show_degraded :: "degraded_capability \<Rightarrow> string" where
  "show_degraded d = aspect d @ '' is degraded on this host: '' @ reason d @ '' (fallback: '' @ fallback d @ '')''"

definition print_status :: "sandbox_status \<Rightarrow> string \<Rightarrow> string list" where
  "print_status s provider_name =
     [''sandbox: '' @ st_name s, keeper_line (st_keeper s), env_line (st_env_stale s) provider_name,
      isolation_line (st_isolation s)]
     @ service_lines (st_services s)
     @ (if st_degraded s = [] then [''policy: no degraded capabilities on this host'']
        else map (\<lambda>d. ''policy: '' @ show_degraded d) (st_degraded s))"

section \<open>ps\<close>

definition tab :: char where
  "tab = CHR 0x09"

definition ps_health :: "keeper_status \<Rightarrow> string" where
  "ps_health k = (case k of
      KeeperNone \<Rightarrow> ''not running''
    | KeeperStale \<Rightarrow> ''stale''
    | KeeperHealthy uptime n \<Rightarrow> ''healthy (uptime '' @ show_nat (unat uptime) @ ''s, '' @ show_nat n @ '' session(s))'')"

definition ps_lines :: "status_host \<Rightarrow> sandbox_summary \<Rightarrow> string list" where
  "ps_lines S s =
     (sm_name s @ [tab] @ ps_health (sm_keeper s) @ [tab] @ (case sm_project_root s of Some r \<Rightarrow> r | None \<Rightarrow> ''-''))
     # (case sm_project_root s of
          None \<Rightarrow> []
        | Some root \<Rightarrow>
            let report = reconcile (sm_declared s)
                  (snd (query (sh_json S) (sh_supervisor S (socket_path root (sm_name s)))))
            in map (\<lambda>svc. ''  service:'' @ ss_name svc @ [tab] @ health_label (ss_health svc)) (sr_states report)
               @ (case sr_error report of Some err \<Rightarrow> [''  services'' @ [tab] @ err] | None \<Rightarrow> []))"

definition cli_ps :: "('c, 'e) cli_host \<Rightarrow> world \<Rightarrow> i32 \<times> string list" where
  "cli_ps C w = (case ps (ch_status C) w of
      Inl _ \<Rightarrow> (1, [])
    | Inr sandboxes \<Rightarrow>
        if sandboxes = [] then (0, [''no sandboxes''])
        else (0, concat (map (ps_lines (ch_status C)) sandboxes)))"

section \<open>ssh-config\<close>

definition ssh_config_path :: "string option \<Rightarrow> string option" where
  "ssh_config_path home = map_option (\<lambda>h. path_join h ''.ssh/config'') home"

text \<open>The exit code, what is printed, and the files after.\<close>

definition cli_ssh_config :: "key_lib \<Rightarrow> string option \<Rightarrow> string list \<Rightarrow> fs \<Rightarrow> i32 \<times> string \<times> fs" where
  "cli_ssh_config L home args fs =
     (if args \<noteq> [] \<and> args \<noteq> [''--write''] then (2, [], fs)
      else case cli_ensure_client_keypair L home fs of
        (False, fs) \<Rightarrow> (3, [], fs)
      | (True, fs) \<Rightarrow> (case client_key_paths home of
          Inl _ \<Rightarrow> (1, [], fs)
        | Inr (private_path, _) \<Rightarrow>
            let identity_file = from_utf8_lossy private_path in
            if args = [] then (0, ssh_render identity_file, fs)
            else (case ssh_config_path home of
              None \<Rightarrow> (1, [], fs)
            | Some cfg \<Rightarrow> (case write_managed_section cfg identity_file fs of
                (Inl _, fs) \<Rightarrow> (1, [], fs)
              | (Inr _, fs) \<Rightarrow>
                  (0, ''devcroft: wrote the devcroft block to '' @ from_utf8_lossy cfg @ [newline], fs)))))"

section \<open>doctor\<close>

datatype level = PASS | WARN | FAIL | INFO

text \<open>A line is its level and its text; the workaround printed under a warning belongs to that line.\<close>

type_synonym report = "(level \<times> string) list"

record doctor_host =
  dh_supported :: bool
  dh_platform :: string
  dh_details :: string
  dh_run :: "string list \<Rightarrow> process_output option"
  dh_nix_socket :: bool
  dh_nix_connects :: bool
  dh_bind_probe :: "bool option"
  dh_netns_probe :: "(string + bool) option"

text \<open>The output of a program that could be started and succeeded, trimmed.\<close>

definition version_of :: "doctor_host \<Rightarrow> string list \<Rightarrow> string option" where
  "version_of D cmd = (case dh_run D cmd of
      Some out \<Rightarrow> if po_failed out = None then Some (str_trim (from_utf8_lossy (po_stdout out))) else None
    | None \<Rightarrow> None)"

definition nix_evaluates :: "doctor_host \<Rightarrow> bool" where
  "nix_evaluates D = (version_of D [''nix'', ''eval'', ''--expr'', ''1''] \<noteq> None)"

definition doctor_backend :: "target_os \<Rightarrow> doctor_host \<Rightarrow> bool \<times> report" where
  "doctor_backend os D =
     (dh_supported D,
      if dh_supported D then
        (PASS, ''backend: '' @ dh_platform D @ '' '' @ em_dash @ '' '' @ dh_details D)
        # map (\<lambda>l. (WARN, ''backend: '' @ show_degraded l)) (host_limitations os)
      else [(FAIL, ''backend: '' @ dh_platform D @ '' does not support sandboxing '' @ em_dash @ '' '' @ dh_details D)])"

definition doctor_flox_provider :: "doctor_host \<Rightarrow> bool \<Rightarrow> bool \<times> report" where
  "doctor_flox_provider D required = (case version_of D [''flox'', ''--version''] of
      Some v \<Rightarrow> (True, [(PASS, ''provider: flox found ('' @ v @ '')'')])
    | None \<Rightarrow>
        if required then
          (False, [(FAIL, ''provider: flox not found on PATH '' @ em_dash @ '' install it from https://flox.dev'')])
        else (True, [(WARN, ''provider: flox not found on PATH '' @ em_dash
               @ '' only needed for projects with `provider = '' @ [CHR 0x22] @ ''flox'' @ [CHR 0x22] @ ''`'')]))"

definition doctor_nix_provider :: "doctor_host \<Rightarrow> bool \<Rightarrow> bool \<times> report" where
  "doctor_nix_provider D required = (case version_of D [''nix'', ''--version''] of
      None \<Rightarrow>
        if required then
          (False, [(FAIL, ''provider: nix not found on PATH, but this project declares `provider = ''
             @ [CHR 0x22] @ ''nix'' @ [CHR 0x22] @ ''` '' @ em_dash @ '' install it from https://nixos.org/download'')])
        else (True, [(WARN, ''provider: nix not found on PATH '' @ em_dash
               @ '' only needed for projects with `provider = '' @ [CHR 0x22] @ ''nix'' @ [CHR 0x22] @ ''`'')])
    | Some v \<Rightarrow>
        if nix_evaluates D then (True, [(PASS, ''provider: nix found ('' @ v @ ''), flakes enabled'')])
        else (False, [(FAIL, ''provider: nix found ('' @ v @ '') but flake commands are rejected '' @ em_dash
               @ '' add `experimental-features = nix-command flakes` to nix.conf'')]))"

definition doctor_devbox_provider :: "doctor_host \<Rightarrow> bool \<Rightarrow> bool \<times> report" where
  "doctor_devbox_provider D required = (case version_of D [''devbox'', ''version''] of
      None \<Rightarrow>
        if required then
          (False, [(FAIL, ''provider: devbox not found on PATH, but this project declares `provider = ''
             @ [CHR 0x22] @ ''devbox'' @ [CHR 0x22] @ ''` '' @ em_dash @ '' install it from https://www.jetify.com/devbox'')])
        else (True, [(WARN, ''provider: devbox not found on PATH '' @ em_dash
               @ '' only needed for projects with `provider = '' @ [CHR 0x22] @ ''devbox'' @ [CHR 0x22] @ ''`'')])
    | Some v \<Rightarrow>
        if nix_evaluates D then (True, [(PASS, ''provider: devbox found ('' @ v @ ''), nix usable'')])
        else if required then
          (False, [(FAIL, ''provider: devbox found ('' @ v @ '') but Nix is not usable '' @ em_dash
             @ '' devbox is a frontend over Nix and cannot resolve packages without it; install it from https://nixos.org/download'')])
        else (True, [(WARN, ''provider: devbox found ('' @ v @ '') but Nix is not usable '' @ em_dash
             @ '' needed only if a project declares `provider = '' @ [CHR 0x22] @ ''devbox'' @ [CHR 0x22] @ ''`'')]))"

definition discovered_provider :: "('c, 'e) cli_host \<Rightarrow> world \<Rightarrow> string option" where
  "discovered_provider C w = (case ch_cwd C of
      Inl _ \<Rightarrow> None
    | Inr cwd \<Rightarrow> (case found_manifest w cwd of
        Inl _ \<Rightarrow> None
      | Inr d \<Rightarrow> (case read_text (w_fs w) (manifest_in d) of
          Inl _ \<Rightarrow> None
        | Inr t \<Rightarrow> (case parse (ch_toml C) t of
            Inl _ \<Rightarrow> None
          | Inr (m, _) \<Rightarrow> Some (provider (env m))))))"

definition doctor_provider :: "('c, 'e) cli_host \<Rightarrow> doctor_host \<Rightarrow> world \<Rightarrow> bool \<times> report" where
  "doctor_provider C D w = (case discovered_provider C w of
      Some p \<Rightarrow>
        if p = ''nix'' then doctor_nix_provider D True
        else if p = ''devbox'' then doctor_devbox_provider D True
        else doctor_flox_provider D True
    | None \<Rightarrow>
        (True, (INFO, ''provider: no devcroft.toml found from here; reporting every provider, requiring none'')
           # snd (doctor_flox_provider D False) @ snd (doctor_nix_provider D False) @ snd (doctor_devbox_provider D False)))"

definition doctor_nix_store :: "doctor_host \<Rightarrow> bool \<times> report" where
  "doctor_nix_store D =
     (if \<not> dh_nix_socket D then (True, [])
      else if dh_nix_connects D then (True, [(PASS, ''nix store: the daemon socket accepts connections'')])
      else (False, [(FAIL, ''nix store: /nix/var/nix/daemon-socket/socket exists but refuses connections '' @ em_dash
             @ '' the nix daemon is not running, and every provider materializes through it, so `up` will fail for flox, nix and devbox alike; start it with your installer'' @ [CHR 0x27] @ ''s service command (e.g. `systemctl start nix-daemon`)'')]))"

definition doctor_listening_sockets :: "doctor_host \<Rightarrow> report" where
  "doctor_listening_sockets D = (case dh_bind_probe D of
      Some True \<Rightarrow> [(PASS, ''listening sockets: a deny-default network policy still permits loopback binding on this host, so provider-declared services that listen on a port work'')]
    | Some False \<Rightarrow> [(WARN, ''listening sockets: this host denies bind/listen under `network.default = ''
        @ [CHR 0x22] @ ''deny'' @ [CHR 0x22] @ ''`, so a provider-declared service that listens on a port will fail to bind''
        @ [newline] @ ''       workaround: `network.default = '' @ [CHR 0x22] @ ''allow'' @ [CHR 0x22]
        @ ''`, which restores binding but drops egress filtering entirely '' @ em_dash
        @ '' every outbound destination becomes reachable'')]
    | None \<Rightarrow> [(INFO, ''listening sockets: the probe could not be run on this host; service port binding is unverified'')])"

text \<open>\<open>None\<close> when the program's own path is not known.\<close>

definition doctor_agent_namespaces :: "doctor_host \<Rightarrow> report" where
  "doctor_agent_namespaces D = (case dh_netns_probe D of
      None \<Rightarrow> []
    | Some (Inr True) \<Rightarrow> [(INFO, ''network namespaces: available on this host (sandboxes with `network.default = ''
        @ [CHR 0x22] @ ''deny'' @ [CHR 0x22] @ ''`, no `network.allow`, and services or `network.ports` each get their own port table)'')]
    | Some _ \<Rightarrow> [(INFO, ''network namespaces: unavailable on this host; qualifying sandboxes fall back to the host'' @ [CHR 0x27] @ ''s shared port table, and `up` warns when that happens'')])"

definition doctor_ssh_config :: "string option \<Rightarrow> world \<Rightarrow> report" where
  "doctor_ssh_config home w = (case ssh_config_path home of
      None \<Rightarrow> [(WARN, ''ssh-config: HOME is not set'')]
    | Some p \<Rightarrow>
        if is_installed p (w_fs w) then [(PASS, ''ssh-config: managed block present in '' @ from_utf8_lossy p)]
        else [(WARN, ''ssh-config: no devcroft managed block in '' @ from_utf8_lossy p @ '' '' @ em_dash
               @ '' run `devcroft ssh-config --write`'')])"

definition doctor_manifest_degradation :: "('c, 'e) cli_host \<Rightarrow> world \<Rightarrow> report" where
  "doctor_manifest_degradation C w = (case ch_cwd C of
      Inl _ \<Rightarrow> []
    | Inr cwd \<Rightarrow> (case found_manifest w cwd of
        Inl _ \<Rightarrow> [(INFO, ''manifest: no devcroft.toml found from here; skipping the degraded-capability check'')]
      | Inr d \<Rightarrow> (case read_text (w_fs w) (manifest_in d) of
          Inl _ \<Rightarrow> []
        | Inr t \<Rightarrow> (case parse (ch_toml C) t of
            Inl _ \<Rightarrow> [(WARN, ''manifest: '' @ manifest_in d @ '' did not parse; run `devcroft up` to see the full error'')]
          | Inr (m, _) \<Rightarrow>
              let degraded = detect (uh_os (ch_up C)) (compile (uh_os (ch_up C)) m)
              in if degraded = [] then [(PASS, ''manifest: no degraded capabilities for '' @ manifest_in d @ '' on this host'')]
                 else map (\<lambda>x. (WARN, ''manifest: '' @ show_degraded x)) degraded))))"

definition doctor_service_supervisor :: "('c, 'e) cli_host \<Rightarrow> world \<Rightarrow> report" where
  "doctor_service_supervisor C w = (case ch_cwd C of
      Inl _ \<Rightarrow> []
    | Inr cwd \<Rightarrow> (case found_manifest w cwd of
        Inl _ \<Rightarrow> []
      | Inr d \<Rightarrow>
          let declared = uh_flox_services (ch_up C) (dir_path d) in
          if declared = [] then []
          else [(INFO, ''services: '' @ show_nat (length declared) @ '' declared ('' @ join '', '' declared @ '') '' @ em_dash
             @ '' devcroft supervises these itself, so `flox services status` will not list them; use `devcroft status`/`ps`/`logs`'')]))"

definition cli_doctor :: "('c, 'e) cli_host \<Rightarrow> doctor_host \<Rightarrow> world \<Rightarrow> i32 \<times> report" where
  "cli_doctor C D w =
     (let backend = doctor_backend (uh_os (ch_up C)) D;
          prov = doctor_provider C D w;
          store = doctor_nix_store D;
          lines = snd backend @ snd prov @ snd store @ doctor_listening_sockets D @ doctor_agent_namespaces D
            @ doctor_ssh_config (uh_home (ch_up C)) w @ doctor_manifest_degradation C w @ doctor_service_supervisor C w
      in (if fst backend \<and> fst prov \<and> fst store then 0 else 1, lines))"

section \<open>What doctor concludes\<close>

text \<open>Whether the provider a project declares can be used; the others do not count.\<close>

definition provider_usable :: "doctor_host \<Rightarrow> string option \<Rightarrow> bool" where
  "provider_usable D named = (case named of
      None \<Rightarrow> True
    | Some p \<Rightarrow>
        if p = ''nix'' then version_of D [''nix'', ''--version''] \<noteq> None \<and> nix_evaluates D
        else if p = ''devbox'' then version_of D [''devbox'', ''version''] \<noteq> None \<and> nix_evaluates D
        else version_of D [''flox'', ''--version''] \<noteq> None)"

definition fails :: "report \<Rightarrow> bool" where
  "fails r \<longleftrightarrow> FAIL \<in> fst ` set r"

lemma fails_simps [simp]:
  "\<not> fails []"
  "fails ((l, t) # r) \<longleftrightarrow> l = FAIL \<or> fails r"
  "fails (r @ r') \<longleftrightarrow> fails r \<or> fails r'"
  "\<not> fails (map (\<lambda>x. (WARN, h x)) xs)"
  by (auto simp: fails_def)

lemma provider_fails:
  "fails (snd (doctor_flox_provider D required)) \<longleftrightarrow> \<not> fst (doctor_flox_provider D required)"
  "fails (snd (doctor_nix_provider D required)) \<longleftrightarrow> \<not> fst (doctor_nix_provider D required)"
  "fails (snd (doctor_devbox_provider D required)) \<longleftrightarrow> \<not> fst (doctor_devbox_provider D required)"
  by (simp_all add: doctor_flox_provider_def doctor_nix_provider_def doctor_devbox_provider_def split: option.split)

lemma provider_verdicts:
  "fst (doctor_flox_provider D required) \<longleftrightarrow> \<not> required \<or> version_of D [''flox'', ''--version''] \<noteq> None"
  "fst (doctor_nix_provider D required) \<longleftrightarrow>
     (if version_of D [''nix'', ''--version''] = None then \<not> required else nix_evaluates D)"
  "fst (doctor_devbox_provider D required) \<longleftrightarrow>
     \<not> required \<or> version_of D [''devbox'', ''version''] \<noteq> None \<and> nix_evaluates D"
  by (simp_all add: doctor_flox_provider_def doctor_nix_provider_def doctor_devbox_provider_def split: option.split)

lemma informative_never_fail:
  "\<not> fails (doctor_listening_sockets D)" "\<not> fails (doctor_agent_namespaces D)" "\<not> fails (doctor_ssh_config home w)"
  "\<not> fails (doctor_manifest_degradation C w)" "\<not> fails (doctor_service_supervisor C w)"
  by (simp_all add: doctor_listening_sockets_def doctor_agent_namespaces_def doctor_ssh_config_def
      doctor_manifest_degradation_def doctor_service_supervisor_def Let_def
      split: option.split sum.split bool.split prod.split)

text \<open>
  C29: \<open>doctor\<close> succeeds exactly when the backend enforces, the provider the project declares can be used and the
  store's daemon, where there is one, answers; and the report has a failing line exactly when it
  does not succeed, except that without a usable manifest a nix that rejects flakes is reported as a failure
  while the command concludes that all checks passed.
\<close>

theorem doctor_verdict:
  "(fst (cli_doctor C D w) = 0 \<longleftrightarrow>
      dh_supported D \<and> provider_usable D (discovered_provider C w) \<and> (\<not> dh_nix_socket D \<or> dh_nix_connects D))
   \<and> (fails (snd (cli_doctor C D w)) \<longleftrightarrow> fst (cli_doctor C D w) \<noteq> 0
      \<or> discovered_provider C w = None \<and> version_of D [''nix'', ''--version''] \<noteq> None \<and> \<not> nix_evaluates D)"
proof -
  have backend: "fst (doctor_backend os D) \<longleftrightarrow> dh_supported D" "fails (snd (doctor_backend os D)) \<longleftrightarrow> \<not> dh_supported D" for os
    by (simp_all add: doctor_backend_def)
  have store: "fst (doctor_nix_store D) \<longleftrightarrow> \<not> dh_nix_socket D \<or> dh_nix_connects D"
    "fails (snd (doctor_nix_store D)) \<longleftrightarrow> \<not> fst (doctor_nix_store D)"
    by (simp_all add: doctor_nix_store_def)
  have prov: "fst (doctor_provider C D w) \<longleftrightarrow> provider_usable D (discovered_provider C w)"
    by (simp add: doctor_provider_def provider_usable_def provider_verdicts split: option.split)
  have fails: "fails (snd (doctor_provider C D w)) \<longleftrightarrow> \<not> fst (doctor_provider C D w)
      \<or> discovered_provider C w = None \<and> version_of D [''nix'', ''--version''] \<noteq> None \<and> \<not> nix_evaluates D"
    by (simp add: doctor_provider_def provider_fails provider_verdicts split: option.split)
  show ?thesis
    by (auto simp: cli_doctor_def Let_def backend store prov fails informative_never_fail)
qed

text \<open>A host without a manifest, of which the nix rejects flakes.\<close>

definition sample_cli_host :: "(cap_call list, unit) cli_host" where
  "sample_cli_host = \<lparr>ch_up = sample_up_host, ch_status = sample_status_host, ch_exec = sample_exec_host,
     ch_toml = sample_lib, ch_cwd = Inr [''p''], ch_tty = False, ch_show_config = (\<lambda>_. []), ch_show_up = (\<lambda>_. []),
     ch_show_fs = (\<lambda>_. []), ch_shell_var = None, ch_winsize = None, ch_bridge = (\<lambda>_ _. True)\<rparr>"

definition sample_doctor_host :: doctor_host where
  "sample_doctor_host = \<lparr>dh_supported = True, dh_platform = ''macos'', dh_details = ''seatbelt'',
     dh_run = (\<lambda>cmd. if cmd = [''nix'', ''--version'']
       then Some \<lparr>po_failed = None, po_stdout = ''nix 2.28'', po_stderr = []\<rparr> else None),
     dh_nix_socket = True, dh_nix_connects = True, dh_bind_probe = Some True, dh_netns_probe = Some (Inr False)\<rparr>"

lemma sample_discovered_provider: "discovered_provider sample_cli_host sample_down_state = None"
  by code_simp

theorem doctor_verdict_witness:
  "fst (cli_doctor sample_cli_host sample_doctor_host sample_down_state) = 0
   \<and> fails (snd (cli_doctor sample_cli_host sample_doctor_host sample_down_state))"
  using doctor_verdict [of sample_cli_host sample_doctor_host sample_down_state]
  by (simp add: sample_discovered_provider provider_usable_def nix_evaluates_def version_of_def sample_doctor_host_def)

section \<open>What ssh-config changes\<close>

lemma write_managed_section_within: "changes_within {p} fs (snd (write_managed_section p identity fs))"
proof -
  obtain r1 fs1 where 1: "create_dir_all (fs_parent p) fs = (r1, fs1)" by fastforce
  have w1: "changes_within {p} fs fs1" using create_dir_all_within [of "{p}" fs "fs_parent p"] 1 by simp
  then have "changes_within {p} fs (snd (fs_write p t fs1))" for t
    using changes_within_trans [OF _ fs_write_within] by blast
  then show ?thesis using 1 w1 by (simp add: write_managed_section_def Let_def split: sum.split)
qed

text \<open>
  \<open>ssh-config\<close> changes nothing but what it is for: the two key files, and only while there is no private
  key, so that an existing key is never replaced; the user's ssh configuration, and only with
  \<open>--write\<close>; and directories that did not exist.
\<close>

theorem ssh_config_changes:
  "case client_key_paths home of
     Inl _ \<Rightarrow> snd (snd (cli_ssh_config L home args fs)) = fs
   | Inr (private_path, public_path) \<Rightarrow>
       changes_within ((if map_of fs private_path = None then {private_path, public_path} else {})
          \<union> (if args = [''--write''] then set_option (ssh_config_path home) else {}))
         fs (snd (snd (cli_ssh_config L home args fs)))"
proof (cases "client_key_paths home")
  case (Inr paths)
  obtain private_path public_path where paths: "paths = (private_path, public_path)" by fastforce
  obtain r fs1 where 1: "ensure_client_keypair L private_path public_path fs = (r, fs1)" by fastforce
  define W where "W = (if map_of fs private_path = None then {private_path, public_path} else {})
    \<union> (if args = [''--write''] then set_option (ssh_config_path home) else {})"
  have w1: "changes_within W fs fs1"
    using ensure_client_keypair_within [of fs private_path public_path L] 1
    by (auto simp: W_def elim: changes_within_mono)
  have w2: "changes_within W fs fs2"
    if "write_managed_section p i fs1 = (r2, fs2)" and "args = [''--write'']" and "ssh_config_path home = Some p"
    for p i r2 fs2
    using changes_within_trans [OF w1 changes_within_mono [OF write_managed_section_within [of p fs1 i]]] that
    by (simp add: W_def)
  have "changes_within W fs (snd (snd (cli_ssh_config L home args fs)))"
    using Inr paths 1 w1 w2
    by (auto simp: cli_ssh_config_def cli_ensure_client_keypair_def Let_def
        split: sum.split prod.split option.split)
  then show ?thesis using Inr paths by (simp add: W_def)
qed (simp add: cli_ssh_config_def cli_ensure_client_keypair_def)

section \<open>What status shows\<close>

text \<open>
  \<open>status\<close> hides no service: every service of the report has its line, a healthy keeper or not, the
  error of the supervisor has one, and so has the number of failed services when there are any.
\<close>

theorem status_shows_services:
  "case st_services s of
     None \<Rightarrow> True
   | Some r \<Rightarrow> set (map service_line (sr_states r)) \<subseteq> set (print_status s p)
       \<and> (case sr_error r of None \<Rightarrow> True
          | Some err \<Rightarrow> (''services: '' @ err @ '' '' @ em_dash @ '' see `devcroft logs` for output'') \<in> set (print_status s p))
       \<and> (filter (is_failure \<circ> ss_health) (sr_states r) = []
          \<or> (''services: '' @ show_nat (length (filter (is_failure \<circ> ss_health) (sr_states r))) @ '' failed '' @ em_dash
               @ '' see `devcroft logs` for output'') \<in> set (print_status s p))"
  by (auto simp: print_status_def service_lines_def Let_def split: option.split)

section \<open>The program\<close>

text \<open>
  How a run of the binary ends: with an exit code, as another program that took the process over, or
  in one of the modes the program starts itself in. The arguments leave out the program's name.
\<close>

datatype run_end = Exits i32 | Becomes "string list" | Internal string

definition INTERNAL :: "string list" where
  "INTERNAL = [''__keeper'', ''__bind_probe'', ''__netns_probe'', ''__uds_probe'', ''__netns_agent_sim'', ''__egress_proxy'']"

definition main_run ::
  "('c, 'e) cli_host \<Rightarrow> doctor_host \<Rightarrow> (string \<Rightarrow> 64 word) \<Rightarrow> (string list \<Rightarrow> string \<Rightarrow> bool \<times> string) \<Rightarrow> string \<Rightarrow>
     string list \<Rightarrow> world \<Rightarrow> run_end \<times> world" where
  "main_run C D hash check_host bin argv w = (case argv of
      [] \<Rightarrow> (Exits 2, w)
    | cmd # args \<Rightarrow>
        if List.member INTERNAL cmd then (Internal cmd, w)
        else if cmd = ''exec'' then (case cli_exec C args w of (code, _, w) \<Rightarrow> (Exits code, w))
        else if cmd = ''shell'' then (case cli_shell C args w of (code, _, w) \<Rightarrow> (Exits code, w))
        else if cmd = ''proxy'' then (case cli_proxy C args w of (code, w) \<Rightarrow> (Exits code, w))
        else if cmd = ''ssh-config'' then
          (case cli_ssh_config (uh_keys (ch_up C)) (uh_home (ch_up C)) args (w_fs w) of
             (code, _, fs) \<Rightarrow> (Exits code, w\<lparr>w_fs := fs\<rparr>))
        else if cmd = ''init'' then (case cli_init C hash args (w_fs w) of (code, fs) \<Rightarrow> (Exits code, w\<lparr>w_fs := fs\<rparr>))
        else if cmd = ''doctor'' then (Exits (fst (cli_doctor C D w)), w)
        else if cmd = ''up'' then (case cli_up C args w of (code, w) \<Rightarrow> (Exits code, w))
        else if cmd = ''down'' then (case cli_down C args w of (code, w) \<Rightarrow> (Exits code, w))
        else if cmd = ''rm'' then (case cli_rm C args w of (code, w) \<Rightarrow> (Exits code, w))
        else if cmd = ''status'' then (Exits (fst (cli_status C args w)), w)
        else if cmd = ''logs'' then (Exits (fst (cli_logs C args w)), w)
        else if cmd = ''ps'' then (Exits (fst (cli_ps C w)), w)
        else if cmd = ''ssh'' then (case cli_ssh C bin args w of
            (Inl code, w) \<Rightarrow> (Exits code, w) | (Inr command, w) \<Rightarrow> (Becomes command, w))
        else if cmd = ''policy'' then (Exits (fst (cli_policy C args w)), w)
        else if cmd = ''why'' then (Exits (fst (cli_why C check_host args w)), w)
        else if cmd \<in> {''help'', ''--help'', ''-h'', ''--version'', ''-V''} then (Exits 0, w)
        else (Exits 2, w))"

text \<open>The codes of the error contract, and that of a panic.\<close>

definition contract_codes :: "i32 set" where
  "contract_codes = {0, 1, 2, 3, 4, 5, 101}"

lemma in_contract [simp]:
  "0 \<in> contract_codes" "1 \<in> contract_codes" "2 \<in> contract_codes" "3 \<in> contract_codes" "4 \<in> contract_codes"
  "5 \<in> contract_codes" "101 \<in> contract_codes"
  by (simp_all add: contract_codes_def)

lemma up_exit_code_contract [simp]: "up_exit_code e \<in> contract_codes"
  by (simp add: up_exit_code_def split: up_error.split)

lemma resolve_contract:
  "resolve_name_arg C w args = Inl c \<Longrightarrow> c \<in> contract_codes"
  "resolve_manifest_strict C w n cwd = Inl c \<Longrightarrow> c \<in> contract_codes"
  by (auto simp: resolve_name_arg_def resolve_manifest_strict_def map_err_def split: if_splits list.splits sum.splits option.splits)

lemma proxy_contract: "cli_proxy C args w = (c, w') \<Longrightarrow> c \<in> contract_codes"
  by (auto simp: cli_proxy_def Let_def split: prod.splits list.splits sum.splits bool.splits if_splits)

lemma ssh_config_contract: "cli_ssh_config L home args fs = (c, out, fs') \<Longrightarrow> c \<in> contract_codes"
  by (auto simp: cli_ssh_config_def Let_def split: prod.splits sum.splits bool.splits option.splits if_splits)

lemma init_contract: "cli_init C hash args fs = (c, fs') \<Longrightarrow> c \<in> contract_codes"
  by (auto simp: cli_init_def Let_def split: prod.splits sum.splits if_splits)

lemma up_contract: "cli_up C args w = (c, w') \<Longrightarrow> c \<in> contract_codes"
  by (auto simp: cli_up_def Let_def split: prod.splits sum.splits if_splits dest: resolve_contract)

lemma down_contract: "cli_down C args w = (c, w') \<Longrightarrow> c \<in> contract_codes"
  by (auto simp: cli_down_def split: prod.splits sum.splits dest: resolve_contract)

lemma rm_contract: "cli_rm C args w = (c, w') \<Longrightarrow> c \<in> contract_codes"
  by (auto simp: cli_rm_def Let_def split: prod.splits sum.splits if_splits dest: resolve_contract)

lemma ssh_contract: "cli_ssh C bin args w = (Inl c, w') \<Longrightarrow> c \<in> contract_codes"
  by (auto simp: cli_ssh_def Let_def split: prod.splits sum.splits bool.splits if_splits)

lemma reporting_contract:
  "fst (cli_doctor C D w) \<in> contract_codes"
  "fst (cli_status C args w) \<in> contract_codes"
  "fst (cli_logs C args w) \<in> contract_codes"
  "fst (cli_ps C w) \<in> contract_codes"
  "fst (cli_policy C args w) \<in> contract_codes"
  "fst (cli_why C check_host args w) \<in> contract_codes"
  subgoal by (simp add: cli_doctor_def Let_def)
  subgoal by (auto simp: cli_status_def split: sum.split status_error.split dest: resolve_contract)
  subgoal by (auto simp: cli_logs_def map_err_def split: option.split sum.split prod.split)
  subgoal by (auto simp: cli_ps_def split: sum.split)
  subgoal by (auto simp: cli_policy_def Let_def split: option.split sum.split prod.split bool.split dest: resolve_contract)
  subgoal by (auto simp: cli_why_def Let_def split: option.split sum.split prod.split dest: resolve_contract)
  done

text \<open>The commands that may change something, and those that end with the code of a session.\<close>

definition CHANGING :: "string list" where
  "CHANGING = [''exec'', ''shell'', ''proxy'', ''ssh-config'', ''init'', ''up'', ''down'', ''rm'', ''ssh'']"

definition ends_ok :: "string \<Rightarrow> world \<Rightarrow> run_end \<times> world \<Rightarrow> bool" where
  "ends_ok cmd w r \<longleftrightarrow> (snd r = w \<or> cmd \<in> set CHANGING)
     \<and> (case fst r of
          Exits c \<Rightarrow> c \<in> contract_codes \<or> cmd \<in> {''exec'', ''shell''}
        | Becomes _ \<Rightarrow> cmd = ''ssh''
        | Internal m \<Rightarrow> m = cmd \<and> cmd \<in> set INTERNAL)"

lemma ends_ok_if: "(c \<Longrightarrow> ends_ok cmd w r) \<Longrightarrow> ends_ok cmd w r' \<Longrightarrow> ends_ok cmd w (if c then r else r')"
  by simp

lemma ends_ok_report: "c \<in> contract_codes \<Longrightarrow> ends_ok cmd w (Exits c, w)"
  by (simp add: ends_ok_def)

lemma ends_ok_change: "c \<in> contract_codes \<Longrightarrow> cmd \<in> set CHANGING \<Longrightarrow> ends_ok cmd w (Exits c, w')"
  by (simp add: ends_ok_def)

lemma changing [simp]:
  "''exec'' \<in> set CHANGING" "''shell'' \<in> set CHANGING" "''proxy'' \<in> set CHANGING" "''ssh-config'' \<in> set CHANGING"
  "''init'' \<in> set CHANGING" "''up'' \<in> set CHANGING" "''down'' \<in> set CHANGING" "''rm'' \<in> set CHANGING" "''ssh'' \<in> set CHANGING"
  by (simp_all add: CHANGING_def)

lemma ends_ok_clients: "ends_ok ''exec'' w (Exits c, w')" "ends_ok ''shell'' w (Exits c, w')" "ends_ok ''ssh'' w (Becomes v, w')"
  by (simp_all add: ends_ok_def)

lemma main_run_ends: "ends_ok cmd w (main_run C D hash check_host bin (cmd # args) w)"
  unfolding main_run_def list.case
  apply (rule ends_ok_if, simp add: ends_ok_def)
  apply (rule ends_ok_if, simp add: ends_ok_clients split: prod.split)
  apply (rule ends_ok_if, simp add: ends_ok_clients split: prod.split)
  apply (rule ends_ok_if, clarsimp simp: ends_ok_change proxy_contract split: prod.split)
  apply (rule ends_ok_if, clarsimp simp: ends_ok_change ssh_config_contract split: prod.split)
  apply (rule ends_ok_if, clarsimp simp: ends_ok_change init_contract split: prod.split)
  apply (rule ends_ok_if, simp add: ends_ok_report reporting_contract)
  apply (rule ends_ok_if, clarsimp simp: ends_ok_change up_contract split: prod.split)
  apply (rule ends_ok_if, clarsimp simp: ends_ok_change down_contract split: prod.split)
  apply (rule ends_ok_if, clarsimp simp: ends_ok_change rm_contract split: prod.split)
  apply (rule ends_ok_if, simp add: ends_ok_report reporting_contract)
  apply (rule ends_ok_if, simp add: ends_ok_report reporting_contract)
  apply (rule ends_ok_if, simp add: ends_ok_report reporting_contract)
  apply (rule ends_ok_if, clarsimp simp: ends_ok_change ends_ok_clients ssh_contract split: prod.split sum.split)
  apply (rule ends_ok_if, simp add: ends_ok_report reporting_contract)
  apply (rule ends_ok_if, simp add: ends_ok_report reporting_contract)
  apply (simp add: ends_ok_report)
  done


end
