(* ===== verification/Spec2Isabelle.thy ===== *)
theory Spec2Isabelle
  imports Proxy Shell SshRelay Sftp KeeperMain Devbox NixFlake Report
begin

text \<open>
  A verification development for devcroft, a command that runs a project inside a sandbox on the
  developer's own machine.

  \<^bold>\<open>The program.\<close> A manifest (\<open>devcroft.toml\<close>) says which files, hosts and ports a project may use and
  which provider (flox, nix or devbox) supplies its tools. \<open>devcroft up\<close> finds and validates the manifest,
  asks the provider for the environment, compiles the manifest into a policy, writes the sandbox's state
  directory, starts an egress proxy on the host when hosts are listed, and launches the keeper. The keeper
  projects the policy onto calls of the sandboxing library, restricts itself for good, starts the services
  and then serves sessions, over a framed protocol on a Unix socket and over ssh; every process of the
  sandbox is its child and inherits the restriction. \<open>exec\<close>, \<open>shell\<close>, the hooks of the manifest and the ssh
  bridge are clients of that socket. \<open>down\<close> and \<open>rm\<close> take the sandbox down again, \<open>status\<close>, \<open>ps\<close>, \<open>logs\<close>,
  \<open>why\<close> and \<open>policy\<close> report on it, \<open>init\<close> writes a first manifest.

  \<^bold>\<open>How the code becomes definitions.\<close> A struct is a record, an enum a datatype, \<open>Result\<close> the sum type with
  the error on the left, \<open>String\<close> and \<open>OsString\<close> the list of their bytes, \<open>BTreeMap\<close> the ordered association
  list of its iterator, \<open>HashMap\<close> a map or an association list, \<open>u8\<close> to \<open>u64\<close> and \<open>i32\<close> words of that width.
  Code that changes files or processes takes the world it changes and returns the changed one, on its error
  paths too. A loop is a structural recursion or a \<open>function\<close> with its measure: no definition takes fuel,
  and every one of them is total, so that no theorem is about a run that might not end. Threads are
  inductive step relations, one rule for each atomic action of the source, and a theorem over them
  quantifies over all interleavings. Code outside \<open>src/\<close> (\<open>nono\<close>, \<open>serde_json\<close>, \<open>toml\<close>, \<open>russh\<close>, \<open>base64\<close>, the
  resolver, the provider's own commands, system calls) is a parameter: a function, or a record of
  functions; what a theorem needs of it is a hypothesis of that theorem.

  \<^bold>\<open>Shared vocabulary.\<close>
  \<^item> \<open>Prelude\<close>: results and their binding, loops with early return, byte strings and their search, splitting
    and decimal printing, word lemmas. \<open>Utf8\<close>: validity, lossy decoding, trimming, lines. \<open>Btmap\<close>: the ordered
    map, with the interface \<open>keyed_store\<close> and its interpretation \<open>btree\<close>.
  \<^item> \<open>Paths\<close> (\<open>paths.rs\<close>): components, containment, the traversal test, the search on \<open>PATH\<close>. Containment is
    an order whose laws are the interface \<open>containment\<close>; manifest validation, the policy's overlap checks and
    \<open>why\<close> rest on its interpretation.

  \<^bold>\<open>Manifest\<close> (\<open>src/config\<close>).
  \<^item> \<open>Slug\<close> (\<open>slug.rs\<close>): valid names and the suggestion. \<open>EditDistance\<close> (\<open>validate.rs\<close>): the metric of suggestions,
    shown to be the least cost of an alignment.
  \<^item> \<open>Config\<close> (\<open>mod.rs\<close>, \<open>validate.rs\<close>, \<open>discovery.rs\<close>): sections, defaults, unknown keys, file-system checks,
    the upward search. A manifest that is accepted has a valid name, a supported provider and sane rules.

  \<^bold>\<open>Policy\<close> (\<open>src/policy\<close>).
  \<^item> \<open>Policy\<close> (\<open>mod.rs\<close>): \<open>compile\<close> and its folds. \<open>Capability\<close> (\<open>capability_set.rs\<close>): the plan, the overlap and
    symlink checks and the sequence of calls made to the sandboxing library; the calls are characterised
    exactly, and no project-relative grant leaves the project after symlinks are followed.
  \<^item> \<open>Explain\<close> (\<open>why.rs\<close>, \<open>render.rs\<close>, \<open>degraded.rs\<close>): the explanations, proved against those calls, and where
    they disagree with them.

  \<^bold>\<open>Providers\<close> (\<open>src/provider\<close>).
  \<^item> \<open>Provider\<close> (\<open>mod.rs\<close>, \<open>validate.rs\<close>, \<open>capture.rs\<close>): names, the difference of two environments and its
    inverse, store grants, fingerprints.
  \<^item> \<open>Flox\<close>, \<open>NixFlake\<close>, \<open>Devbox\<close> (\<open>flox.rs\<close>, \<open>nix.rs\<close>, \<open>devbox.rs\<close>): preconditions, the derived environment without
    its hook, the lockfile across a capture, the tolerant reading of JSON with comments as two character
    loops equal to a specification by pieces, the services.
  \<^item> \<open>Shell\<close> (\<open>shell.rs\<close>): the shell devcroft needs for itself, in the closure of the environment.

  \<^bold>\<open>Keeper\<close> (\<open>src/keeper\<close>, the keeper's process in \<open>src/bin/devcroft.rs\<close>).
  \<^item> \<open>Protocol\<close> (\<open>protocol.rs\<close>): frames and their bytes, with the interface \<open>codec\<close> for any length-prefixed code;
    a stream cut anywhere is read back as a prefix of what was written. The limit is the source's
    \<open>MAX_FRAME_LEN\<close> of 16 MiB.
  \<^item> \<open>Registry\<close> (\<open>registry.rs\<close>): sessions by 64-bit id, with the interface \<open>session_registry\<close>.
  \<^item> \<open>Session\<close> (\<open>session.rs\<close>, \<open>pty.rs\<close>): the commands, the child's actions, the descriptors left open.
  \<^item> \<open>Connection\<close> (\<open>connection.rs\<close>): the first frame and the threads of a session (\<open>conn_step\<close>): output before
    exit, escalation and clean-up in every interleaving.
  \<^item> \<open>KeeperMain\<close> (\<open>mod.rs\<close>, \<open>keeper_main\<close> and what it calls): the start-up in its order, which is that of
    restriction before any process, the accept loop and the shutdown with its times.
  \<^item> \<open>Services\<close> (\<open>src/services/mod.rs\<close>): the supervisor's configuration, the bounded query, reconciliation.

  \<^bold>\<open>Lifecycle\<close> (\<open>src/lifecycle\<close>).
  \<^item> \<open>State\<close> (\<open>state.rs\<close>): the world of files, processes and time, pidfiles, process identity, termination.
    \<open>Terminate\<close> (\<open>terminate.rs\<close>): \<open>down\<close> and \<open>rm\<close> and exactly what they change. \<open>Hooks\<close> (\<open>hooks.rs\<close>): one command as
    a session, its log and verdict. \<open>Up\<close> (\<open>up.rs\<close>): the whole command, the environment handed to the keeper
    and the commands each kind of start runs. \<open>Status\<close> (\<open>status.rs\<close>): the read-only commands.

  \<^bold>\<open>Clients.\<close>
  \<^item> \<open>Exec\<close> (\<open>exec.rs\<close>): the client's frame loop, composed with \<open>Connection\<close> into an end-to-end theorem.
  \<^item> \<open>SshServer\<close>, \<open>SshRelay\<close> (\<open>src/ssh/server.rs\<close>): the handlers of a connection, whose channels are
    independent, and the relay of a session's output as a step relation with a decreasing measure (the
    queue holds the source's 64 entries). \<open>SshConfig\<close> (\<open>config.rs\<close>, \<open>proxy.rs\<close>): the managed section of the
    user's configuration and the bridge. \<open>SshKeys\<close> (\<open>keys.rs\<close>): the client's and the hosts' keys as files.
  \<^item> \<open>Sftp\<close> (\<open>src/ssh/sftp.rs\<close>): the requests of a file-transfer session over any file system: its table of
    handles (a second interpretation of \<open>session_registry\<close>), listing in batches of 256, the calls made.
  \<^item> \<open>HttpRequest\<close>, \<open>Proxy\<close> (\<open>src/proxy\<close>): reading one request byte by byte under its bounds; credential,
    decision, dialling and what is relayed.
  \<^item> \<open>Cli\<close>, \<open>Init\<close>, \<open>Report\<close> (\<open>src/bin/devcroft.rs\<close>): the commands over the library, their guards, effects and
    exit codes; \<open>doctor\<close>, \<open>status\<close> and \<open>ps\<close> with the lines they print; the choice of the command, with the
    error contract that holds for every one of them.

  \<^bold>\<open>Not modelled.\<close> Copying bytes between two open sockets (the splices of \<open>proxy/server.rs\<close> and
  \<open>ssh/proxy.rs\<close>), raw terminal mode, the system calls of \<open>fleet/netns.rs\<close> and the internal probe modes of the
  binary have no logic beyond the calls; file modes are not part of the world; the texts of most
  error messages carry no decision; \<open>bin/spike.rs\<close> is an experiment outside the program.
\<close>

end
